(* ===== verification/Prelude.thy ===== *)
theory Prelude
  imports Main "HOL-Library.Word"
begin

unbundle bit_operations_syntax

text \<open>
  What every component of the development shares: the outcome of a Go call, the source of
  random bytes, decimal and hexadecimal printing, and the list and map lemmas the component
  proofs use.

  A Go function that returns \<open>(T, error)\<close> is a function into \<open>('a, 'e) res\<close>:
  \<open>Ok\<close> is a nil error, \<open>Err\<close> a non-nil error (each component has its own error datatype,
  one constructor per return site), \<open>Panic\<close> a run-time panic (a nil dereference or an index
  out of range) and \<open>Diverge\<close> a loop that does not end.
\<close>

named_theorems split_results \<open>case splits on outcomes\<close>

datatype ('a, 'e) res = Ok 'a | Err 'e | Panic | Diverge

lemmas [split_results] = res.splits option.splits if_splits sum.splits prod.splits

text \<open>The message of an error that code outside the repository returns.\<close>

type_synonym liberr = string

fun is_ok :: "('a, 'e) res \<Rightarrow> bool" where
  "is_ok (Ok _) = True"
| "is_ok _ = False"

lemma is_ok_iff: "is_ok r \<longleftrightarrow> (\<exists>a. r = Ok a)"
  by (cases r) auto

section \<open>Random bytes\<close>

text \<open>
  \<open>rand.IntN(256)\<close> draws one byte from a global generator. The generator is the infinite
  sequence of the bytes it is going to give; a call takes the first and leaves the rest.
  Theorems quantify over the sequence, so nothing about its distribution is assumed.
\<close>

type_synonym u8 = "8 word"
type_synonym rand = "nat \<Rightarrow> u8"

definition draw :: "rand \<Rightarrow> u8 \<times> rand" where
  "draw r = (r 0, (\<lambda>n. r (Suc n)))"

definition skip_draws :: "nat \<Rightarrow> rand \<Rightarrow> rand" where
  "skip_draws k r = (\<lambda>n. r (k + n))"

lemma skip_draws_0 [simp]: "skip_draws 0 r = r"
  by (simp add: skip_draws_def)

lemma skip_draws_skip_draws [simp]: "skip_draws j (skip_draws k r) = skip_draws (k + j) r"
  by (simp add: skip_draws_def add.assoc)

lemma snd_draw [simp]: "snd (draw r) = skip_draws 1 r"
  by (simp add: draw_def skip_draws_def)

lemma fst_draw [simp]: "fst (draw r) = r 0"
  by (simp add: draw_def)

section \<open>Printing numbers\<close>

definition digit :: "nat \<Rightarrow> char" where
  "digit n = char_of (48 + n)"

text \<open>\<open>fmt.Sprintf("%d", n)\<close> for a natural number.\<close>

fun dec :: "nat \<Rightarrow> string" where
  "dec n = (if n < 10 then [digit n] else dec (n div 10) @ [digit (n mod 10)])"

declare dec.simps [simp del]

text \<open>The lower-case digits of \<open>encoding/hex\<close>.\<close>

definition hex_digit :: "nat \<Rightarrow> char" where
  "hex_digit n = (if n < 10 then char_of (48 + n) else char_of (87 + n))"

definition hex_byte :: "u8 \<Rightarrow> string" where
  "hex_byte b = [hex_digit (unat b div 16), hex_digit (unat b mod 16)]"

definition hex_EncodeToString :: "u8 list \<Rightarrow> string" where
  "hex_EncodeToString bs = concat (map hex_byte bs)"

lemma length_hex_EncodeToString [simp]: "length (hex_EncodeToString bs) = 2 * length bs"
  by (induction bs) (simp_all add: hex_EncodeToString_def hex_byte_def)

definition hex_digits :: string where
  "hex_digits = ''0123456789abcdef''"

lemma hex_digit_in_hex_digits: "n < 16 \<Longrightarrow> hex_digit n \<in> set hex_digits"
proof -
  have "\<forall>n \<in> set [0..<16]. hex_digit n \<in> set hex_digits"
    by code_simp
  then show "n < 16 \<Longrightarrow> hex_digit n \<in> set hex_digits"
    by simp
qed

lemma set_hex_EncodeToString: "set (hex_EncodeToString bs) \<subseteq> set hex_digits"
proof -
  have "set (hex_byte b) \<subseteq> set hex_digits" for b
  proof -
    have "unat b < 2 ^ LENGTH(8)"
      by (rule unsigned_less)
    then show ?thesis
      by (auto simp: hex_byte_def intro!: hex_digit_in_hex_digits)
  qed
  then show ?thesis
    by (auto simp: hex_EncodeToString_def)
qed

section \<open>Lists\<close>

lemma find_Some_in: "find P xs = Some x \<Longrightarrow> x \<in> set xs \<and> P x"
  by (auto simp: find_Some_iff)

lemma find_unique:
  assumes "x \<in> set xs" and "distinct (map f xs)"
  shows "find (\<lambda>y. f y = f x) xs = Some x"
  using assms by (induction xs) (auto simp: image_iff)

end
