(* ===== verification/Api.thy ===== *)
theory Api
  imports Prelude
begin

text \<open>
  The API types of \<open>apis/v1alpha1/types.go\<close>, the attribute names of
  \<open>apis/v1alpha1/attributes.go\<close> and the default values of \<open>apis/v1alpha1/helpers.go\<close>.

  A Go struct is a record, a pointer field an \<open>option\<close>, a slice a list, a named string type
  with an enumeration of constants a \<open>string\<close> (the API server may hand over any string, and
  the code has branches for the unknown ones). Of the embedded \<open>ObjectMeta\<close> the record
  keeps the name, the one field the code reads. The Kubernetes type \<open>NodeSelector\<close> is kept
  as data because the validation walks it.
\<close>

section \<open>Selecting devices\<close>

definition DeviceSelectorMaxSize :: int where
  "DeviceSelectorMaxSize = 4"

definition DeviceConfigurationMaxSize :: int where
  "DeviceConfigurationMaxSize = 4"

definition SelectorPerDeviceConfigurationMaxSize :: int where
  "SelectorPerDeviceConfigurationMaxSize = DeviceSelectorMaxSize"

definition SelectorPerDeviceSelectorMaxSize :: int where
  "SelectorPerDeviceSelectorMaxSize = 1"

definition CELSelectorExpressionMaxLength :: nat where
  "CELSelectorExpressionMaxLength = 10 * 1024"

record CELDeviceSelector =
  Expression :: string

record Selector =
  CEL :: "CELDeviceSelector option"

datatype NodeSelectorOperator =
    NodeSelectorOpIn
  | NodeSelectorOpNotIn
  | NodeSelectorOpExists
  | NodeSelectorOpDoesNotExist
  | NodeSelectorOpGt
  | NodeSelectorOpLt
  | OtherOperator string

record NodeSelectorRequirement =
  nsr_Key :: string
  nsr_Operator :: NodeSelectorOperator
  nsr_Values :: "string list"

record NodeSelectorTerm =
  MatchExpressions :: "NodeSelectorRequirement list"
  MatchFields :: "NodeSelectorRequirement list"

record NodeSelector =
  NodeSelectorTerms :: "NodeSelectorTerm list"

record DeviceSelector =
  ds_Name :: string
  ds_Selectors :: "Selector list"
  ds_NodeSelector :: "NodeSelector option"

section \<open>Configuring devices\<close>

type_synonym DeviceType = string

definition DeviceTypeHostDevice :: DeviceType where
  "DeviceTypeHostDevice = ''HostDevice''"

definition DeviceTypeMacvlan :: DeviceType where
  "DeviceTypeMacvlan = ''Macvlan''"

lemma device_types_distinct [simp]:
  "DeviceTypeHostDevice \<noteq> DeviceTypeMacvlan" "DeviceTypeMacvlan \<noteq> DeviceTypeHostDevice"
  by (simp_all add: DeviceTypeHostDevice_def DeviceTypeMacvlan_def)

datatype HostDeviceConfig = HostDeviceConfig

type_synonym MacvlanMode = string

definition MacvlanModePrivate :: MacvlanMode where
  "MacvlanModePrivate = ''private''"

definition MacvlanModeVepa :: MacvlanMode where
  "MacvlanModeVepa = ''vepa''"

definition MacvlanModeBridge :: MacvlanMode where
  "MacvlanModeBridge = ''bridge''"

definition MacvlanModePassthru :: MacvlanMode where
  "MacvlanModePassthru = ''passthru''"

definition MacvlanModeSource :: MacvlanMode where
  "MacvlanModeSource = ''source''"

lemmas macvlan_mode_defs = MacvlanModePrivate_def MacvlanModeVepa_def MacvlanModeBridge_def
  MacvlanModePassthru_def MacvlanModeSource_def

record MacvlanConfig =
  Mode :: "MacvlanMode option"

record DeviceConfiguration =
  dc_Name :: string
  dc_DeviceSelectors :: "string list"
  dc_DeviceType :: "DeviceType option"
  dc_Macvlan :: "MacvlanConfig option"
  dc_HostDevice :: "HostDeviceConfig option"

section \<open>Configuring the network interface\<close>

type_synonym IPAMProvider = string

definition IPAMProviderDHCP :: IPAMProvider where
  "IPAMProviderDHCP = ''DHCP''"

definition IPAMProviderRandom :: IPAMProvider where
  "IPAMProviderRandom = ''Random''"

record RandomIPAM =
  CIDR :: string

record IPAM =
  Provider :: IPAMProvider
  Random :: "RandomIPAM option"

record NetworkInterfaceConfiguration =
  nic_IPAM :: "IPAM option list"

section \<open>The resource\<close>

record DeviceNetworkSpec =
  DeviceSelectors :: "DeviceSelector list"
  DeviceConfigurations :: "DeviceConfiguration list"
  spec_NetworkInterfaceConfiguration :: NetworkInterfaceConfiguration

record DeviceNetwork =
  dn_Name :: string
  Spec :: DeviceNetworkSpec

section \<open>Defaults: helpers.go\<close>

definition GetDeviceType :: "DeviceConfiguration \<Rightarrow> DeviceType" where
  "GetDeviceType deviceConfiguration =
     (case dc_DeviceType deviceConfiguration of
        None \<Rightarrow> DeviceTypeHostDevice
      | Some deviceType \<Rightarrow> deviceType)"

definition GetMacvlan :: "DeviceConfiguration \<Rightarrow> MacvlanConfig" where
  "GetMacvlan deviceConfiguration =
     (let macvlan = \<lparr>Mode = Some MacvlanModeBridge\<rparr> in
      case dc_Macvlan deviceConfiguration of
        None \<Rightarrow> macvlan
      | Some m \<Rightarrow>
          (case Mode m of
             None \<Rightarrow> macvlan
           | Some mode \<Rightarrow> macvlan\<lparr>Mode := Some mode\<rparr>))"

text \<open>The pointer \<open>macvlanConfig.Mode\<close> that the callers dereference is never nil.\<close>

lemma GetMacvlan_Mode: "\<exists>mode. Mode (GetMacvlan dc) = Some mode"
  by (simp add: GetMacvlan_def Let_def split: option.split)

section \<open>Attribute names: attributes.go\<close>

text \<open>
  Two of the names are constants of the module \<open>sigs.k8s.io/multi-network-api\<close>, which is
  not part of the repository: they are the fields of a parameter. What the code needs of
  them is that the five attribute names it writes are distinct.
\<close>

record multinetwork_api =
  StandardDeviceAttributePodNetwork :: string
  StandardDeviceAttributePodNetworkKind :: string

definition NetworkInterfaceAttributePrefix :: string where
  "NetworkInterfaceAttributePrefix = ''devicenetwork.io''"

definition NetworkInterfaceAttributeDeviceType :: string where
  "NetworkInterfaceAttributeDeviceType =
     NetworkInterfaceAttributePrefix @ ''/'' @ ''deviceType''"

definition NetworkInterfaceAttributePodNetwork :: "multinetwork_api \<Rightarrow> string" where
  "NetworkInterfaceAttributePodNetwork mn = StandardDeviceAttributePodNetwork mn"

definition NetworkInterfaceAttributePodNetworkKind :: "multinetwork_api \<Rightarrow> string" where
  "NetworkInterfaceAttributePodNetworkKind mn = StandardDeviceAttributePodNetworkKind mn"

definition NetworkInterfaceAttributeDeviceConfiguration :: string where
  "NetworkInterfaceAttributeDeviceConfiguration =
     NetworkInterfaceAttributePrefix @ ''/'' @ ''deviceConfiguration''"

definition NetworkInterfaceAttributeHostDeviceName :: string where
  "NetworkInterfaceAttributeHostDeviceName =
     NetworkInterfaceAttributePrefix @ ''/'' @ ''hostDeviceName''"

definition NetworkInterfaceCapacityMaxVirtualInterfaces :: string where
  "NetworkInterfaceCapacityMaxVirtualInterfaces =
     NetworkInterfaceAttributePrefix @ ''/'' @ ''maxVirtualInterfaces''"

definition MaxVirtualDevices :: nat where
  "MaxVirtualDevices = 65535"

definition InterfaceNameDeviceSelectorAttribute :: string where
  "InterfaceNameDeviceSelectorAttribute = ''interfaceName''"

definition RDMACapableDeviceSelectorAttribute :: string where
  "RDMACapableDeviceSelectorAttribute = ''rdmaCapable''"

definition attribute_names :: "multinetwork_api \<Rightarrow> string list" where
  "attribute_names mn =
     [NetworkInterfaceAttributeDeviceType, NetworkInterfaceAttributePodNetwork mn,
      NetworkInterfaceAttributePodNetworkKind mn, NetworkInterfaceAttributeDeviceConfiguration,
      NetworkInterfaceAttributeHostDeviceName]"

text \<open>The names as the released module has them (they also show in \<open>docs/demo.md\<close>).\<close>

definition demo_multinetwork_api :: multinetwork_api where
  "demo_multinetwork_api =
     \<lparr>StandardDeviceAttributePodNetwork = ''multinetwork.networking.x-k8s.io/podNetwork'',
      StandardDeviceAttributePodNetworkKind = ''multinetwork.networking.x-k8s.io/podNetworkKind''\<rparr>"

lemma demo_attribute_names_distinct: "distinct (attribute_names demo_multinetwork_api)"
  by (simp add: attribute_names_def demo_multinetwork_api_def
      NetworkInterfaceAttributeDeviceType_def NetworkInterfaceAttributePodNetwork_def
      NetworkInterfaceAttributePodNetworkKind_def NetworkInterfaceAttributeDeviceConfiguration_def
      NetworkInterfaceAttributeHostDeviceName_def NetworkInterfaceAttributePrefix_def)

end
