(* ===== verification/FieldValidation.thy ===== *)
theory FieldValidation
  imports Api
begin

text \<open>
  The generic validation helpers of \<open>pkg/validation/helpers.go\<close> and the node selector
  validation of \<open>pkg/validation/kubernetes.go\<close>.

  A validation error is the call that built it (\<open>field.Forbidden(path, message)\<close> is
  \<open>Forbidden path message\<close>), and so is a field path. The functions of the Kubernetes
  libraries that compute something (label and name syntax, the two methods on a whole
  \<open>ErrorList\<close>) are the fields of the parameter \<open>validation_lib\<close>; the laws the theorems
  need of them are \<open>validation_lib_ok\<close>.
\<close>

datatype field_path =
    NewPath string
  | Child field_path string
  | Index field_path nat

datatype bad_value =
    BadString string
  | BadOperator NodeSelectorOperator
  | BadPointer "string option"

datatype field_error =
    Forbidden field_path string
  | Required field_path string
  | Invalid field_path bad_value string
  | NotFound field_path string
  | Duplicate field_path string
  | TooLong field_path nat
  | TooMany field_path nat int
  | WithOrigin field_error string
  | MarkCoveredByDeclarative field_error

record validation_lib =
  ValidateLabelName :: "string \<Rightarrow> field_path \<Rightarrow> field_error list"
  IsValidLabelValue :: "string \<Rightarrow> string list"
  NameIsDNSSubdomain :: "string \<Rightarrow> bool \<Rightarrow> string list"
  ObjectNameField :: string
  ErrorList_WithOrigin :: "field_error list \<Rightarrow> string \<Rightarrow> field_error list"
  ErrorList_MarkCoveredByDeclarative :: "field_error list \<Rightarrow> field_error list"

text \<open>
  The two list methods set a field of every error of the list, so they keep its length, and
  whether a label name is valid does not depend on the path it is reported under.
\<close>

definition validation_lib_ok :: "validation_lib \<Rightarrow> bool" where
  "validation_lib_ok lib \<longleftrightarrow>
     (\<forall>es orig. length (ErrorList_WithOrigin lib es orig) = length es) \<and>
     (\<forall>es. length (ErrorList_MarkCoveredByDeclarative lib es) = length es) \<and>
     (\<forall>key p q. ValidateLabelName lib key p = [] \<longleftrightarrow> ValidateLabelName lib key q = [])"

lemma WithOrigin_Nil_iff:
  "validation_lib_ok lib \<Longrightarrow> ErrorList_WithOrigin lib es orig = [] \<longleftrightarrow> es = []"
  by (metis length_0_conv validation_lib_ok_def)

lemma MarkCovered_Nil_iff:
  "validation_lib_ok lib \<Longrightarrow> ErrorList_MarkCoveredByDeclarative lib es = [] \<longleftrightarrow> es = []"
  by (metis length_0_conv validation_lib_ok_def)

definition label_name_ok :: "validation_lib \<Rightarrow> string \<Rightarrow> bool" where
  "label_name_ok lib key \<longleftrightarrow> ValidateLabelName lib key (NewPath '''') = []"

lemma ValidateLabelName_Nil_iff:
  "validation_lib_ok lib \<Longrightarrow> ValidateLabelName lib key p = [] \<longleftrightarrow> label_name_ok lib key"
  by (metis label_name_ok_def validation_lib_ok_def)

section \<open>Slices and sets: helpers.go\<close>

datatype validationOption = itemsCovered | sizeCovered | uniquenessCovered

text \<open>\<open>for i, item := range slice\<close>: the loop from index \<open>i\<close> on.\<close>

fun validate_items_from ::
  "validation_lib \<Rightarrow> ('a \<Rightarrow> field_path \<Rightarrow> field_error list) \<Rightarrow> field_path \<Rightarrow>
   validationOption list \<Rightarrow> nat \<Rightarrow> 'a list \<Rightarrow> field_error list" where
  "validate_items_from lib validateItem fldPath opts i [] = []"
| "validate_items_from lib validateItem fldPath opts i (item # rest) =
     (let errs = validateItem item (Index fldPath i);
          errs' = (if itemsCovered \<in> set opts
                   then ErrorList_MarkCoveredByDeclarative lib errs else errs)
      in errs' @ validate_items_from lib validateItem fldPath opts (Suc i) rest)"

definition ValidateItems ::
  "validation_lib \<Rightarrow> 'a list \<Rightarrow> ('a \<Rightarrow> field_path \<Rightarrow> field_error list) \<Rightarrow> field_path \<Rightarrow>
   validationOption list \<Rightarrow> field_error list" where
  "ValidateItems lib items validateItem fldPath opts =
     validate_items_from lib validateItem fldPath opts 0 items"

text \<open>The second loop of \<open>ValidateSet\<close>; \<open>allItems\<close> holds the keys seen so far.\<close>

fun duplicates_from ::
  "('a \<Rightarrow> string) \<Rightarrow> field_path \<Rightarrow> validationOption list \<Rightarrow> nat \<Rightarrow> string list \<Rightarrow> 'a list \<Rightarrow>
   field_error list" where
  "duplicates_from itemKey fldPath opts i allItems [] = []"
| "duplicates_from itemKey fldPath opts i allItems (item # rest) =
     (let key = itemKey item; childPath = Index fldPath i in
      if key \<in> set allItems
      then let err = Duplicate childPath key;
               err' = (if uniquenessCovered \<in> set opts then MarkCoveredByDeclarative err else err)
           in err' # duplicates_from itemKey fldPath opts (Suc i) allItems rest
      else duplicates_from itemKey fldPath opts (Suc i) (key # allItems) rest)"

definition too_many :: "field_path \<Rightarrow> nat \<Rightarrow> int \<Rightarrow> validationOption list \<Rightarrow> field_error list" where
  "too_many fldPath n maxSize opts =
     (let err = WithOrigin (TooMany fldPath n maxSize) ''maxItems'' in
      [if sizeCovered \<in> set opts then MarkCoveredByDeclarative err else err])"

definition ValidateSet ::
  "validation_lib \<Rightarrow> 'a list \<Rightarrow> int \<Rightarrow> ('a \<Rightarrow> field_path \<Rightarrow> field_error list) \<Rightarrow> ('a \<Rightarrow> string) \<Rightarrow>
   field_path \<Rightarrow> validationOption list \<Rightarrow> field_error list" where
  "ValidateSet lib items maxSize validateItem itemKey fldPath opts =
     (if 0 \<le> maxSize \<and> int (length items) > maxSize
      then too_many fldPath (length items) maxSize opts
      else ValidateItems lib items validateItem fldPath opts @
           duplicates_from itemKey fldPath opts 0 [] items)"

definition ValidateSlice ::
  "validation_lib \<Rightarrow> 'a list \<Rightarrow> int \<Rightarrow> ('a \<Rightarrow> field_path \<Rightarrow> field_error list) \<Rightarrow> field_path \<Rightarrow>
   validationOption list \<Rightarrow> field_error list" where
  "ValidateSlice lib items maxSize validateItem fldPath opts =
     (if 0 \<le> maxSize \<and> int (length items) > maxSize
      then too_many fldPath (length items) maxSize opts
      else ValidateItems lib items validateItem fldPath opts)"

subsection \<open>When they report nothing\<close>

lemma too_many_not_Nil [simp]: "too_many p n m opts \<noteq> []"
  by (simp add: too_many_def Let_def)

lemma validate_items_from_Nil_iff:
  assumes "validation_lib_ok lib"
  shows "validate_items_from lib f p opts i xs = [] \<longleftrightarrow>
    (\<forall>j < length xs. f (xs ! j) (Index p (i + j)) = [])"
proof (induction xs arbitrary: i)
  case (Cons x xs)
  show ?case
    by (auto simp: Cons.IH Let_def MarkCovered_Nil_iff [OF assms] less_Suc_eq_0_disj)
qed simp

text \<open>The form the callers need: their item check is valid or not whatever the index.\<close>

lemma ValidateItems_Nil_iff:
  assumes "validation_lib_ok lib" and "\<And>x q. x \<in> set xs \<Longrightarrow> f x q = [] \<longleftrightarrow> ok x"
  shows "ValidateItems lib xs f p opts = [] \<longleftrightarrow> list_all ok xs"
  using assms(2) by (auto simp: ValidateItems_def validate_items_from_Nil_iff [OF assms(1)]
      list_all_length)

lemma duplicates_from_Nil_iff:
  "duplicates_from k p opts i seen xs = [] \<longleftrightarrow>
     distinct (map k xs) \<and> set (map k xs) \<inter> set seen = {}"
  by (induction xs arbitrary: i seen) (auto simp: Let_def)

lemma ValidateSet_Nil_iff:
  assumes "validation_lib_ok lib" and "\<And>x q. x \<in> set xs \<Longrightarrow> f x q = [] \<longleftrightarrow> ok x"
  shows "ValidateSet lib xs m f k p opts = [] \<longleftrightarrow>
    (0 \<le> m \<longrightarrow> int (length xs) \<le> m) \<and> list_all ok xs \<and> distinct (map k xs)"
  by (simp add: ValidateSet_def ValidateItems_Nil_iff [OF assms] duplicates_from_Nil_iff) auto

lemma ValidateSlice_Nil_iff:
  assumes "validation_lib_ok lib" and "\<And>x q. x \<in> set xs \<Longrightarrow> f x q = [] \<longleftrightarrow> ok x"
  shows "ValidateSlice lib xs m f p opts = [] \<longleftrightarrow>
    (0 \<le> m \<longrightarrow> int (length xs) \<le> m) \<and> list_all ok xs"
  by (simp add: ValidateSlice_def ValidateItems_Nil_iff [OF assms]) auto

text \<open>One duplicate error for every item whose key an earlier item has.\<close>

lemma length_duplicates_from:
  "length (duplicates_from k p opts i seen xs) + card (set (map k xs) - set seen) = length xs"
proof (induction xs arbitrary: i seen)
  case (Cons x xs)
  show ?case
  proof (cases "k x \<in> set seen")
    case True
    then have "set (map k (x # xs)) - set seen = set (map k xs) - set seen"
      by auto
    with True Cons.IH [of "Suc i" seen] show ?thesis
      by (simp add: Let_def)
  next
    case False
    let ?R = "set (map k xs) - set (k x # seen)"
    from False have "set (map k (x # xs)) - set seen = insert (k x) ?R" and "k x \<notin> ?R"
      by auto
    then have "card (set (map k (x # xs)) - set seen) = Suc (card ?R)"
      by simp
    with False Cons.IH [of "Suc i" "k x # seen"] show ?thesis
      by (simp add: Let_def)
  qed
qed simp

section \<open>Node selectors: kubernetes.go\<close>

definition quoted :: "string \<Rightarrow> string" where
  "quoted s = CHR 0x27 # s @ [CHR 0x27]"

text \<open>The \<open>switch rq.Operator\<close> of \<open>ValidateNodeSelectorRequirement\<close>.\<close>

definition operator_errors :: "NodeSelectorRequirement \<Rightarrow> field_path \<Rightarrow> field_error list" where
  "operator_errors rq fldPath =
     (let in_errors =
            (if length (nsr_Values rq) = 0
             then [Required (Child fldPath ''values'')
                     (''must be specified when `operator` is '' @ quoted ''In'' @ '' or '' @
                      quoted ''NotIn'')]
             else []);
          exists_errors =
            (if length (nsr_Values rq) > 0
             then [Forbidden (Child fldPath ''values'')
                     (''may not be specified when `operator` is '' @ quoted ''Exists'' @ '' or '' @
                      quoted ''DoesNotExist'')]
             else []);
          compare_errors =
            (if length (nsr_Values rq) \<noteq> 1
             then [Required (Child fldPath ''values'')
                     (''must be specified single value when `operator` is '' @ quoted ''Lt'' @
                      '' or '' @ quoted ''Gt'')]
             else [])
      in case nsr_Operator rq of
           NodeSelectorOpIn \<Rightarrow> in_errors
         | NodeSelectorOpNotIn \<Rightarrow> in_errors
         | NodeSelectorOpExists \<Rightarrow> exists_errors
         | NodeSelectorOpDoesNotExist \<Rightarrow> exists_errors
         | NodeSelectorOpGt \<Rightarrow> compare_errors
         | NodeSelectorOpLt \<Rightarrow> compare_errors
         | OtherOperator _ \<Rightarrow>
             [Invalid (Child fldPath ''operator'') (BadOperator (nsr_Operator rq))
                ''not a valid selector operator''])"

text \<open>
  The two loops over the values. As in the source, \<open>WithOrigin\<close> is a method of the whole list
  accumulated so far, not of the error just appended.
\<close>

fun label_value_errors ::
  "validation_lib \<Rightarrow> field_path \<Rightarrow> nat \<Rightarrow> string list \<Rightarrow> field_error list \<Rightarrow> field_error list" where
  "label_value_errors lib path valueIndex [] allErrs = allErrs"
| "label_value_errors lib path valueIndex (value # rest) allErrs =
     label_value_errors lib path (Suc valueIndex) rest
       (fold (\<lambda>msg errs. ErrorList_WithOrigin lib
                (errs @ [Invalid (Index path valueIndex) (BadString value) msg])
                ''format=k8s-label-value'')
          (IsValidLabelValue lib value) allErrs)"

definition ValidateNodeSelectorRequirement ::
  "validation_lib \<Rightarrow> NodeSelectorRequirement \<Rightarrow> bool \<Rightarrow> field_path \<Rightarrow> field_error list" where
  "ValidateNodeSelectorRequirement lib rq allowInvalidLabelValueInRequiredNodeAffinity fldPath =
     (let allErrs = operator_errors rq fldPath @
                    ValidateLabelName lib (nsr_Key rq) (Child fldPath ''key'')
      in if \<not> allowInvalidLabelValueInRequiredNodeAffinity
         then label_value_errors lib (Child fldPath ''values'') 0 (nsr_Values rq) allErrs
         else allErrs)"

definition nodeFieldSelectorValidators ::
  "validation_lib \<Rightarrow> string \<rightharpoonup> (string \<Rightarrow> bool \<Rightarrow> string list)" where
  "nodeFieldSelectorValidators lib = [ObjectNameField lib \<mapsto> NameIsDNSSubdomain lib]"

fun field_value_errors ::
  "(string \<Rightarrow> bool \<Rightarrow> string list) \<Rightarrow> field_path \<Rightarrow> nat \<Rightarrow> string list \<Rightarrow> field_error list" where
  "field_value_errors vf path i [] = []"
| "field_value_errors vf path i (v # rest) =
     map (\<lambda>msg. Invalid (Index path i) (BadString v) msg) (vf v False) @
     field_value_errors vf path (Suc i) rest"

definition ValidateNodeFieldSelectorRequirement ::
  "validation_lib \<Rightarrow> NodeSelectorRequirement \<Rightarrow> field_path \<Rightarrow> field_error list" where
  "ValidateNodeFieldSelectorRequirement lib req fldPath =
     (let in_errors =
            (if length (nsr_Values req) \<noteq> 1
             then [Required (Child fldPath ''values'')
                     (''must be only one value when `operator` is '' @ quoted ''In'' @ '' or '' @
                      quoted ''NotIn'' @ '' for node field selector'')]
             else []);
          op_errors =
            (case nsr_Operator req of
               NodeSelectorOpIn \<Rightarrow> in_errors
             | NodeSelectorOpNotIn \<Rightarrow> in_errors
             | _ \<Rightarrow> [Invalid (Child fldPath ''operator'') (BadOperator (nsr_Operator req))
                        ''not a valid selector operator''])
      in op_errors @
         (case nodeFieldSelectorValidators lib (nsr_Key req) of
            None \<Rightarrow> [Invalid (Child fldPath ''key'') (BadString (nsr_Key req))
                        ''not a valid field selector key'']
          | Some vf \<Rightarrow> field_value_errors vf (Child fldPath ''values'') 0 (nsr_Values req)))"

text \<open>\<open>for j, req := range reqs { allErrs = append(allErrs, f(req, path.Index(j))...) }\<close>\<close>

fun collect_indexed ::
  "('a \<Rightarrow> field_path \<Rightarrow> field_error list) \<Rightarrow> field_path \<Rightarrow> nat \<Rightarrow> 'a list \<Rightarrow> field_error list" where
  "collect_indexed f path j [] = []"
| "collect_indexed f path j (x # rest) = f x (Index path j) @ collect_indexed f path (Suc j) rest"

definition ValidateNodeSelectorTerm ::
  "validation_lib \<Rightarrow> NodeSelectorTerm \<Rightarrow> bool \<Rightarrow> field_path \<Rightarrow> field_error list" where
  "ValidateNodeSelectorTerm lib trm allowInvalidLabelValueInRequiredNodeAffinity fldPath =
     collect_indexed
       (\<lambda>req. ValidateNodeSelectorRequirement lib req allowInvalidLabelValueInRequiredNodeAffinity)
       (Child fldPath ''matchExpressions'') 0 (MatchExpressions trm) @
     collect_indexed (ValidateNodeFieldSelectorRequirement lib)
       (Child fldPath ''matchFields'') 0 (MatchFields trm)"

definition ValidateNodeSelector ::
  "validation_lib \<Rightarrow> NodeSelector \<Rightarrow> bool \<Rightarrow> field_path \<Rightarrow> field_error list" where
  "ValidateNodeSelector lib nodeSelector allowInvalidLabelValueInRequiredNodeAffinity fldPath =
     (let termFldPath = Child fldPath ''nodeSelectorTerms'' in
      if length (NodeSelectorTerms nodeSelector) = 0
      then [Required termFldPath ''must have at least one node selector term'']
      else collect_indexed
             (\<lambda>trm. ValidateNodeSelectorTerm lib trm allowInvalidLabelValueInRequiredNodeAffinity)
             termFldPath 0 (NodeSelectorTerms nodeSelector))"

subsection \<open>What a valid node selector is\<close>

definition requirement_ok :: "validation_lib \<Rightarrow> bool \<Rightarrow> NodeSelectorRequirement \<Rightarrow> bool" where
  "requirement_ok lib allow rq \<longleftrightarrow>
     (case nsr_Operator rq of
        NodeSelectorOpIn \<Rightarrow> nsr_Values rq \<noteq> []
      | NodeSelectorOpNotIn \<Rightarrow> nsr_Values rq \<noteq> []
      | NodeSelectorOpExists \<Rightarrow> nsr_Values rq = []
      | NodeSelectorOpDoesNotExist \<Rightarrow> nsr_Values rq = []
      | NodeSelectorOpGt \<Rightarrow> length (nsr_Values rq) = 1
      | NodeSelectorOpLt \<Rightarrow> length (nsr_Values rq) = 1
      | OtherOperator _ \<Rightarrow> False) \<and>
     label_name_ok lib (nsr_Key rq) \<and>
     (allow \<or> list_all (\<lambda>v. IsValidLabelValue lib v = []) (nsr_Values rq))"

definition field_requirement_ok :: "validation_lib \<Rightarrow> NodeSelectorRequirement \<Rightarrow> bool" where
  "field_requirement_ok lib req \<longleftrightarrow>
     nsr_Operator req \<in> {NodeSelectorOpIn, NodeSelectorOpNotIn} \<and>
     length (nsr_Values req) = 1 \<and> nsr_Key req = ObjectNameField lib \<and>
     list_all (\<lambda>v. NameIsDNSSubdomain lib v False = []) (nsr_Values req)"

definition node_selector_ok :: "validation_lib \<Rightarrow> NodeSelector \<Rightarrow> bool" where
  "node_selector_ok lib sel \<longleftrightarrow>
     NodeSelectorTerms sel \<noteq> [] \<and>
     list_all (\<lambda>t. list_all (requirement_ok lib False) (MatchExpressions t) \<and>
                   list_all (field_requirement_ok lib) (MatchFields t)) (NodeSelectorTerms sel)"

lemma collect_indexed_Nil_iff:
  assumes "\<And>x q. x \<in> set xs \<Longrightarrow> f x q = [] \<longleftrightarrow> ok x"
  shows "collect_indexed f p j xs = [] \<longleftrightarrow> list_all ok xs"
  using assms by (induction xs arbitrary: j) auto

lemma operator_errors_Nil_iff:
  "operator_errors rq p = [] \<longleftrightarrow>
     (case nsr_Operator rq of
        NodeSelectorOpIn \<Rightarrow> nsr_Values rq \<noteq> []
      | NodeSelectorOpNotIn \<Rightarrow> nsr_Values rq \<noteq> []
      | NodeSelectorOpExists \<Rightarrow> nsr_Values rq = []
      | NodeSelectorOpDoesNotExist \<Rightarrow> nsr_Values rq = []
      | NodeSelectorOpGt \<Rightarrow> length (nsr_Values rq) = 1
      | NodeSelectorOpLt \<Rightarrow> length (nsr_Values rq) = 1
      | OtherOperator _ \<Rightarrow> False)"
  by (simp add: operator_errors_def Let_def split: NodeSelectorOperator.split)

lemma label_value_errors_Nil_iff:
  assumes "validation_lib_ok lib"
  shows "label_value_errors lib p i vs acc = [] \<longleftrightarrow>
    acc = [] \<and> list_all (\<lambda>v. IsValidLabelValue lib v = []) vs"
proof (induction vs arbitrary: i acc)
  case (Cons v vs)
  have "fold (\<lambda>msg errs. ErrorList_WithOrigin lib (errs @ [F msg]) orig) msgs acc = [] \<longleftrightarrow>
      acc = [] \<and> msgs = []" for F orig and msgs :: "string list" and acc
    by (induction msgs arbitrary: acc) (simp_all add: WithOrigin_Nil_iff [OF assms])
  then show ?case
    by (auto simp: Cons.IH)
qed simp

lemma ValidateNodeSelectorRequirement_Nil_iff:
  assumes "validation_lib_ok lib"
  shows "ValidateNodeSelectorRequirement lib rq allow p = [] \<longleftrightarrow> requirement_ok lib allow rq"
  by (simp add: ValidateNodeSelectorRequirement_def Let_def requirement_ok_def
      operator_errors_Nil_iff ValidateLabelName_Nil_iff [OF assms]
      label_value_errors_Nil_iff [OF assms])

lemma field_value_errors_Nil_iff:
  "field_value_errors vf p i vs = [] \<longleftrightarrow> list_all (\<lambda>v. vf v False = []) vs"
  by (induction vs arbitrary: i) auto

lemma ValidateNodeFieldSelectorRequirement_Nil_iff:
  "ValidateNodeFieldSelectorRequirement lib req p = [] \<longleftrightarrow> field_requirement_ok lib req"
  by (cases "nsr_Operator req")
    (auto simp: ValidateNodeFieldSelectorRequirement_def Let_def field_requirement_ok_def
      nodeFieldSelectorValidators_def field_value_errors_Nil_iff)

lemma ValidateNodeSelectorTerm_Nil_iff:
  assumes "validation_lib_ok lib"
  shows "ValidateNodeSelectorTerm lib t allow p = [] \<longleftrightarrow>
    list_all (requirement_ok lib allow) (MatchExpressions t) \<and>
    list_all (field_requirement_ok lib) (MatchFields t)"
  unfolding ValidateNodeSelectorTerm_def append_is_Nil_conv
  by (intro arg_cong2 [where f = conj] collect_indexed_Nil_iff
      ValidateNodeSelectorRequirement_Nil_iff [OF assms]
      ValidateNodeFieldSelectorRequirement_Nil_iff)

lemma ValidateNodeSelector_Nil_iff:
  assumes "validation_lib_ok lib"
  shows "ValidateNodeSelector lib sel False p = [] \<longleftrightarrow> node_selector_ok lib sel"
proof -
  have "collect_indexed (\<lambda>t. ValidateNodeSelectorTerm lib t False) q 0 (NodeSelectorTerms sel) = []
      \<longleftrightarrow> list_all (\<lambda>t. list_all (requirement_ok lib False) (MatchExpressions t) \<and>
            list_all (field_requirement_ok lib) (MatchFields t)) (NodeSelectorTerms sel)" for q
    by (rule collect_indexed_Nil_iff) (rule ValidateNodeSelectorTerm_Nil_iff [OF assms])
  then show ?thesis
    by (simp add: ValidateNodeSelector_def Let_def node_selector_ok_def)
qed

subsection \<open>What ValidateSet reports\<close>

text \<open>
  On a slice that is too long \<open>ValidateSet\<close> reports one error and looks at no item; otherwise
  it reports what the items' own check reports and one duplicate error for every item beyond the
  first of each key.
\<close>

lemma ValidateSet_error_count:
  "length (ValidateSet lib xs maxSize f key p opts) =
     (if 0 \<le> maxSize \<and> maxSize < int (length xs) then 1
      else length (ValidateItems lib xs f p opts) + (length xs - card (set (map key xs))))"
proof -
  have "length (duplicates_from key p opts 0 [] xs) = length xs - card (set (map key xs))"
    using length_duplicates_from [of key p opts 0 "[]" xs] by simp
  then show ?thesis
    by (simp only: ValidateSet_def too_many_def Let_def length_append if_distrib [of length] list.size) simp
qed

end
