(* ===== verification/GoNet.thy ===== *)
theory GoNet
  imports Prelude
begin

text \<open>
  What the code uses of Go's package \<open>net\<close>: \<open>CIDRMask\<close>, \<open>IPMask.Size\<close>, \<open>IP.Mask\<close>, \<open>ParseCIDR\<close> and
  \<open>IP.String\<close>, with the parts of \<open>net/netip\<close> they call (\<open>ParseAddr\<close> and the printing of addresses).
  A \<open>net.IP\<close> is the list of its bytes. The texts of parse errors are those of \<open>net.ParseError\<close>.

  The last section shows that printing and parsing are inverse to each other, except that an
  IPv4-mapped IPv6 address is printed as the IPv4 address.
\<close>

section \<open>Masks\<close>

record IPNet =
  net_IP :: "u8 list"
  net_Mask :: "u8 list"

text \<open>\<open>net.CIDRMask(ones, 8 * k)\<close>\<close>

fun CIDRMask :: "nat \<Rightarrow> nat \<Rightarrow> u8 list" where
  "CIDRMask n 0 = []"
| "CIDRMask n (Suc k) =
     (if n \<ge> 8 then 255 # CIDRMask (n - 8) k else NOT (drop_bit n 255) # CIDRMask 0 k)"

text \<open>
  \<open>IPMask.Size\<close>: whole bytes of ones, then the leading ones of one byte (at most eight), and
  zeros. A mask of another shape has size \<open>(0, 0)\<close>.
\<close>

fun leading_ones :: "nat \<Rightarrow> u8 \<Rightarrow> nat \<times> u8" where
  "leading_ones 0 v = (0, v)"
| "leading_ones (Suc k) v =
     (if v AND 128 \<noteq> 0
      then (let (n, v') = leading_ones k (push_bit 1 v) in (Suc n, v'))
      else (0, v))"

fun simpleMaskLength :: "u8 list \<Rightarrow> nat option" where
  "simpleMaskLength [] = Some 0"
| "simpleMaskLength (v # rest) =
     (if v = 255 then map_option (\<lambda>n. 8 + n) (simpleMaskLength rest)
      else (let (n, v') = leading_ones 8 v in
            if v' \<noteq> 0 \<or> (\<exists>b \<in> set rest. b \<noteq> 0) then None else Some n))"

definition mask_Size :: "u8 list \<Rightarrow> nat \<times> nat" where
  "mask_Size m = (case simpleMaskLength m of None \<Rightarrow> (0, 0) | Some n \<Rightarrow> (n, 8 * length m))"

lemma length_CIDRMask [simp]: "length (CIDRMask n k) = k"
  by (induction n k rule: CIDRMask.induct) simp_all

lemma CIDRMask_0: "CIDRMask 0 k = replicate k 0"
proof (induction k)
  case (Suc k)
  have "NOT (255 :: u8) = 0"
    by simp
  with Suc show ?case
    by simp
qed simp

lemma leading_ones_CIDRMask:
  "n < 8 \<Longrightarrow> leading_ones 8 (NOT (drop_bit n (255 :: u8))) = (n, 0) \<and> NOT (drop_bit n (255 :: u8)) \<noteq> 255"
proof -
  have "\<forall>n \<in> set [0..<8]. leading_ones 8 (NOT (drop_bit n (255 :: u8))) = (n, 0) \<and>
      NOT (drop_bit n (255 :: u8)) \<noteq> 255"
    by code_simp
  then show "n < 8 \<Longrightarrow> ?thesis"
    by simp
qed

lemma simpleMaskLength_CIDRMask: "n \<le> 8 * k \<Longrightarrow> simpleMaskLength (CIDRMask n k) = Some n"
proof (induction n k rule: CIDRMask.induct)
  case (2 n k)
  show ?case
  proof (cases "n \<ge> 8")
    case True
    with 2 show ?thesis
      by simp
  next
    case False
    then show ?thesis
      using leading_ones_CIDRMask [of n] by (simp add: CIDRMask_0)
  qed
qed simp

lemma mask_Size_CIDRMask: "n \<le> 8 * k \<Longrightarrow> mask_Size (CIDRMask n k) = (n, 8 * k)"
  by (simp add: mask_Size_def simpleMaskLength_CIDRMask)

text \<open>\<open>IP.Mask\<close>: a mask of 4 bytes also masks an IPv4-mapped address of 16 bytes, and a mask of 16
  bytes that keeps the first twelve an address of 4. The nil result of other lengths is \<open>None\<close>.\<close>

definition v4InV6Prefix :: "u8 list" where
  "v4InV6Prefix = [0, 0, 0, 0, 0, 0, 0, 0, 0, 0, 255, 255]"

definition IP_Mask :: "u8 list \<Rightarrow> u8 list \<Rightarrow> u8 list option" where
  "IP_Mask ip msk =
     (let msk' = (if length msk = 16 \<and> length ip = 4 \<and> take 12 msk = replicate 12 255 then drop 12 msk else msk);
          ip' = (if length msk' = 4 \<and> length ip = 16 \<and> take 12 ip = v4InV6Prefix then drop 12 ip else ip)
      in if length ip' \<noteq> length msk' then None else Some (map2 (\<lambda>b m. b AND m) ip' msk'))"

section \<open>Reading digits\<close>

definition is_digit :: "char \<Rightarrow> bool" where
  "is_digit c \<longleftrightarrow> 48 \<le> (of_char c :: nat) \<and> (of_char c :: nat) \<le> 57"

definition digit_value :: "char \<Rightarrow> nat" where
  "digit_value c = of_char c - 48"

definition hex_value :: "char \<Rightarrow> nat option" where
  "hex_value c =
     (if is_digit c then Some (digit_value c)
      else if 97 \<le> (of_char c :: nat) \<and> (of_char c :: nat) \<le> 102 then Some (of_char c - 87)
      else if 65 \<le> (of_char c :: nat) \<and> (of_char c :: nat) \<le> 70 then Some (of_char c - 55)
      else None)"

text \<open>\<open>dtoi\<close>: the value of the leading digits, which must be below \<open>0xFFFFFF\<close>, and what follows.\<close>

fun dtoi_from :: "nat \<Rightarrow> string \<Rightarrow> (nat \<times> string) option" where
  "dtoi_from n [] = Some (n, [])"
| "dtoi_from n (c # s) =
     (if is_digit c
      then (let n' = 10 * n + digit_value c in if n' \<ge> 16777215 then None else dtoi_from n' s)
      else Some (n, c # s))"

definition dtoi :: "string \<Rightarrow> (nat \<times> string) option" where
  "dtoi s = (case s of [] \<Rightarrow> None | c # _ \<Rightarrow> if is_digit c then dtoi_from 0 s else None)"

section \<open>Reading addresses\<close>

text \<open>
  \<open>parseIPv4Fields\<close>: the value and the number of digits of the field being read, and the fields read
  before. A dot right after a dot or at the start is one that no digit precedes.
\<close>

fun parseIPv4Fields :: "nat \<Rightarrow> nat \<Rightarrow> u8 list \<Rightarrow> string \<Rightarrow> u8 list option" where
  "parseIPv4Fields val digLen flds [] =
     (if length flds < 3 then None else Some (flds @ [of_nat val]))"
| "parseIPv4Fields val digLen flds (c # s) =
     (if is_digit c
      then if digLen = 1 \<and> val = 0 then None
           else (let val' = 10 * val + digit_value c in
                 if val' > 255 then None else parseIPv4Fields val' (Suc digLen) flds s)
      else if c = CHR ''.''
      then if digLen = 0 \<or> s = [] then None
           else if length flds = 3 then None
           else parseIPv4Fields 0 0 (flds @ [of_nat val]) s
      else None)"

definition is_hex :: "char \<Rightarrow> bool" where
  "is_hex c \<longleftrightarrow> hex_value c \<noteq> None"

definition hex_number :: "string \<Rightarrow> nat" where
  "hex_number g = foldl (\<lambda>acc c. 16 * acc + the (hex_value c)) 0 g"

lemma length_dropWhile_Cons: "c # s' = dropWhile P s \<Longrightarrow> length s' < length s"
  by (metis Suc_le_lessD length_Cons length_dropWhile_le)

text \<open>
  The loop of \<open>parseIPv6\<close>: the bytes read so far and the position of the ellipsis, if there was one. A
  group has one to four hexadecimal digits; the last four bytes may be written as an IPv4 address.
\<close>

function v6_groups :: "u8 list \<Rightarrow> nat option \<Rightarrow> string \<Rightarrow> (u8 list \<times> nat option) option" where
  "v6_groups ip ellipsis s =
     (if length ip \<ge> 16 then (if s = [] then Some (ip, ellipsis) else None)
      else
        (let g = takeWhile is_hex s; rest = dropWhile is_hex s;
             ip' = ip @ [of_nat (hex_number g div 256), of_nat (hex_number g mod 256)]
         in if g = [] \<or> length g > 4 then None
            else case rest of
                [] \<Rightarrow> Some (ip', ellipsis)
              | c # s1 \<Rightarrow>
                  if c = CHR ''.''
                  then if (ellipsis = None \<and> length ip \<noteq> 12) \<or> length ip + 4 > 16 then None
                       else map_option (\<lambda>flds. (ip @ flds, ellipsis)) (parseIPv4Fields 0 0 [] s)
                  else if c \<noteq> CHR '':'' then None
                  else case s1 of
                      [] \<Rightarrow> None
                    | c2 # s2 \<Rightarrow>
                        if c2 \<noteq> CHR '':'' then v6_groups ip' ellipsis s1
                        else if ellipsis \<noteq> None then None
                        else if s2 = [] then Some (ip', Some (length ip'))
                        else v6_groups ip' (Some (length ip')) s2))"
  by pat_completeness auto

termination v6_groups
  by (relation "measure (\<lambda>(ip, ellipsis, s). length s)") (auto dest: length_dropWhile_Cons)

declare v6_groups.simps [simp del]

datatype addr = Addr4 "u8 list" | Addr6 "u8 list" string

text \<open>The ellipsis stands for at least one group of zeros; without one nothing may be missing.\<close>

definition parseIPv6 :: "string \<Rightarrow> addr option" where
  "parseIPv6 s0 =
     (let s = takeWhile (\<lambda>c. c \<noteq> CHR ''%'') s0; after = dropWhile (\<lambda>c. c \<noteq> CHR ''%'') s0; zone = tl after in
      if after \<noteq> [] \<and> zone = [] then None
      else if s = ''::'' then Some (Addr6 (replicate 16 0) zone)
      else (case (if take 2 s = ''::'' then v6_groups [] (Some 0) (drop 2 s) else v6_groups [] None s) of
              None \<Rightarrow> None
            | Some (ip, ellipsis) \<Rightarrow>
                (case ellipsis of
                   None \<Rightarrow> if length ip < 16 then None else Some (Addr6 ip zone)
                 | Some e \<Rightarrow>
                     if length ip < 16
                     then Some (Addr6 (take e ip @ replicate (16 - length ip) 0 @ drop e ip) zone)
                     else None)))"

definition ParseAddr :: "string \<Rightarrow> addr option" where
  "ParseAddr s =
     (case find (\<lambda>c. c = CHR ''.'' \<or> c = CHR '':'' \<or> c = CHR ''%'') s of
        None \<Rightarrow> None
      | Some c \<Rightarrow>
          if c = CHR ''.'' then map_option Addr4 (parseIPv4Fields 0 0 [] s)
          else if c = CHR '':'' then parseIPv6 s
          else None)"

text \<open>The cut is at the first slash. The address is returned with 16 bytes, the network with as many
  as it was written with.\<close>

definition ParseCIDR :: "string \<Rightarrow> liberr + u8 list \<times> IPNet" where
  "ParseCIDR s =
     (let err = Inl (''invalid CIDR address: '' @ s);
          adr = takeWhile (\<lambda>c. c \<noteq> CHR ''/'') s; after = dropWhile (\<lambda>c. c \<noteq> CHR ''/'') s
      in if after = [] then err
         else case ParseAddr adr of
             None \<Rightarrow> err
           | Some a \<Rightarrow>
               (let bytes = (case a of Addr4 ip \<Rightarrow> ip | Addr6 ip zone \<Rightarrow> ip);
                    zone = (case a of Addr4 ip \<Rightarrow> [] | Addr6 ip zone \<Rightarrow> zone);
                    addr16 = (case a of Addr4 ip \<Rightarrow> v4InV6Prefix @ ip | Addr6 ip zone \<Rightarrow> ip)
                in if zone \<noteq> [] then err
                   else case dtoi (tl after) of
                       None \<Rightarrow> err
                     | Some (n, rest) \<Rightarrow>
                         if rest \<noteq> [] \<or> n > 8 * length bytes then err
                         else (let m = CIDRMask n (length bytes) in
                               case IP_Mask addr16 m of
                                 None \<Rightarrow> err
                               | Some masked \<Rightarrow> Inr (addr16, \<lparr>net_IP = masked, net_Mask = m\<rparr>))))"

section \<open>Writing addresses\<close>

fun join :: "string \<Rightarrow> string list \<Rightarrow> string" where
  "join sep [] = []"
| "join sep [s] = s"
| "join sep (s # ss) = s @ sep @ join sep ss"

definition string4 :: "u8 list \<Rightarrow> string" where
  "string4 ip = join ''.'' (map (\<lambda>b. dec (unat b)) ip)"

text \<open>\<open>appendHex\<close>: the digits of a 16-bit group without leading zeros.\<close>

definition hex_group :: "nat \<Rightarrow> string" where
  "hex_group x =
     (if x \<ge> 4096 then [hex_digit (x div 4096)] else []) @
     (if x \<ge> 256 then [hex_digit (x div 256 mod 16)] else []) @
     (if x \<ge> 16 then [hex_digit (x div 16 mod 16)] else []) @ [hex_digit (x mod 16)]"

fun v6u16s :: "u8 list \<Rightarrow> nat list" where
  "v6u16s (a # b # ip) = (256 * unat a + unat b) # v6u16s ip"
| "v6u16s ip = []"

text \<open>The first of the longest runs of at least two groups of zeros.\<close>

definition zero_run :: "nat list \<Rightarrow> (nat \<times> nat) option" where
  "zero_run gs =
     fold (\<lambda>i best. let l = length (takeWhile (\<lambda>g. g = 0) (drop i gs)) in
             if l \<ge> 2 \<and> l > (case best of None \<Rightarrow> 0 | Some (i', l') \<Rightarrow> l') then Some (i, l) else best)
       [0..<length gs] None"

definition string6 :: "u8 list \<Rightarrow> string" where
  "string6 ip =
     (let gs = v6u16s ip in
      case zero_run gs of
        None \<Rightarrow> join '':'' (map hex_group gs)
      | Some (i, l) \<Rightarrow>
          join '':'' (map hex_group (take i gs)) @ ''::'' @ join '':'' (map hex_group (drop (i + l) gs)))"

definition To4 :: "u8 list \<Rightarrow> u8 list option" where
  "To4 ip =
     (if length ip = 4 then Some ip
      else if length ip = 16 \<and> take 12 ip = v4InV6Prefix then Some (drop 12 ip)
      else None)"

definition IPString :: "u8 list \<Rightarrow> string" where
  "IPString ip =
     (if ip = [] then ''<nil>''
      else if length ip \<noteq> 4 \<and> length ip \<noteq> 16 then ''?'' @ hex_EncodeToString ip
      else case To4 ip of Some p4 \<Rightarrow> string4 p4 | None \<Rightarrow> string6 ip)"

section \<open>What is read\<close>

definition ip_net_ok :: "IPNet \<Rightarrow> bool" where
  "ip_net_ok net \<longleftrightarrow>
     length (net_IP net) \<in> {4, 16} \<and>
     (\<exists>n \<le> 8 * length (net_IP net). net_Mask net = CIDRMask n (length (net_IP net))) \<and>
     (\<forall>i < length (net_IP net). net_IP net ! i AND NOT (net_Mask net ! i) = 0)"

lemma length_parseIPv4Fields:
  "parseIPv4Fields val digLen flds s = Some ip \<Longrightarrow> length flds \<le> 3 \<Longrightarrow> length ip = 4"
  by (induction val digLen flds s rule: parseIPv4Fields.induct)
    (auto simp: Let_def split: if_splits)

lemma length_v6_groups:
  "v6_groups ip ellipsis s = Some (ip', e') \<Longrightarrow> length ip \<le> 16 \<Longrightarrow> even (length ip) \<Longrightarrow> length ip' \<le> 16"
proof (induction ip ellipsis s rule: v6_groups.induct)
  case (1 ip ellipsis s)
  show ?case
  proof (cases "16 \<le> length ip")
    case True
    with 1 show ?thesis
      by (subst (asm) v6_groups.simps) (auto split: if_splits)
  next
    case False
    with "1.prems"(3) have room: "length ip + 2 \<le> 16"
      by (auto elim!: evenE)
    from False "1.prems"(1) show ?thesis
      using "1.IH" [OF False refl refl refl] room "1.prems"(3)
      by (subst (asm) (1) v6_groups.simps)
        (auto simp: Let_def dest: length_parseIPv4Fields split: if_splits list.splits)
  qed
qed

lemma length_parseIPv6: "parseIPv6 s = Some a \<Longrightarrow> \<exists>ip zone. a = Addr6 ip zone \<and> length ip = 16"
  by (auto simp: parseIPv6_def Let_def dest!: length_v6_groups split: if_splits option.splits prod.splits)

lemma length_ParseAddr:
  "ParseAddr s = Some a \<Longrightarrow> (\<exists>ip. a = Addr4 ip \<and> length ip = 4) \<or> (\<exists>ip zone. a = Addr6 ip zone \<and> length ip = 16)"
  by (auto simp: ParseAddr_def dest: length_parseIPv4Fields length_parseIPv6 split: option.splits if_splits)

lemma length_v4InV6Prefix [simp]: "length v4InV6Prefix = 12"
  by (simp add: v4InV6Prefix_def)

text \<open>Masking keeps exactly the bits of the mask.\<close>

definition masked :: "u8 list \<Rightarrow> u8 list \<Rightarrow> u8 list" where
  "masked ip m = map2 (\<lambda>b m. b AND m) ip m"

lemma IP_Mask_4: "length ip = 4 \<Longrightarrow> length m = 4 \<Longrightarrow> IP_Mask (v4InV6Prefix @ ip) m = Some (masked ip m)"
  by (simp add: IP_Mask_def masked_def)

lemma IP_Mask_16: "length ip = 16 \<Longrightarrow> length m = 16 \<Longrightarrow> IP_Mask ip m = Some (masked ip m)"
  by (simp add: IP_Mask_def masked_def)

lemma masked_ok:
  assumes "length ip \<in> {4, 16}" and "n \<le> 8 * length ip"
  shows "ip_net_ok \<lparr>net_IP = masked ip (CIDRMask n (length ip)), net_Mask = CIDRMask n (length ip)\<rparr>"
proof -
  have "(b AND m) AND NOT m = 0" for b m :: u8
    by (simp add: bit_eq_iff bit_simps)
  with assms show ?thesis
    unfolding ip_net_ok_def by (auto simp: masked_def simp del: bit.conj_cancel_right)
qed

lemma ParseCIDR_cases:
  assumes "ParseCIDR s = Inr (a, net)"
  obtains ip n where "length ip \<in> {4, 16}" "n \<le> 8 * length ip"
    "a = (if length ip = 4 then v4InV6Prefix @ ip else ip)"
    "net = \<lparr>net_IP = masked ip (CIDRMask n (length ip)), net_Mask = CIDRMask n (length ip)\<rparr>"
proof -
  let ?adr = "takeWhile (\<lambda>c. c \<noteq> CHR ''/'') s" and ?after = "dropWhile (\<lambda>c. c \<noteq> CHR ''/'') s"
  from assms obtain x where x: "ParseAddr ?adr = Some x"
    by (auto simp: ParseCIDR_def Let_def split: if_splits option.splits)
  from length_ParseAddr [OF x] show thesis
  proof (elim disjE exE conjE)
    fix ip assume ip: "x = Addr4 ip" "length ip = 4"
    with assms x that [of ip] show thesis
      by (auto simp: ParseCIDR_def Let_def IP_Mask_4 not_less split: if_splits option.splits prod.splits)
  next
    fix ip zone assume ip: "x = Addr6 ip zone" "length ip = 16"
    with assms x that [of ip] show thesis
      by (auto simp: ParseCIDR_def Let_def IP_Mask_16 not_less split: if_splits option.splits prod.splits)
  qed
qed

lemma ParseCIDR_ok: "ParseCIDR s = Inr (a, net) \<Longrightarrow> ip_net_ok net"
  by (erule ParseCIDR_cases) (simp add: masked_ok)

section \<open>Reading what was written\<close>

lemma of_char_digit: "d < 10 \<Longrightarrow> (of_char (digit d) :: nat) = 48 + d"
  by (simp add: digit_def)

lemma digit_simps [simp]:
  "d < 10 \<Longrightarrow> is_digit (digit d)" "d < 10 \<Longrightarrow> digit_value (digit d) = d"
  by (simp_all add: is_digit_def digit_value_def of_char_digit)

lemma dec_1: "a < 10 \<Longrightarrow> dec a = [digit a]"
  by (simp add: dec.simps [of a])

lemma dec_2: "0 < a \<Longrightarrow> a < 10 \<Longrightarrow> b < 10 \<Longrightarrow> dec (10 * a + b) = [digit a, digit b]"
  by (simp add: dec.simps [of "10 * a + b"] dec_1)

lemma dec_3:
  assumes "0 < a" "a < 10" "b < 10" "c < 10"
  shows "dec (100 * a + 10 * b + c) = [digit a, digit b, digit c]"
proof -
  have eq: "100 * a + 10 * b + c = c + (10 * a + b) * 10"
    by simp
  then have "(100 * a + 10 * b + c) div 10 = 10 * a + b" "(100 * a + 10 * b + c) mod 10 = c"
    using assms unfolding eq div_mult_self1 [of 10, simplified] mod_mult_self1 by simp_all
  with assms show ?thesis
    by (simp add: dec.simps [of "100 * a + 10 * b + c"] dec_2)
qed

lemma digits_cases:
  fixes n :: nat
  assumes "n < 1000"
  obtains (one) "n < 10" | (two) a b where "n = 10 * a + b" "0 < a" "a < 10" "b < 10"
  | (three) a b c where "n = 100 * a + 10 * b + c" "0 < a" "a < 10" "b < 10" "c < 10"
proof -
  consider "n < 10" | "10 \<le> n" "n < 100" | "100 \<le> n"
    by linarith
  then show thesis
  proof cases
    case 2
    then show thesis
      by (intro two [of "n div 10" "n mod 10"]) auto
  next
    case 3
    let ?m = "n div 10"
    have "n = 10 * ?m + n mod 10" "?m = 10 * (?m div 10) + ?m mod 10"
      by simp_all
    then have "n = 100 * (?m div 10) + 10 * (?m mod 10) + n mod 10"
      by linarith
    moreover have "0 < ?m div 10" "?m div 10 < 10"
      using 3 assms by (simp_all add: flip: div_mult2_eq)
    ultimately show thesis
      by (intro three [of "?m div 10" "?m mod 10" "n mod 10"]) simp_all
  qed (rule one)
qed

lemma not_digit [simp]: "\<not> is_digit CHR ''.''" "\<not> is_digit CHR ''/''" "\<not> is_digit CHR '':''"
  by (simp_all add: is_digit_def)

lemma dec_digits: "n < 1000 \<Longrightarrow> c \<in> set (dec n) \<Longrightarrow> is_digit c"
  by (erule digits_cases) (auto simp: dec_1 dec_2 dec_3)

lemma dtoi_dec: "n < 1000 \<Longrightarrow> dtoi (dec n) = Some (n, [])"
  by (erule digits_cases) (auto simp: dec_1 dec_2 dec_3 dtoi_def Let_def)

text \<open>One field of an IPv4 address.\<close>

lemma parse_field:
  assumes "n < 256" and "s = [] \<or> hd s = CHR ''.''"
  shows "parseIPv4Fields 0 0 flds (dec n @ s) = parseIPv4Fields n (length (dec n)) flds s"
proof -
  from assms(1) have "n < 1000"
    by simp
  then show ?thesis
    using assms(1) by (cases rule: digits_cases) (simp_all add: dec_1 dec_2 dec_3 Let_def)
qed

lemma dec_Nil [simp]: "dec n \<noteq> []"
  by (subst dec.simps) simp

lemma parse_string4:
  assumes "length ip = 4"
  shows "parseIPv4Fields 0 0 [] (string4 ip) = Some ip"
proof -
  from assms obtain a b c d where ip: "ip = [a, b, c, d]"
    by (auto simp: length_Suc_conv eval_nat_numeral)
  have u: "unat (x :: u8) < 256" for x
    using unsigned_less [of x] by simp
  show ?thesis
    by (simp add: ip string4_def parse_field [OF u] parse_field [OF u, of "[]", simplified])
qed

subsection \<open>IPv6\<close>

lemma hex_digit_value: "d < 16 \<Longrightarrow> hex_value (hex_digit d) = Some d"
  by (cases "d < 10") (simp_all add: hex_value_def hex_digit_def is_digit_def digit_value_def)

lemma is_hex_digit [simp]: "d < 16 \<Longrightarrow> is_hex (hex_digit d)"
  by (simp add: is_hex_def hex_digit_value)

lemma not_hex [simp]: "\<not> is_hex CHR '':''" "\<not> is_hex CHR ''.''" "\<not> is_hex CHR ''/''" "\<not> is_hex CHR ''%''"
  by (simp_all add: is_hex_def hex_value_def is_digit_def)

lemma hex_group_facts:
  assumes "x < 65536"
  shows "hex_number (hex_group x) = x" and "hex_group x \<noteq> []" and "length (hex_group x) \<le> 4"
    and "c \<in> set (hex_group x) \<Longrightarrow> is_hex c"
proof -
  let ?m = "x div 16" let ?k = "?m div 16"
  have m: "x = 16 * ?m + x mod 16" "?m = 16 * ?k + ?m mod 16" "?k = 16 * (?k div 16) + ?k mod 16"
    by simp_all
  have q: "x div 256 = ?k" "x div 4096 = ?k div 16"
    by (simp_all flip: div_mult2_eq)
  have big: "?k div 16 < 16" "x < 4096 \<Longrightarrow> ?k div 16 = 0" "x < 256 \<Longrightarrow> ?k = 0" "x < 16 \<Longrightarrow> ?m = 0"
    using assms by (simp_all flip: div_mult2_eq)
  have comp: "x = 16 * m' + a \<Longrightarrow> m' = 16 * k' + b \<Longrightarrow> k' = 16 * j + d \<Longrightarrow>
      x = 16 * (16 * (16 * j + d) + b) + a" for m' k' j a b d
    by simp
  note whole = comp [OF m, symmetric]
  consider "x < 16" | "16 \<le> x" "x < 256" | "256 \<le> x" "x < 4096" | "4096 \<le> x"
    by linarith
  then show "hex_number (hex_group x) = x"
  proof cases
    case 1
    then show ?thesis
      by (simp add: hex_group_def hex_number_def hex_digit_value)
  next
    case 2
    then have "?k div 16 = 0" "?k mod 16 = 0"
      using big(2,3) by simp_all
    with 2 whole show ?thesis
      by (simp add: hex_group_def hex_number_def hex_digit_value)
  next
    case 3
    with 3 whole big(2) show ?thesis
      by (simp add: hex_group_def hex_number_def hex_digit_value q)
  next
    case 4
    with whole big(1) show ?thesis
      by (simp add: hex_group_def hex_number_def hex_digit_value q)
  qed
  show "hex_group x \<noteq> []" "length (hex_group x) \<le> 4"
    by (simp_all add: hex_group_def)
  show "c \<in> set (hex_group x) \<Longrightarrow> is_hex c"
    using big(1) by (auto simp: hex_group_def q split: if_splits)
qed

definition group_bytes :: "nat \<Rightarrow> u8 list" where
  "group_bytes x = [of_nat (x div 256), of_nat (x mod 256)]"

lemma group_step:
  assumes "x < 65536" and "length ip < 16" and "s = [] \<or> hd s = CHR '':''"
  shows "v6_groups ip e (hex_group x @ s) =
    (case s of
       [] \<Rightarrow> Some (ip @ group_bytes x, e)
     | c # s1 \<Rightarrow> (case s1 of
           [] \<Rightarrow> None
         | c2 # s2 \<Rightarrow>
             if c2 \<noteq> CHR '':'' then v6_groups (ip @ group_bytes x) e s1
             else if e \<noteq> None then None
             else if s2 = [] then Some (ip @ group_bytes x, Some (length ip + 2))
             else v6_groups (ip @ group_bytes x) (Some (length ip + 2)) s2))"
proof -
  note hex = hex_group_facts [OF assms(1)]
  have tw: "takeWhile is_hex (hex_group x @ s) = hex_group x" "dropWhile is_hex (hex_group x @ s) = s"
    using hex(4) assms(3) by (cases s; simp)+
  show ?thesis
    using assms(2,3) hex(1-3)
    by (subst v6_groups.simps) (auto simp: tw group_bytes_def Let_def split: list.split)
qed

lemma join_Cons: "ss \<noteq> [] \<Longrightarrow> join sep (s # ss) = s @ sep @ join sep ss"
  by (cases ss) simp_all

lemma join_hex:
  assumes "\<forall>x \<in> set gs. x < 65536" and "gs \<noteq> []"
  obtains c s where "join '':'' (map hex_group gs) = c # s" "is_hex c"
proof -
  obtain x gs' where gs: "gs = x # gs'"
    using assms(2) by (cases gs) auto
  with assms(1) have x: "x < 65536"
    by simp
  obtain c s where "hex_group x = c # s"
    using hex_group_facts(2) [OF x] by (cases "hex_group x") auto
  moreover from this have "is_hex c"
    using hex_group_facts(4) [OF x, of c] by simp
  moreover have "join '':'' (map hex_group gs) =
      hex_group x @ (if gs' = [] then [] else '':'' @ join '':'' (map hex_group gs'))"
    by (simp add: gs join_Cons)
  ultimately show thesis
    by (intro that [of c]) auto
qed

lemma groups_to_end:
  assumes "gs \<noteq> []" and "\<forall>x \<in> set gs. x < 65536" and "length ip + 2 * length gs \<le> 16"
  shows "v6_groups ip e (join '':'' (map hex_group gs)) = Some (ip @ concat (map group_bytes gs), e)"
  using assms
proof (induction gs arbitrary: ip)
  case (Cons x gs)
  show ?case
  proof (cases "gs = []")
    case True
    with Cons.prems group_step [of x ip "[]" e] show ?thesis
      by simp
  next
    case False
    from Cons.prems False obtain c s where c: "join '':'' (map hex_group gs) = c # s" "is_hex c"
      by (auto elim: join_hex [of gs])
    then have "c \<noteq> CHR '':''"
      by auto
    with Cons.prems c False Cons.IH [of "ip @ group_bytes x"] show ?thesis
      by (auto simp: join_Cons group_step group_bytes_def)
  qed
qed simp

lemma groups_to_ellipsis:
  assumes "gs \<noteq> []" and "\<forall>x \<in> set gs. x < 65536" and "length ip + 2 * length gs < 16"
  shows "v6_groups ip None (join '':'' (map hex_group gs) @ ''::'' @ s) =
    (if s = [] then Some (ip @ concat (map group_bytes gs), Some (length ip + 2 * length gs))
     else v6_groups (ip @ concat (map group_bytes gs)) (Some (length ip + 2 * length gs)) s)"
  using assms
proof (induction gs arbitrary: ip)
  case (Cons x gs)
  show ?case
  proof (cases "gs = []")
    case True
    with Cons.prems group_step [of x ip "''::'' @ s" None] show ?thesis
      by simp
  next
    case False
    from Cons.prems False obtain c t where c: "join '':'' (map hex_group gs) = c # t" "is_hex c"
      by (auto elim: join_hex [of gs])
    then have "c \<noteq> CHR '':''"
      by auto
    with Cons.prems c False Cons.IH [of "ip @ group_bytes x"] show ?thesis
      by (auto simp: join_Cons group_step group_bytes_def)
  qed
qed simp

lemma v6u16s_facts:
  assumes "even (length ip)"
  shows "2 * length (v6u16s ip) = length ip" and "\<forall>x \<in> set (v6u16s ip). x < 65536"
    and "concat (map group_bytes (v6u16s ip)) = ip"
proof -
  have u: "unat (x :: u8) < 256" for x
    using unsigned_less [of x] by simp
  have w: "256 * unat a + unat b < 65536" for a b :: u8
    using u [of a] u [of b] by linarith
  have "2 * length (v6u16s ip) = length ip \<and> (\<forall>x \<in> set (v6u16s ip). x < 65536) \<and>
      concat (map group_bytes (v6u16s ip)) = ip"
    using assms
  proof (induction ip rule: v6u16s.induct)
    case (1 a b ip)
    then show ?case
      using w [of a b] u [of a] u [of b] by (simp add: group_bytes_def div_add1_eq)
  qed simp_all
  then show "2 * length (v6u16s ip) = length ip" "\<forall>x \<in> set (v6u16s ip). x < 65536"
    "concat (map group_bytes (v6u16s ip)) = ip"
    by blast+
qed

lemma zero_run_Some:
  assumes "zero_run gs = Some (i, l)"
  shows "2 \<le> l" and "i + l \<le> length gs" and "gs = take i gs @ replicate l 0 @ drop (i + l) gs"
proof -
  let ?run = "\<lambda>i. length (takeWhile (\<lambda>g. g = 0) (drop i gs))"
  have "fold (\<lambda>i best. let l = ?run i in if l \<ge> 2 \<and> l > (case best of None \<Rightarrow> 0 | Some (i', l') \<Rightarrow> l') then Some (i, l) else best)
      is best = Some (i, l) \<Longrightarrow> best = Some (i, l) \<or> (i \<in> set is \<and> 2 \<le> l \<and> l = ?run i)" for "is" best
    by (induction "is" arbitrary: best) (fastforce simp: Let_def split: if_splits)+
  from this [of "[0..<length gs]" None] assms have i: "i < length gs" and l: "2 \<le> l" "l = ?run i"
    by (auto simp: zero_run_def)
  have "l \<le> length (drop i gs)"
    unfolding l(2) by (rule length_takeWhile_le)
  with i l show "2 \<le> l" "i + l \<le> length gs"
    by simp_all
  have "takeWhile (\<lambda>g. g = 0) (drop i gs) = replicate l 0"
    unfolding l(2) by (rule replicate_eqI) (auto dest: set_takeWhileD)
  moreover have "dropWhile (\<lambda>g. g = 0) (drop i gs) = drop (i + l) gs"
    unfolding dropWhile_eq_drop l(2) by (simp add: add.commute)
  ultimately have "drop i gs = replicate l 0 @ drop (i + l) gs"
    by (metis takeWhile_dropWhile_id)
  then show "gs = take i gs @ replicate l 0 @ drop (i + l) gs"
    by (metis append_take_drop_id)
qed

definition v6_char :: "char \<Rightarrow> bool" where
  "v6_char c \<longleftrightarrow> is_hex c \<or> c = CHR '':''"

lemma join_chars:
  assumes "\<forall>x \<in> set gs. x < 65536" and "c \<in> set (join '':'' (map hex_group gs))"
  shows "v6_char c"
  using assms
proof (induction gs)
  case (Cons x gs)
  then show ?case
    using hex_group_facts(4) [of x c] by (cases gs) (auto simp: v6_char_def)
qed simp

lemma concat_zero_groups: "concat (replicate l (group_bytes 0)) = replicate (2 * l) 0"
  by (induction l) (simp_all add: group_bytes_def)

lemma parseIPv6_hex:
  assumes "takeWhile (\<lambda>c. c \<noteq> CHR ''%'') s = s" "dropWhile (\<lambda>c. c \<noteq> CHR ''%'') s = []"
    and "s = c # t" and "is_hex c" and "v6_groups [] None s = Some (ip, e)"
  shows "parseIPv6 s =
    (case e of
       None \<Rightarrow> if length ip < 16 then None else Some (Addr6 ip [])
     | Some e \<Rightarrow>
         if length ip < 16 then Some (Addr6 (take e ip @ replicate (16 - length ip) 0 @ drop e ip) []) else None)"
proof -
  have "s \<noteq> ''::''" "take 2 s \<noteq> ''::''"
    using assms(3,4) by auto
  with assms(5) show ?thesis
    unfolding parseIPv6_def Let_def assms(1,2) by (simp split: option.split)
qed

lemma v6_groups_facts:
  assumes "length ip = 16"
  shows "length (v6u16s ip) = 8" "\<forall>x \<in> set (v6u16s ip). x < 65536" "concat (map group_bytes (v6u16s ip)) = ip"
    and "\<forall>x \<in> set (take i (v6u16s ip)). x < 65536" "\<forall>x \<in> set (drop i (v6u16s ip)). x < 65536"
  using v6u16s_facts [of ip] assms by (auto dest: in_set_takeD in_set_dropD)

lemma string6_chars:
  assumes "length ip = 16"
  shows "\<forall>c \<in> set (string6 ip). v6_char c" and "CHR '':'' \<in> set (string6 ip)"
    and "takeWhile (\<lambda>c. c \<noteq> CHR ''%'') (string6 ip) = string6 ip" "dropWhile (\<lambda>c. c \<noteq> CHR ''%'') (string6 ip) = []"
proof -
  note gs = v6_groups_facts [OF assms]
  show chars: "\<forall>c \<in> set (string6 ip). v6_char c"
    using join_chars [OF gs(2)] join_chars [OF gs(4)] join_chars [OF gs(5)]
    by (auto simp: string6_def Let_def v6_char_def split: option.split)
  then show "takeWhile (\<lambda>c. c \<noteq> CHR ''%'') (string6 ip) = string6 ip" "dropWhile (\<lambda>c. c \<noteq> CHR ''%'') (string6 ip) = []"
    by (auto simp: v6_char_def)
  have "CHR '':'' \<in> set (join '':'' (x # y # ss))" for x y ss
    by simp
  moreover obtain x y hs where "map hex_group (v6u16s ip) = x # y # hs"
    using gs(1) by (cases "v6u16s ip"; cases "tl (v6u16s ip)") auto
  ultimately show "CHR '':'' \<in> set (string6 ip)"
    by (auto simp: string6_def Let_def simp del: join.simps split: option.split)
qed

text \<open>Without a run of zeros, all eight groups are written.\<close>

lemma parse_string6_plain:
  assumes "length ip = 16" and "zero_run (v6u16s ip) = None"
  shows "parseIPv6 (string6 ip) = Some (Addr6 ip [])"
proof -
  note gs = v6_groups_facts [OF assms(1)]
  have ne: "v6u16s ip \<noteq> []"
    using gs(1) by auto
  from join_hex [OF gs(2) ne] obtain c t where "join '':'' (map hex_group (v6u16s ip)) = c # t" "is_hex c" .
  then have c: "string6 ip = c # t" "is_hex c"
    using assms(2) by (simp_all add: string6_def)
  have "v6_groups [] None (string6 ip) = Some (ip, None)"
    using groups_to_end [OF ne gs(2), of "[]" None] gs(1,3) assms(2) by (auto simp: string6_def)
  from parseIPv6_hex [OF string6_chars(3,4) [OF assms(1)] c this] assms(1) show ?thesis
    by simp
qed

text \<open>With a run of \<open>l\<close> zeros from group \<open>i\<close>, the groups around it.\<close>

lemma string6_run:
  assumes "length ip = 16" and "zero_run (v6u16s ip) = Some (i, l)"
  obtains A B where "A = take i (v6u16s ip)" "B = drop (i + l) (v6u16s ip)"
    "string6 ip = join '':'' (map hex_group A) @ ''::'' @ join '':'' (map hex_group B)"
    "ip = concat (map group_bytes A) @ replicate (2 * l) 0 @ concat (map group_bytes B)"
    "length (concat (map group_bytes A)) = 2 * i" "length (concat (map group_bytes B)) = 2 * length B"
    "length A = i" "length B + i + l = 8" "0 < l"
proof -
  let ?A = "take i (v6u16s ip)" and ?B = "drop (i + l) (v6u16s ip)"
  note gs = v6_groups_facts [OF assms(1)] and run = zero_run_Some [OF assms(2)]
  have bytes: "length (concat (map group_bytes hs)) = 2 * length hs" for hs
    by (induction hs) (simp_all add: group_bytes_def)
  have s: "string6 ip = join '':'' (map hex_group ?A) @ ''::'' @ join '':'' (map hex_group ?B)"
    by (simp add: string6_def Let_def assms(2))
  have len: "length ?A = i" "length ?B + i + l = 8" "0 < l"
    using run(1,2) gs(1) by auto
  have "length (concat (map group_bytes ?A)) = 2 * i" "length (concat (map group_bytes ?B)) = 2 * length ?B"
    unfolding bytes len(1) by simp_all
  note lens = this
  have "ip = concat (map group_bytes (?A @ replicate l 0 @ ?B))"
    using run(3) gs(3) by simp
  then have ip: "ip = concat (map group_bytes ?A) @ replicate (2 * l) 0 @ concat (map group_bytes ?B)"
    by (simp add: concat_zero_groups)
  show thesis
    by (rule that [OF refl refl s ip lens len])
qed

lemma parse_string6_run:
  assumes "length ip = 16" and "zero_run (v6u16s ip) = Some (i, l)"
  shows "parseIPv6 (string6 ip) = Some (Addr6 ip [])"
proof -
  note gs = v6_groups_facts [OF assms(1)] and zone = string6_chars(3,4) [OF assms(1)]
  obtain A B where AB: "A = take i (v6u16s ip)" "B = drop (i + l) (v6u16s ip)"
    and s: "string6 ip = join '':'' (map hex_group A) @ ''::'' @ join '':'' (map hex_group B)"
    and ip: "ip = concat (map group_bytes A) @ replicate (2 * l) 0 @ concat (map group_bytes B)"
    and len: "length (concat (map group_bytes A)) = 2 * i" "length (concat (map group_bytes B)) = 2 * length B"
      "length A = i" "length B + i + l = 8" "0 < l"
    by (rule string6_run [OF assms])
  let ?a = "concat (map group_bytes A)" and ?b = "concat (map group_bytes B)"
  have room: "length ?a + 2 * length B \<le> 16"
    using len by linarith
  have B: "B = [] \<or> v6_groups ?a (Some (2 * i)) (join '':'' (map hex_group B)) = Some (?a @ ?b, Some (2 * i))"
    using groups_to_end [OF _ gs(5) room [unfolded AB(2)]] unfolding AB(2) by blast
  have B_Nil: "join '':'' (map hex_group B) = [] \<longleftrightarrow> B = []"
    using join_hex [OF gs(5), of "i + l"] unfolding AB(2) by (metis join.simps(1) list.distinct(1) list.simps(8))
  have fill: "16 - length (?a @ ?b) = 2 * l" "length (?a @ ?b) < 16" "take (2 * i) (?a @ ?b) = ?a"
    "drop (2 * i) (?a @ ?b) = ?b"
    using len by simp_all
  show ?thesis
  proof (cases "A = []")
    case True
    with ip s len fill B B_Nil show ?thesis
      unfolding parseIPv6_def Let_def zone by (cases "B = []") simp_all
  next
    case False
    note A = False [unfolded AB(1)]
    obtain c t where "join '':'' (map hex_group A) = c # t" "is_hex c"
      by (rule join_hex [OF gs(4) A, folded AB(1)])
    then have c: "string6 ip = c # (t @ ''::'' @ join '':'' (map hex_group B))" "is_hex c"
      by (simp_all add: s)
    have "v6_groups [] None (string6 ip) = Some (?a @ ?b, Some (2 * i))"
      using groups_to_ellipsis [OF A gs(4), folded AB(1), of "[]"] len B B_Nil by (auto simp: s)
    from parseIPv6_hex [OF zone c this] fill ip show ?thesis
      by simp
  qed
qed

lemma parse_string6:
  assumes "length ip = 16"
  shows "parseIPv6 (string6 ip) = Some (Addr6 ip [])"
    and "\<forall>c \<in> set (string6 ip). v6_char c" and "CHR '':'' \<in> set (string6 ip)"
proof -
  show "parseIPv6 (string6 ip) = Some (Addr6 ip [])"
    using parse_string6_plain [OF assms] parse_string6_run [OF assms] by (cases "zero_run (v6u16s ip)") auto
qed (rule string6_chars [OF assms])+

subsection \<open>Both\<close>

lemma find_colon:
  assumes "\<forall>c \<in> set s. v6_char c" and "CHR '':'' \<in> set s"
  shows "find (\<lambda>c. c = CHR ''.'' \<or> c = CHR '':'' \<or> c = CHR ''%'') s = Some CHR '':''"
  using assms by (induction s) (auto simp: v6_char_def)

lemma string4_chars:
  assumes "c \<in> set (string4 ip)"
  shows "is_digit c \<or> c = CHR ''.''"
proof -
  have "unat (x :: u8) < 256" for x
    using unsigned_less [of x] by simp
  then have u: "unat (x :: u8) < 1000" for x
    by (rule less_trans) simp
  have "c \<in> set (join ''.'' (map (\<lambda>b. dec (unat b)) ip)) \<Longrightarrow> ?thesis"
    by (induction ip rule: induct_list012) (auto dest: dec_digits [OF u])
  with assms show ?thesis
    by (simp add: string4_def)
qed

lemma find_dot:
  assumes "\<forall>c \<in> set s. is_digit c \<or> c = CHR ''.''" and "CHR ''.'' \<in> set s"
  shows "find (\<lambda>c. c = CHR ''.'' \<or> c = CHR '':'' \<or> c = CHR ''%'') s = Some CHR ''.''"
  using assms by (induction s) (auto simp: is_digit_def)

lemma ParseAddr_string4: "length ip = 4 \<Longrightarrow> ParseAddr (string4 ip) = Some (Addr4 ip)"
proof -
  assume len: "length ip = 4"
  then have "CHR ''.'' \<in> set (string4 ip)"
    by (auto simp: string4_def length_Suc_conv eval_nat_numeral)
  with len string4_chars find_dot [of "string4 ip"] show ?thesis
    by (auto simp: ParseAddr_def parse_string4)
qed

lemma ParseAddr_string6: "length ip = 16 \<Longrightarrow> ParseAddr (string6 ip) = Some (Addr6 ip [])"
  using find_colon [OF parse_string6(2,3)] by (simp add: ParseAddr_def parse_string6(1))

lemma cut_slash:
  assumes "CHR ''/'' \<notin> set s"
  shows "takeWhile (\<lambda>c. c \<noteq> CHR ''/'') (s @ CHR ''/'' # t) = s"
    and "dropWhile (\<lambda>c. c \<noteq> CHR ''/'') (s @ CHR ''/'' # t) = CHR ''/'' # t"
  using assms by (induction s) auto

text \<open>A prefix length below 1000 printed after an address is read back; whether it is accepted depends
  on how the address was printed.\<close>

lemma ParseCIDR_string4:
  assumes "length ip = 4" and "n < 1000"
  shows "ParseCIDR (string4 ip @ ''/'' @ dec n) =
    (if n \<le> 32 then Inr (v4InV6Prefix @ ip, \<lparr>net_IP = masked ip (CIDRMask n 4), net_Mask = CIDRMask n 4\<rparr>)
     else Inl (''invalid CIDR address: '' @ string4 ip @ ''/'' @ dec n))"
proof -
  have "CHR ''/'' \<notin> set (string4 ip)"
    using string4_chars [of "CHR ''/''" ip] by auto
  with assms show ?thesis
    by (simp add: ParseCIDR_def Let_def cut_slash ParseAddr_string4 dtoi_dec IP_Mask_4)
qed

lemma ParseCIDR_string6:
  assumes "length ip = 16" and "n \<le> 128"
  shows "ParseCIDR (string6 ip @ ''/'' @ dec n) =
    Inr (ip, \<lparr>net_IP = masked ip (CIDRMask n 16), net_Mask = CIDRMask n 16\<rparr>)"
proof -
  have "CHR ''/'' \<notin> set (string6 ip)"
    using parse_string6(2) [OF assms(1)] by (auto simp: v6_char_def)
  with assms show ?thesis
    by (simp add: ParseCIDR_def Let_def cut_slash ParseAddr_string6 dtoi_dec IP_Mask_16)
qed

definition IPv4_mapped :: "u8 list \<Rightarrow> bool" where
  "IPv4_mapped ip \<longleftrightarrow> length ip = 16 \<and> take 12 ip = v4InV6Prefix"

lemma IPString_cases:
  "length ip = 4 \<Longrightarrow> IPString ip = string4 ip"
  "length ip = 16 \<Longrightarrow> \<not> IPv4_mapped ip \<Longrightarrow> IPString ip = string6 ip"
  "IPv4_mapped ip \<Longrightarrow> IPString ip = string4 (drop 12 ip)"
  by (auto simp: IPString_def To4_def IPv4_mapped_def)

text \<open>Printing an address with a prefix length and parsing the result.\<close>

lemma ParseCIDR_IPString:
  assumes "length ip \<in> {4, 16}" and "n \<le> 8 * length ip"
  shows "\<not> IPv4_mapped ip \<Longrightarrow> ParseCIDR (IPString ip @ ''/'' @ dec n) =
      Inr (if length ip = 4 then v4InV6Prefix @ ip else ip,
           \<lparr>net_IP = masked ip (CIDRMask n (length ip)), net_Mask = CIDRMask n (length ip)\<rparr>)"
    and "IPv4_mapped ip \<Longrightarrow> 32 < n \<Longrightarrow>
      ParseCIDR (IPString ip @ ''/'' @ dec n) = Inl (''invalid CIDR address: '' @ IPString ip @ ''/'' @ dec n)"
proof -
  show "ParseCIDR (IPString ip @ ''/'' @ dec n) =
      Inr (if length ip = 4 then v4InV6Prefix @ ip else ip,
           \<lparr>net_IP = masked ip (CIDRMask n (length ip)), net_Mask = CIDRMask n (length ip)\<rparr>)"
    if "\<not> IPv4_mapped ip"
    using assms that by (auto simp: IPString_cases ParseCIDR_string4 [simplified] ParseCIDR_string6 [simplified])
  show "ParseCIDR (IPString ip @ ''/'' @ dec n) = Inl (''invalid CIDR address: '' @ IPString ip @ ''/'' @ dec n)"
    if "IPv4_mapped ip" "32 < n"
  proof -
    have "length (drop 12 ip) = 4" "n < 1000"
      using that assms(2) by (auto simp: IPv4_mapped_def)
    from ParseCIDR_string4 [OF this] that show ?thesis
      by (simp add: IPString_cases)
  qed
qed

end
