(* ===== verification/ApiValidation.thy ===== *)
theory ApiValidation
  imports FieldValidation GoNet
begin

text \<open>
  The validation of a DeviceNetwork, \<open>apis/v1alpha1/validation/validation.go\<close>, the
  conditions \<open>device_network_ok\<close> it checks, written without paths, loops or error lists, and
  \<open>documented_network\<close>, what the comments and markers of \<open>types.go\<close> ask of a DeviceNetwork.
  The two differ by \<open>unchecked_rules\<close>: what is documented and not checked.
\<close>

section \<open>The code\<close>

text \<open>The Go sets of names (\<open>sets.Set\<close>) are HOL sets, filled in the order of the loops.\<close>

definition listSelectorNames :: "DeviceSelector list \<Rightarrow> string set" where
  "listSelectorNames deviceSelectors =
     fold (\<lambda>deviceSelector. insert (ds_Name deviceSelector)) deviceSelectors {}"

definition listUsedSelectorNames :: "DeviceConfiguration list \<Rightarrow> string set" where
  "listUsedSelectorNames deviceConfigurations =
     fold (\<lambda>deviceConfiguration. fold insert (dc_DeviceSelectors deviceConfiguration))
       deviceConfigurations {}"

definition validateCELSelector :: "CELDeviceSelector \<Rightarrow> field_path \<Rightarrow> field_error list" where
  "validateCELSelector celSelector fldPath =
     (if length (Expression celSelector) > CELSelectorExpressionMaxLength
      then [TooLong (Child fldPath ''expression'') CELSelectorExpressionMaxLength]
      else [])"

definition validateSelector :: "Selector \<Rightarrow> field_path \<Rightarrow> field_error list" where
  "validateSelector selector fldPath =
     (case CEL selector of
        None \<Rightarrow> [Required (Child fldPath ''cel'') '''']
      | Some cel \<Rightarrow> validateCELSelector cel (Child fldPath ''cel''))"

definition validateDeviceSelector ::
  "validation_lib \<Rightarrow> DeviceSelector \<Rightarrow> field_path \<Rightarrow> string set \<Rightarrow> field_error list" where
  "validateDeviceSelector lib deviceSelector fldPath usedSelectors =
     (if ds_Name deviceSelector \<notin> usedSelectors
      then [Forbidden fldPath
              ''device selector must be referenced by at least one device configuration'']
      else []) @
     ValidateSlice lib (ds_Selectors deviceSelector) SelectorPerDeviceSelectorMaxSize
       validateSelector (Child fldPath ''selectors'') [] @
     (case ds_NodeSelector deviceSelector of
        None \<Rightarrow> []
      | Some nodeSelector \<Rightarrow>
          ValidateNodeSelector lib nodeSelector False (Child fldPath ''nodeSelector''))"

definition validateDeviceConfiguration ::
  "validation_lib \<Rightarrow> DeviceConfiguration \<Rightarrow> field_path \<Rightarrow> string set \<Rightarrow> field_error list" where
  "validateDeviceConfiguration lib deviceConfiguration fldPath selectors =
     (if length (dc_DeviceSelectors deviceConfiguration) = 0
      then [Required (Child fldPath ''deviceSelectors'')
              ''must reference at least one device selector'']
      else []) @
     ValidateSet lib (dc_DeviceSelectors deviceConfiguration) SelectorPerDeviceConfigurationMaxSize
       (\<lambda>name fldPath. if name \<notin> selectors then [NotFound fldPath name] else [])
       (\<lambda>name. name) (Child fldPath ''deviceSelectors'') [] @
     (let deviceType = GetDeviceType deviceConfiguration in
      if deviceType = DeviceTypeHostDevice
      then (if dc_Macvlan deviceConfiguration \<noteq> None
            then [Forbidden (Child fldPath ''macvlan'')
                    ''macvlan configuration is not allowed when deviceType is HostDevice'']
            else [])
      else if deviceType = DeviceTypeMacvlan
      then (if dc_HostDevice deviceConfiguration \<noteq> None
            then [Forbidden (Child fldPath ''hostDevice'')
                    ''hostDevice configuration is not allowed when deviceType is Macvlan'']
            else [])
      else [Invalid (Child fldPath ''deviceType'') (BadPointer (dc_DeviceType deviceConfiguration))
              ''unsupported device type''])"

definition validateDeviceNetworkSpec ::
  "validation_lib \<Rightarrow> DeviceNetworkSpec \<Rightarrow> field_path \<Rightarrow> field_error list" where
  "validateDeviceNetworkSpec lib deviceNetworkSpec fldPath =
     (let selectors = listSelectorNames (DeviceSelectors deviceNetworkSpec);
          usedSelectors = listUsedSelectorNames (DeviceConfigurations deviceNetworkSpec)
      in (if length (DeviceSelectors deviceNetworkSpec) = 0
          then [Forbidden (Child fldPath ''deviceSelectors'')
                  ''must have at least one device selector'']
          else []) @
         ValidateSet lib (DeviceSelectors deviceNetworkSpec) DeviceSelectorMaxSize
           (\<lambda>deviceSelector fldPath.
              validateDeviceSelector lib deviceSelector fldPath usedSelectors)
           ds_Name (Child fldPath ''deviceSelectors'') [] @
         (if length (DeviceConfigurations deviceNetworkSpec) = 0
          then [Forbidden (Child fldPath ''deviceConfigurations'')
                  ''must have at least one device configuration'']
          else []) @
         ValidateSet lib (DeviceConfigurations deviceNetworkSpec) DeviceConfigurationMaxSize
           (\<lambda>deviceConfiguration fldPath.
              validateDeviceConfiguration lib deviceConfiguration fldPath selectors)
           dc_Name (Child fldPath ''deviceConfigurations'') [])"

definition ValidateDeviceNetwork :: "validation_lib \<Rightarrow> DeviceNetwork \<Rightarrow> field_error list" where
  "ValidateDeviceNetwork lib deviceNetwork =
     validateDeviceNetworkSpec lib (Spec deviceNetwork) (NewPath ''spec'')"

section \<open>The specification\<close>

definition selector_ok :: "Selector \<Rightarrow> bool" where
  "selector_ok s \<longleftrightarrow> (\<exists>cel. CEL s = Some cel \<and> length (Expression cel) \<le> 10240)"

definition device_selector_ok :: "validation_lib \<Rightarrow> DeviceSelector \<Rightarrow> bool" where
  "device_selector_ok lib s \<longleftrightarrow>
     length (ds_Selectors s) \<le> 1 \<and> (\<forall>x \<in> set (ds_Selectors s). selector_ok x) \<and>
     (\<forall>n. ds_NodeSelector s = Some n \<longrightarrow> node_selector_ok lib n)"

definition device_configuration_ok :: "DeviceConfiguration \<Rightarrow> bool" where
  "device_configuration_ok c \<longleftrightarrow>
     1 \<le> length (dc_DeviceSelectors c) \<and> length (dc_DeviceSelectors c) \<le> 4 \<and>
     distinct (dc_DeviceSelectors c) \<and>
     (GetDeviceType c = DeviceTypeHostDevice \<and> dc_Macvlan c = None \<or>
      GetDeviceType c = DeviceTypeMacvlan \<and> dc_HostDevice c = None)"

text \<open>
  Between one and four selectors and configurations, each with names of their own; the
  configurations reference exactly the declared selectors; and each part is well-formed.
\<close>

definition device_network_ok :: "validation_lib \<Rightarrow> DeviceNetwork \<Rightarrow> bool" where
  "device_network_ok lib dn \<longleftrightarrow>
     (let sels = DeviceSelectors (Spec dn); cfgs = DeviceConfigurations (Spec dn) in
      1 \<le> length sels \<and> length sels \<le> 4 \<and> distinct (map ds_Name sels) \<and>
      1 \<le> length cfgs \<and> length cfgs \<le> 4 \<and> distinct (map dc_Name cfgs) \<and>
      (\<Union>c \<in> set cfgs. set (dc_DeviceSelectors c)) = ds_Name ` set sels \<and>
      (\<forall>s \<in> set sels. device_selector_ok lib s) \<and>
      (\<forall>c \<in> set cfgs. device_configuration_ok c))"

section \<open>The code decides the specification\<close>

lemma fold_insert_set: "fold insert xs A = set xs \<union> A"
  by (induction xs arbitrary: A) auto

lemma set_listSelectorNames: "listSelectorNames ss = ds_Name ` set ss"
proof -
  have "fold (\<lambda>s. insert (ds_Name s)) ss A = ds_Name ` set ss \<union> A" for A
    by (induction ss arbitrary: A) auto
  then show ?thesis
    by (simp add: listSelectorNames_def)
qed

lemma set_listUsedSelectorNames:
  "listUsedSelectorNames cs = (\<Union>c \<in> set cs. set (dc_DeviceSelectors c))"
proof -
  have "fold (\<lambda>c. fold insert (dc_DeviceSelectors c)) cs A =
      (\<Union>c \<in> set cs. set (dc_DeviceSelectors c)) \<union> A" for A
    by (induction cs arbitrary: A) (auto simp: fold_insert_set)
  then show ?thesis
    by (simp add: listUsedSelectorNames_def)
qed

lemma validateSelector_Nil_iff: "validateSelector s p = [] \<longleftrightarrow> selector_ok s"
  by (simp add: validateSelector_def validateCELSelector_def selector_ok_def
      CELSelectorExpressionMaxLength_def not_less split: option.split)

lemma validateDeviceSelector_Nil_iff:
  assumes "validation_lib_ok lib"
  shows "validateDeviceSelector lib s p used = [] \<longleftrightarrow>
    ds_Name s \<in> used \<and> device_selector_ok lib s"
proof -
  have "ValidateSlice lib (ds_Selectors s) SelectorPerDeviceSelectorMaxSize validateSelector q [] = []
      \<longleftrightarrow> length (ds_Selectors s) \<le> 1 \<and> (\<forall>x \<in> set (ds_Selectors s). selector_ok x)" for q
    by (simp add: ValidateSlice_Nil_iff [OF assms validateSelector_Nil_iff]
        SelectorPerDeviceSelectorMaxSize_def list_all_iff)
  then show ?thesis
    by (auto simp: validateDeviceSelector_def device_selector_ok_def
        ValidateNodeSelector_Nil_iff [OF assms] split: option.split)
qed

lemma validateDeviceConfiguration_Nil_iff:
  assumes "validation_lib_ok lib"
  shows "validateDeviceConfiguration lib c p sels = [] \<longleftrightarrow>
    set (dc_DeviceSelectors c) \<subseteq> sels \<and> device_configuration_ok c"
proof -
  have "ValidateSet lib (dc_DeviceSelectors c) SelectorPerDeviceConfigurationMaxSize
        (\<lambda>name fldPath. if name \<notin> sels then [NotFound fldPath name] else []) (\<lambda>name. name) q [] = []
      \<longleftrightarrow> length (dc_DeviceSelectors c) \<le> 4 \<and> set (dc_DeviceSelectors c) \<subseteq> sels \<and>
          distinct (dc_DeviceSelectors c)" for q
    by (subst ValidateSet_Nil_iff [OF assms, where ok = "\<lambda>n. n \<in> sels"])
      (auto simp: SelectorPerDeviceConfigurationMaxSize_def DeviceSelectorMaxSize_def list_all_iff)
  moreover have "(if length (dc_DeviceSelectors c) = 0
        then [Required (Child p ''deviceSelectors'') msg] else []) = [] \<longleftrightarrow>
      1 \<le> length (dc_DeviceSelectors c)" for msg
    by (simp add: Suc_le_eq)
  ultimately show ?thesis
    unfolding validateDeviceConfiguration_def append_is_Nil_conv device_configuration_ok_def
    by (auto simp: Let_def)
qed

lemma validateDeviceNetworkSpec_Nil_iff:
  assumes "validation_lib_ok lib"
  shows "validateDeviceNetworkSpec lib (Spec dn) p = [] \<longleftrightarrow> device_network_ok lib dn"
proof -
  let ?sels = "DeviceSelectors (Spec dn)" and ?cfgs = "DeviceConfigurations (Spec dn)"
  let ?used = "listUsedSelectorNames ?cfgs" and ?names = "listSelectorNames ?sels"
  have "ValidateSet lib ?sels DeviceSelectorMaxSize
        (\<lambda>s q. validateDeviceSelector lib s q ?used) ds_Name r [] = [] \<longleftrightarrow>
      length ?sels \<le> 4 \<and> (\<forall>s \<in> set ?sels. ds_Name s \<in> ?used \<and> device_selector_ok lib s) \<and>
      distinct (map ds_Name ?sels)" for r
    by (subst ValidateSet_Nil_iff [OF assms validateDeviceSelector_Nil_iff [OF assms]])
      (simp add: DeviceSelectorMaxSize_def list_all_iff)
  moreover have "ValidateSet lib ?cfgs DeviceConfigurationMaxSize
        (\<lambda>c q. validateDeviceConfiguration lib c q ?names) dc_Name r [] = [] \<longleftrightarrow>
      length ?cfgs \<le> 4 \<and>
      (\<forall>c \<in> set ?cfgs. set (dc_DeviceSelectors c) \<subseteq> ?names \<and> device_configuration_ok c) \<and>
      distinct (map dc_Name ?cfgs)" for r
    by (subst ValidateSet_Nil_iff [OF assms validateDeviceConfiguration_Nil_iff [OF assms]])
      (simp add: DeviceConfigurationMaxSize_def list_all_iff)
  ultimately show ?thesis
    unfolding validateDeviceNetworkSpec_def Let_def append_is_Nil_conv device_network_ok_def
      set_listSelectorNames set_listUsedSelectorNames
    by (auto simp: Suc_le_eq)
qed

section \<open>What is documented\<close>

text \<open>
  The rules of \<open>types.go\<close>, type by type. Whether an expression compiles and stays below the cost limit is
  for the CEL compiler of Kubernetes to say, which the validation does not call: the parameter
  \<open>accepts\<close>.
\<close>

definition documented_selector :: "(string \<Rightarrow> bool) \<Rightarrow> Selector \<Rightarrow> bool" where
  "documented_selector accepts s \<longleftrightarrow>
     (case CEL s of
        None \<Rightarrow> False
      | Some cel \<Rightarrow>
          Expression cel \<noteq> '''' \<and> length (Expression cel) \<le> 10 * 1024 \<and> accepts (Expression cel))"

definition documented_device_selector ::
  "(string \<Rightarrow> bool) \<Rightarrow> validation_lib \<Rightarrow> DeviceNetworkSpec \<Rightarrow> DeviceSelector \<Rightarrow> bool" where
  "documented_device_selector accepts lib spec s \<longleftrightarrow>
     ds_Name s \<noteq> '''' \<and>
     (\<exists>c \<in> set (DeviceConfigurations spec). ds_Name s \<in> set (dc_DeviceSelectors c)) \<and>
     length (ds_Selectors s) \<le> 1 \<and> list_all (documented_selector accepts) (ds_Selectors s) \<and>
     (case ds_NodeSelector s of None \<Rightarrow> True | Some n \<Rightarrow> node_selector_ok lib n)"

definition documented_macvlan :: "MacvlanConfig \<Rightarrow> bool" where
  "documented_macvlan m \<longleftrightarrow>
     Mode m \<in> {None, Some MacvlanModePrivate, Some MacvlanModeVepa, Some MacvlanModeBridge,
       Some MacvlanModePassthru, Some MacvlanModeSource}"

definition documented_configuration :: "DeviceNetworkSpec \<Rightarrow> DeviceConfiguration \<Rightarrow> bool" where
  "documented_configuration spec c \<longleftrightarrow>
     dc_Name c \<noteq> '''' \<and>
     dc_DeviceSelectors c \<noteq> [] \<and> length (dc_DeviceSelectors c) \<le> 4 \<and> distinct (dc_DeviceSelectors c) \<and>
     set (dc_DeviceSelectors c) \<subseteq> ds_Name ` set (DeviceSelectors spec) \<and>
     dc_DeviceType c \<in> {None, Some DeviceTypeHostDevice, Some DeviceTypeMacvlan} \<and>
     (dc_Macvlan c \<noteq> None \<longrightarrow> dc_DeviceType c = Some DeviceTypeMacvlan) \<and>
     (dc_HostDevice c \<noteq> None \<longrightarrow> dc_DeviceType c \<noteq> Some DeviceTypeMacvlan) \<and>
     (case dc_Macvlan c of None \<Rightarrow> True | Some m \<Rightarrow> documented_macvlan m)"

definition documented_ipam :: "IPAM option \<Rightarrow> bool" where
  "documented_ipam entry \<longleftrightarrow>
     (case entry of
        None \<Rightarrow> False
      | Some i \<Rightarrow>
          Provider i \<in> {'''', IPAMProviderDHCP, IPAMProviderRandom} \<and>
          (case Random i of
             None \<Rightarrow> True
           | Some x \<Rightarrow> Provider i = IPAMProviderRandom \<and> (\<exists>a net. ParseCIDR (CIDR x) = Inr (a, net))))"

definition documented_network :: "(string \<Rightarrow> bool) \<Rightarrow> validation_lib \<Rightarrow> DeviceNetwork \<Rightarrow> bool" where
  "documented_network accepts lib dn \<longleftrightarrow>
     (let spec = Spec dn in
      DeviceSelectors spec \<noteq> [] \<and> length (DeviceSelectors spec) \<le> 4 \<and>
      DeviceConfigurations spec \<noteq> [] \<and> length (DeviceConfigurations spec) \<le> 4 \<and>
      distinct (map ds_Name (DeviceSelectors spec)) \<and> distinct (map dc_Name (DeviceConfigurations spec)) \<and>
      list_all (documented_device_selector accepts lib spec) (DeviceSelectors spec) \<and>
      list_all (documented_configuration spec) (DeviceConfigurations spec) \<and>
      list_all documented_ipam (nic_IPAM (spec_NetworkInterfaceConfiguration spec)))"

text \<open>
  The documented rules that the validation does not check: the required names and expressions are not
  empty, an expression is accepted by the compiler, the mode of a macvlan configuration is one of the
  five, and everything that is said of the address management.
\<close>

definition unchecked_rules :: "(string \<Rightarrow> bool) \<Rightarrow> DeviceNetwork \<Rightarrow> bool" where
  "unchecked_rules accepts dn \<longleftrightarrow>
     (\<forall>s \<in> set (DeviceSelectors (Spec dn)). ds_Name s \<noteq> '''' \<and>
        (\<forall>x \<in> set (ds_Selectors s). \<forall>cel. CEL x = Some cel \<longrightarrow>
           Expression cel \<noteq> '''' \<and> accepts (Expression cel))) \<and>
     (\<forall>c \<in> set (DeviceConfigurations (Spec dn)). dc_Name c \<noteq> '''' \<and>
        (\<forall>m. dc_Macvlan c = Some m \<longrightarrow> documented_macvlan m)) \<and>
     (\<forall>entry \<in> set (nic_IPAM (spec_NetworkInterfaceConfiguration (Spec dn))). documented_ipam entry)"

lemma documented_selector_iff:
  "documented_selector accepts s \<longleftrightarrow> selector_ok s \<and>
     (\<forall>cel. CEL s = Some cel \<longrightarrow> Expression cel \<noteq> '''' \<and> accepts (Expression cel))"
  by (auto simp: documented_selector_def selector_ok_def split: option.split)

lemma documented_device_selector_iff:
  "documented_device_selector accepts lib spec s \<longleftrightarrow> device_selector_ok lib s \<and> ds_Name s \<noteq> '''' \<and>
     ds_Name s \<in> (\<Union>c \<in> set (DeviceConfigurations spec). set (dc_DeviceSelectors c)) \<and>
     (\<forall>x \<in> set (ds_Selectors s). \<forall>cel. CEL x = Some cel \<longrightarrow> Expression cel \<noteq> '''' \<and> accepts (Expression cel))"
  by (cases "ds_NodeSelector s")
    (auto simp: documented_device_selector_def device_selector_ok_def documented_selector_iff list_all_iff)

lemma documented_configuration_iff:
  "documented_configuration spec c \<longleftrightarrow> device_configuration_ok c \<and> dc_Name c \<noteq> '''' \<and>
     set (dc_DeviceSelectors c) \<subseteq> ds_Name ` set (DeviceSelectors spec) \<and>
     (\<forall>m. dc_Macvlan c = Some m \<longrightarrow> documented_macvlan m)"
proof -
  have types: "DeviceTypeHostDevice \<noteq> DeviceTypeMacvlan"
    by simp
  have "dc_DeviceType c \<in> {None, Some DeviceTypeHostDevice, Some DeviceTypeMacvlan} \<and>
      (dc_Macvlan c \<noteq> None \<longrightarrow> dc_DeviceType c = Some DeviceTypeMacvlan) \<and>
      (dc_HostDevice c \<noteq> None \<longrightarrow> dc_DeviceType c \<noteq> Some DeviceTypeMacvlan) \<longleftrightarrow>
      GetDeviceType c = DeviceTypeHostDevice \<and> dc_Macvlan c = None \<or>
      GetDeviceType c = DeviceTypeMacvlan \<and> dc_HostDevice c = None"
    using types by (cases "dc_DeviceType c") (auto simp: GetDeviceType_def)
  moreover have "(case dc_Macvlan c of None \<Rightarrow> True | Some m \<Rightarrow> documented_macvlan m) \<longleftrightarrow>
      (\<forall>m. dc_Macvlan c = Some m \<longrightarrow> documented_macvlan m)"
    by (auto split: option.split)
  moreover have "dc_DeviceSelectors c \<noteq> [] \<longleftrightarrow> 1 \<le> length (dc_DeviceSelectors c)"
    by (simp add: Suc_le_eq)
  ultimately show ?thesis
    unfolding documented_configuration_def device_configuration_ok_def by blast
qed

lemma documented_network_iff:
  "documented_network accepts lib dn \<longleftrightarrow> device_network_ok lib dn \<and> unchecked_rules accepts dn"
proof -
  let ?sels = "DeviceSelectors (Spec dn)" and ?cfgs = "DeviceConfigurations (Spec dn)"
  have sizes: "?sels \<noteq> [] \<longleftrightarrow> 1 \<le> length ?sels" "?cfgs \<noteq> [] \<longleftrightarrow> 1 \<le> length ?cfgs"
    by (simp_all add: Suc_le_eq)
  have refs: "(\<Union>c \<in> set ?cfgs. set (dc_DeviceSelectors c)) = ds_Name ` set ?sels \<longleftrightarrow>
      (\<forall>s \<in> set ?sels. ds_Name s \<in> (\<Union>c \<in> set ?cfgs. set (dc_DeviceSelectors c))) \<and>
      (\<forall>c \<in> set ?cfgs. set (dc_DeviceSelectors c) \<subseteq> ds_Name ` set ?sels)"
    by blast
  show ?thesis
    unfolding documented_network_def device_network_ok_def unchecked_rules_def Let_def list_all_iff
      documented_device_selector_iff documented_configuration_iff refs sizes
    by blast
qed

text \<open>
  C13: what the validation of a DeviceNetwork checks, against what the API documents. It reports nothing
  exactly when there are one to four selectors and configurations with names of their own, every
  reference to a selector is resolved and every selector referenced, the node selectors are valid, the
  CEL expressions have at most 10 Ki, and no configuration of another device type than the chosen one
  is given. A DeviceNetwork that follows the documentation is never refused; and one that is accepted
  follows it unless it breaks one of the documented rules that are not checked: names and expressions
  that are required, expressions that compile within the cost limit, the modes of a macvlan interface,
  and the rules of the address management.
\<close>

theorem ValidateDeviceNetwork_decides:
  assumes "validation_lib_ok lib"
  shows "(ValidateDeviceNetwork lib dn = [] \<longleftrightarrow> device_network_ok lib dn) \<and>
    (documented_network accepts lib dn \<longleftrightarrow> ValidateDeviceNetwork lib dn = [] \<and> unchecked_rules accepts dn)"
  unfolding ValidateDeviceNetwork_def
  by (simp only: validateDeviceNetworkSpec_Nil_iff [OF assms] documented_network_iff)

definition demo_validation_lib :: validation_lib where
  "demo_validation_lib =
     \<lparr>ValidateLabelName = (\<lambda>key p. if key = '''' then [Invalid p (BadString key) ''name part must be non-empty''] else []),
      IsValidLabelValue = (\<lambda>v. if length v \<le> 63 then [] else [''must be no more than 63 bytes'']),
      NameIsDNSSubdomain = (\<lambda>v prefix. if v = '''' then [''must consist of lower case characters''] else []),
      ObjectNameField = ''metadata.name'',
      ErrorList_WithOrigin = (\<lambda>es orig. map (\<lambda>e. WithOrigin e orig) es),
      ErrorList_MarkCoveredByDeclarative = map MarkCoveredByDeclarative\<rparr>"

lemma demo_validation_lib_ok: "validation_lib_ok demo_validation_lib"
  by (simp add: validation_lib_ok_def demo_validation_lib_def)

definition demo_configuration :: DeviceConfiguration where
  "demo_configuration = \<lparr>dc_Name = ''macvlan'', dc_DeviceSelectors = [''all''],
     dc_DeviceType = Some DeviceTypeMacvlan, dc_Macvlan = None, dc_HostDevice = None\<rparr>"

definition demo_network :: DeviceNetwork where
  "demo_network =
     \<lparr>dn_Name = ''blue'',
      Spec = \<lparr>DeviceSelectors = [\<lparr>ds_Name = ''all'', ds_Selectors = [], ds_NodeSelector = None\<rparr>],
              DeviceConfigurations = [demo_configuration],
              spec_NetworkInterfaceConfiguration = \<lparr>nic_IPAM = []\<rparr>\<rparr>\<rparr>"

lemma demo_network_ok: "device_network_ok demo_validation_lib demo_network"
  by (simp add: device_network_ok_def demo_network_def device_selector_ok_def demo_configuration_def
      device_configuration_ok_def GetDeviceType_def)

text \<open>With a second configuration that names an undeclared selector it is refused.\<close>

definition demo_broken_network :: DeviceNetwork where
  "demo_broken_network = demo_network\<lparr>Spec := (Spec demo_network)\<lparr>DeviceConfigurations :=
     [demo_configuration, demo_configuration\<lparr>dc_Name := ''other'', dc_DeviceSelectors := [''rdma'']\<rparr>]\<rparr>\<rparr>"

text \<open>Three networks that break a documented rule: an unknown macvlan mode, a random configuration for
  the provider DHCP, and a selector without a name.\<close>

definition demo_configured :: "DeviceConfiguration \<Rightarrow> IPAM option list \<Rightarrow> string \<Rightarrow> DeviceNetwork" where
  "demo_configured c ipams name = demo_network\<lparr>Spec :=
     \<lparr>DeviceSelectors = [\<lparr>ds_Name = name, ds_Selectors = [], ds_NodeSelector = None\<rparr>],
      DeviceConfigurations = [c\<lparr>dc_DeviceSelectors := [name]\<rparr>],
      spec_NetworkInterfaceConfiguration = \<lparr>nic_IPAM = ipams\<rparr>\<rparr>\<rparr>"

definition demo_undocumented :: "DeviceNetwork list" where
  "demo_undocumented =
     [demo_configured (demo_configuration\<lparr>dc_Macvlan := Some \<lparr>Mode = Some ''bridged''\<rparr>\<rparr>) [] ''all'',
      demo_configured demo_configuration [Some \<lparr>Provider = IPAMProviderDHCP, Random = Some \<lparr>CIDR = ''''\<rparr>\<rparr>] ''all'',
      demo_configured demo_configuration [] '''']"

lemma demo_undocumented_breaks:
  "\<forall>dn \<in> set demo_undocumented. device_network_ok demo_validation_lib dn \<and> \<not> unchecked_rules accepts dn"
  by (simp add: demo_undocumented_def demo_configured_def device_network_ok_def unchecked_rules_def
      demo_network_def demo_configuration_def device_selector_ok_def device_configuration_ok_def
      GetDeviceType_def documented_macvlan_def macvlan_mode_defs documented_ipam_def
      IPAMProviderDHCP_def IPAMProviderRandom_def)

lemma demo_network_documented: "documented_network (\<lambda>e. True) demo_validation_lib demo_network"
  by (simp add: documented_network_iff demo_network_ok)
    (simp add: unchecked_rules_def demo_network_def demo_configuration_def)

lemma ValidateDeviceNetwork_decides_witness:
  "ValidateDeviceNetwork demo_validation_lib demo_network = [] \<and>
   ValidateDeviceNetwork demo_validation_lib demo_broken_network \<noteq> [] \<and>
   list_all (\<lambda>dn. ValidateDeviceNetwork demo_validation_lib dn = [] \<and>
      \<not> documented_network (\<lambda>e. True) demo_validation_lib dn) demo_undocumented"
proof -
  note decides = ValidateDeviceNetwork_decides [OF demo_validation_lib_ok, of _ "\<lambda>e. True"]
  have "\<not> device_network_ok demo_validation_lib demo_broken_network"
    by (simp add: device_network_ok_def demo_broken_network_def demo_network_def demo_configuration_def)
  then show ?thesis
    using decides demo_undocumented_breaks [of "\<lambda>e. True"] demo_network_documented unfolding list_all_iff by blast
qed

end
