(* ===== verification/KubeTypes.thy ===== *)
theory KubeTypes
  imports Api
begin

text \<open>
  The Kubernetes objects the driver exchanges (\<open>k8s.io/api/resource/v1\<close>), as the data the
  repository's code reads and writes, the host device of \<open>pkg/host/types.go\<close> and the status
  data of \<open>pkg/status/types.go\<close>. A field the repository neither reads nor writes is left out.
  A quantity is the call that built it: \<open>resource.MustParse("1")\<close> is \<open>MustParse ''1''\<close>.
\<close>

section \<open>Exposed devices and resource slices\<close>

datatype Quantity = MustParse string

record Counter =
  counter_Value :: Quantity

record CapacityRequestPolicy =
  policy_Default :: "Quantity option"
  ValidValues :: "Quantity list"

record DeviceCapacity =
  capacity_Value :: Quantity
  RequestPolicy :: "CapacityRequestPolicy option"

record DeviceCounterConsumption =
  consumed_CounterSet :: string
  consumed_Counters :: "string \<rightharpoonup> Counter"

record DeviceAttribute =
  StringValue :: "string option"

record KubeDevice =
  dev_Name :: string
  Attributes :: "(string \<rightharpoonup> DeviceAttribute) option"
  Capacity :: "(string \<rightharpoonup> DeviceCapacity) option"
  ConsumesCounters :: "DeviceCounterConsumption list"
  AllowMultipleAllocations :: "bool option"

definition empty_KubeDevice :: KubeDevice where
  "empty_KubeDevice =
     \<lparr>dev_Name = '''', Attributes = None, Capacity = None, ConsumesCounters = [],
      AllowMultipleAllocations = None\<rparr>"

record KubeCounterSet =
  cs_Name :: string
  cs_Counters :: "string \<rightharpoonup> Counter"

record ResourceSlice =
  rs_Name :: string
  rs_Driver :: string
  rs_PoolName :: string
  rs_Devices :: "KubeDevice list"

section \<open>Resource claims\<close>

type_synonym uid = string

record NetworkDeviceData =
  nd_InterfaceName :: string
  IPs :: "string list"
  HardwareAddress :: string

definition empty_NetworkDeviceData :: NetworkDeviceData where
  "empty_NetworkDeviceData = \<lparr>nd_InterfaceName = '''', IPs = [], HardwareAddress = ''''\<rparr>"

record RawExtension =
  Raw :: "string option"

record Condition =
  cond_Type :: string
  cond_Status :: string
  cond_Reason :: string
  cond_Message :: string
  cond_LastTransitionTime :: nat

record AllocatedDeviceStatus =
  ads_Driver :: string
  ads_Pool :: string
  ads_Device :: string
  ads_ShareID :: "string option"
  ads_Data :: "RawExtension option"
  ads_NetworkData :: "NetworkDeviceData option"
  ads_Conditions :: "Condition list"

record DeviceRequestAllocationResult =
  rar_Request :: string
  rar_Driver :: string
  rar_Pool :: string
  rar_Device :: string
  rar_ShareID :: "uid option"

record ResourceClaim =
  rc_Name :: string
  rc_Namespace :: string
  rc_UID :: uid
  ReservedFor :: "uid list"
  Allocation :: "DeviceRequestAllocationResult list option"
  rc_Devices :: "AllocatedDeviceStatus list"

section \<open>Host devices: pkg/host/types.go\<close>

record DeviceSpec =
  InterfaceName :: string
  InterfaceIndex :: int
  RDMACapable :: bool
  ParentIndex :: int
  MasterIndex :: int
  LinkLayerType :: string
  hs_DeviceType :: string

record HostDevice =
  hd_Kind :: string
  hd_APIVersion :: string
  hd_Name :: string
  hd_Spec :: DeviceSpec

section \<open>Status data: pkg/status/types.go\<close>

record PodNetwork =
  pn_Kind :: string
  pn_Name :: string

text \<open>The embedded \<open>multinetworkv1alpha1.DeviceStatus\<close> contributes its \<open>PodNetwork\<close>.\<close>

record ResourceClaimDeviceStatusData =
  sd_PodNetwork :: "PodNetwork option"
  sd_DeviceConfiguration :: "DeviceConfiguration option"
  sd_Device :: "HostDevice option"

definition DeviceStatusConditionAllocation :: string where
  "DeviceStatusConditionAllocation = ''Allocation''"

definition DeviceStatusReasonAllocated :: string where
  "DeviceStatusReasonAllocated = ''Allocated''"

text \<open>
  \<open>encoding/json\<close> on the status data; encoding may fail, and the bytes are a string.
\<close>

record json_lib =
  Marshal :: "ResourceClaimDeviceStatusData \<Rightarrow> liberr + string"
  Unmarshal :: "string \<Rightarrow> liberr + ResourceClaimDeviceStatusData"

end
