(* ===== verification/Common.thy ===== *)
theory Common
  imports KubeTypes GoNet
begin

text \<open>
  The allocation every configurator shares: \<open>pkg/configurators/common.go\<close> (the random IP
  addresses of the test IPAM provider) and \<open>pkg/configurators/utils.go\<close> (random interface
  names).

  The masks, the parsing of a CIDR string and the printing of an address are those of the package
  \<open>net\<close>, in \<open>GoNet\<close>.
\<close>

section \<open>Random addresses: generateRandomIP\<close>

datatype common_error =
    AllocatedDeviceStatusNil
  | NetworkInterfaceConfigurationNil
  | RandomIPAMNil
  | RandomIPAMCIDREmpty
  | InvalidRandomIPAMCIDR liberr
  | NoUsableHostAddresses nat
  | FailedToGenerateRandomIP common_error

text \<open>
  One round of the outer loop: the address built from one byte of the generator per byte of
  the network address, and the flags \<open>allZero\<close> and \<open>allOne\<close>.
\<close>

fun random_attempt :: "u8 list \<Rightarrow> u8 list \<Rightarrow> rand \<Rightarrow> u8 list \<times> bool \<times> bool \<times> rand" where
  "random_attempt (b # ip) (m # msk) r =
     (let (x, r1) = draw r;
          hostBits = x AND NOT m;
          (ip', allZero, allOne, r2) = random_attempt ip msk r1
      in ((b OR hostBits) # ip', hostBits = 0 \<and> allZero, hostBits = NOT m \<and> allOne, r2))"
| "random_attempt ip msk r = ([], True, True, r)"

partial_function (option) random_ip_loop :: "u8 list \<Rightarrow> u8 list \<Rightarrow> rand \<Rightarrow> (u8 list \<times> rand) option"
  where
  "random_ip_loop ip msk r =
     (let a = random_attempt ip msk r;
          allZero = fst (snd a); allOne = fst (snd (snd a)); r' = snd (snd (snd a))
      in if \<not> allZero \<and> \<not> allOne then Some (fst a, r') else random_ip_loop ip msk r')"

definition generateRandomIP :: "IPNet \<Rightarrow> rand \<Rightarrow> (u8 list, common_error) res \<times> rand" where
  "generateRandomIP netIP r =
     (let (ones, bits) = mask_Size (net_Mask netIP) in
      if int bits - int ones < 2 then (Err (NoUsableHostAddresses ones), r)
      else if length (net_Mask netIP) < length (net_IP netIP) then (Panic, r)
      else (case random_ip_loop (net_IP netIP) (net_Mask netIP) r of
              None \<Rightarrow> (Diverge, r)
            | Some (ip, r') \<Rightarrow> (Ok ip, r')))"

subsection \<open>What a round draws\<close>

definition all_zero :: "u8 list \<Rightarrow> rand \<Rightarrow> bool" where
  "all_zero msk r \<longleftrightarrow> (\<forall>i < length msk. r i AND NOT (msk ! i) = 0)"

definition all_one :: "u8 list \<Rightarrow> rand \<Rightarrow> bool" where
  "all_one msk r \<longleftrightarrow> (\<forall>i < length msk. r i AND NOT (msk ! i) = NOT (msk ! i))"

definition usable_draw :: "u8 list \<Rightarrow> rand \<Rightarrow> bool" where
  "usable_draw msk r \<longleftrightarrow> \<not> all_zero msk r \<and> \<not> all_one msk r"

definition random_address :: "u8 list \<Rightarrow> u8 list \<Rightarrow> rand \<Rightarrow> u8 list" where
  "random_address ip msk r =
     map (\<lambda>i. ip ! i OR (r i AND NOT (msk ! i))) [0..<length ip]"

lemma all_zero_Cons:
  "all_zero (m # msk) r \<longleftrightarrow> r 0 AND NOT m = 0 \<and> all_zero msk (skip_draws 1 r)"
  by (auto simp: all_zero_def skip_draws_def less_Suc_eq_0_disj)

lemma all_one_Cons:
  "all_one (m # msk) r \<longleftrightarrow> r 0 AND NOT m = NOT m \<and> all_one msk (skip_draws 1 r)"
  by (auto simp: all_one_def skip_draws_def less_Suc_eq_0_disj)

lemma random_address_Cons:
  "random_address (b # ip) (m # msk) r =
     (b OR (r 0 AND NOT m)) # random_address ip msk (skip_draws 1 r)"
proof -
  have "[0..<length (b # ip)] = 0 # map Suc [0..<length ip]"
    by (simp add: upt_conv_Cons map_Suc_upt del: upt_Suc)
  then show ?thesis
    by (simp add: random_address_def skip_draws_def o_def)
qed

lemma random_attempt_eq:
  "length ip = length msk \<Longrightarrow>
   random_attempt ip msk r =
     (random_address ip msk r, all_zero msk r, all_one msk r, skip_draws (length ip) r)"
proof (induction ip msk arbitrary: r rule: list_induct2')
  case (4 b ip m msk)
  then show ?case
    by (simp add: Let_def case_prod_beta all_zero_Cons all_one_Cons random_address_Cons)
qed (simp_all add: random_address_def all_zero_def all_one_def)

lemma random_ip_loop_unfold:
  assumes "length ip = length msk"
  shows "random_ip_loop ip msk r =
    (if usable_draw msk r then Some (random_address ip msk r, skip_draws (length ip) r)
     else random_ip_loop ip msk (skip_draws (length ip) r))"
  by (subst random_ip_loop.simps) (simp add: random_attempt_eq [OF assms] usable_draw_def Let_def)

subsection \<open>When the loop ends\<close>

lemma random_ip_loop_returns:
  assumes "length ip = length msk" and "usable_draw msk (skip_draws (k * length ip) r)"
  shows "\<exists>j. usable_draw msk (skip_draws (j * length ip) r) \<and>
    random_ip_loop ip msk r =
      Some (random_address ip msk (skip_draws (j * length ip) r),
            skip_draws (Suc j * length ip) r)"
  using assms(2)
proof (induction k arbitrary: r)
  case 0
  then show ?case
    by (intro exI [of _ 0]) (simp add: random_ip_loop_unfold [OF assms(1)])
next
  case (Suc k)
  show ?case
  proof (cases "usable_draw msk r")
    case True
    then show ?thesis
      by (intro exI [of _ 0]) (simp add: random_ip_loop_unfold [OF assms(1)])
  next
    case False
    from Suc.prems have "usable_draw msk (skip_draws (k * length ip) (skip_draws (length ip) r))"
      by simp
    from Suc.IH [OF this] obtain j where
      "usable_draw msk (skip_draws (j * length ip) (skip_draws (length ip) r))"
      "random_ip_loop ip msk (skip_draws (length ip) r) =
         Some (random_address ip msk (skip_draws (j * length ip) (skip_draws (length ip) r)),
               skip_draws (Suc j * length ip) (skip_draws (length ip) r))"
      by blast
    with False show ?thesis
      by (intro exI [of _ "Suc j"]) (simp add: random_ip_loop_unfold [OF assms(1), of r])
  qed
qed

lemma random_ip_loop_result:
  assumes len: "length ip = length msk" and ret: "random_ip_loop ip msk r = Some (ip', r')"
  shows "\<exists>j. usable_draw msk (skip_draws (j * length ip) r) \<and>
    ip' = random_address ip msk (skip_draws (j * length ip) r) \<and>
    r' = skip_draws (Suc j * length ip) r"
proof -
  let ?P = "\<lambda>ip msk r res. length ip = length msk \<longrightarrow>
    (\<exists>j. usable_draw msk (skip_draws (j * length ip) r) \<and>
      fst res = random_address ip msk (skip_draws (j * length ip) r) \<and>
      snd res = skip_draws (Suc j * length ip) r)"
  have "?P ip msk r (ip', r')"
  proof (rule random_ip_loop.raw_induct [where P = ?P, OF _ ret])
    fix f ip msk r res
    assume IH: "\<And>ip msk r res. f ip msk r = Some res \<Longrightarrow> ?P ip msk r res"
      and eq: "(let a = random_attempt ip msk r; allZero = fst (snd a);
          allOne = fst (snd (snd a)); r' = snd (snd (snd a))
        in if \<not> allZero \<and> \<not> allOne then Some (fst a, r') else f ip msk r') = Some res"
    show "?P ip msk r res"
    proof
      assume len: "length ip = length msk"
      show "\<exists>j. usable_draw msk (skip_draws (j * length ip) r) \<and>
          fst res = random_address ip msk (skip_draws (j * length ip) r) \<and>
          snd res = skip_draws (Suc j * length ip) r"
      proof (cases "usable_draw msk r")
        case True
        with eq show ?thesis
          by (intro exI [of _ 0])
            (auto simp: random_attempt_eq [OF len] usable_draw_def Let_def)
      next
        case False
        with eq have "f ip msk (skip_draws (length ip) r) = Some res"
          by (auto simp: random_attempt_eq [OF len] usable_draw_def Let_def)
        from IH [OF this] len obtain j where
          "usable_draw msk (skip_draws (Suc j * length ip) r)"
          "fst res = random_address ip msk (skip_draws (Suc j * length ip) r)"
          "snd res = skip_draws (Suc (Suc j) * length ip) r"
          by (auto simp: add.commute)
        then show ?thesis
          by blast
      qed
    qed
  qed
  with len show ?thesis
    by simp
qed

subsection \<open>What the address is\<close>

definition in_subnet :: "IPNet \<Rightarrow> u8 list \<Rightarrow> bool" where
  "in_subnet net ip \<longleftrightarrow> length ip = length (net_IP net) \<and>
     (\<forall>i < length ip. ip ! i AND net_Mask net ! i = net_IP net ! i)"

definition broadcast_address :: "IPNet \<Rightarrow> u8 list" where
  "broadcast_address net =
     map (\<lambda>i. net_IP net ! i OR NOT (net_Mask net ! i)) [0..<length (net_IP net)]"

definition usable_address :: "IPNet \<Rightarrow> u8 list \<Rightarrow> bool" where
  "usable_address net ip \<longleftrightarrow>
     in_subnet net ip \<and> ip \<noteq> net_IP net \<and> ip \<noteq> broadcast_address net"

lemma masked_byte:
  fixes b m x :: u8
  assumes "b AND NOT m = 0"
  shows "(b OR (x AND NOT m)) AND m = b"
    and "b OR (x AND NOT m) = b \<longleftrightarrow> x AND NOT m = 0"
    and "b OR (x AND NOT m) = b OR NOT m \<longleftrightarrow> x AND NOT m = NOT m"
proof -
  have b: "bit m n" if "bit b n" for n
    using assms that bit_imp_le_length [OF that] by (auto simp: bit_eq_iff bit_simps)
  show "(b OR (x AND NOT m)) AND m = b"
    by (rule bit_word_eqI) (auto simp: bit_simps dest: b)
  show "b OR (x AND NOT m) = b \<longleftrightarrow> x AND NOT m = 0"
    by (auto simp: bit_eq_iff bit_simps dest: b)
  show "b OR (x AND NOT m) = b OR NOT m \<longleftrightarrow> x AND NOT m = NOT m"
    by (auto simp: bit_eq_iff bit_simps dest: b)
qed

lemma ip_net_okD:
  assumes "ip_net_ok net"
  shows "length (net_Mask net) = length (net_IP net)" and "0 < length (net_IP net)"
    and "i < length (net_IP net) \<Longrightarrow> net_IP net ! i AND NOT (net_Mask net ! i) = 0"
  using assms by (auto simp: ip_net_ok_def)

lemma map_upt_eq_iff: "length ys = n \<Longrightarrow> map f [0..<n] = ys \<longleftrightarrow> (\<forall>i < n. f i = ys ! i)"
  by (auto simp: list_eq_iff_nth_eq)

lemma random_address_usable:
  assumes ok: "ip_net_ok net" and use: "usable_draw (net_Mask net) r"
  shows "usable_address net (random_address (net_IP net) (net_Mask net) r)"
proof -
  let ?ip = "net_IP net" and ?m = "net_Mask net"
  note facts = ip_net_okD [OF ok]
  have sub: "in_subnet net (random_address ?ip ?m r)"
    by (simp add: in_subnet_def random_address_def masked_byte(1) [OF facts(3)])
  have "random_address ?ip ?m r = ?ip \<longleftrightarrow>
      (\<forall>i < length ?ip. ?ip ! i OR (r i AND NOT (?m ! i)) = ?ip ! i)"
    unfolding random_address_def by (rule map_upt_eq_iff) (rule refl)
  then have z: "random_address ?ip ?m r = ?ip \<longleftrightarrow> all_zero ?m r"
    unfolding all_zero_def facts(1) using masked_byte(2) [OF facts(3)] by blast
  have "random_address ?ip ?m r = broadcast_address net \<longleftrightarrow>
      (\<forall>i < length ?ip. ?ip ! i OR (r i AND NOT (?m ! i)) = ?ip ! i OR NOT (?m ! i))"
    unfolding random_address_def by (subst map_upt_eq_iff) (auto simp: broadcast_address_def)
  then have "random_address ?ip ?m r = broadcast_address net \<longleftrightarrow> all_one ?m r"
    unfolding all_one_def facts(1) using masked_byte(3) [OF facts(3)] by blast
  with sub z use show ?thesis
    by (simp add: usable_address_def usable_draw_def)
qed

lemma generateRandomIP_OkD:
  assumes ok: "ip_net_ok net" and ret: "fst (generateRandomIP net r) = Ok ip"
  shows "usable_address net ip"
proof -
  from ret obtain r' where "random_ip_loop (net_IP net) (net_Mask net) r = Some (ip, r')"
    by (auto simp: generateRandomIP_def Let_def split: prod.splits if_splits option.splits)
  from random_ip_loop_result [OF ip_net_okD(1) [OF ok, symmetric] this]
  show ?thesis
    using random_address_usable [OF ok] by blast
qed

text \<open>Every outcome on a parsed network: an error exactly on the three prefixes without two
  host bits, otherwise an address, unless no round ever draws usable host bits.\<close>

lemma generateRandomIP_outcome:
  assumes ok: "ip_net_ok net" and m: "net_Mask net = CIDRMask n k" and n: "n \<le> 8 * k"
  shows "8 * k < n + 2 \<Longrightarrow> generateRandomIP net r = (Err (NoUsableHostAddresses n), r)"
    and "n + 2 \<le> 8 * k \<Longrightarrow> usable_draw (net_Mask net) (skip_draws (j * k) r) \<Longrightarrow>
      is_ok (fst (generateRandomIP net r))"
    and "n + 2 \<le> 8 * k \<Longrightarrow> (\<And>j. \<not> usable_draw (net_Mask net) (skip_draws (j * k) r)) \<Longrightarrow>
      fst (generateRandomIP net r) = Diverge"
proof -
  from ip_net_okD(1) [OF ok] m have k: "length (net_IP net) = k"
    by simp
  have size: "mask_Size (net_Mask net) = (n, 8 * k)"
    using n by (simp add: m mask_Size_CIDRMask)
  show "8 * k < n + 2 \<Longrightarrow> generateRandomIP net r = (Err (NoUsableHostAddresses n), r)"
    by (simp add: generateRandomIP_def size)
  show "is_ok (fst (generateRandomIP net r))"
    if "n + 2 \<le> 8 * k" and "usable_draw (net_Mask net) (skip_draws (j * k) r)"
    using random_ip_loop_returns [of "net_IP net" "net_Mask net" j r] that k
    by (auto simp: generateRandomIP_def size ip_net_okD(1) [OF ok])
  show "fst (generateRandomIP net r) = Diverge"
    if le: "n + 2 \<le> 8 * k" and none: "\<And>j. \<not> usable_draw (net_Mask net) (skip_draws (j * k) r)"
  proof -
    have "random_ip_loop (net_IP net) (net_Mask net) r = None"
      using random_ip_loop_result [of "net_IP net" "net_Mask net" r] none k
      by (cases "random_ip_loop (net_IP net) (net_Mask net) r")
        (auto simp: ip_net_okD(1) [OF ok])
    with le k show ?thesis
      by (simp add: generateRandomIP_def size ip_net_okD(1) [OF ok])
  qed
qed

text \<open>Whatever was drawn so far, some bytes make the next round return.\<close>

lemma CIDRMask_last:
  "n + 2 \<le> 8 * k \<Longrightarrow> bit (NOT (CIDRMask n k ! (k - 1))) 0 \<and> bit (NOT (CIDRMask n k ! (k - 1))) 1"
proof (induction n k rule: CIDRMask.induct)
  case (2 n k)
  have low: "\<forall>n \<in> set [0..<7]. bit (drop_bit n (255 :: u8)) 0 \<and> bit (drop_bit n (255 :: u8)) 1"
    by code_simp
  show ?case
  proof (cases "n \<ge> 8 \<or> k \<noteq> 0")
    case True
    with 2 show ?thesis
      by (cases k) (auto simp: CIDRMask_0 bit_simps nth_Cons' split: if_splits)
  next
    case False
    with 2 low show ?thesis
      by (auto simp: bit_simps)
  qed
qed simp

lemma usable_draw_exists:
  assumes "n + 2 \<le> 8 * k"
  shows "usable_draw (CIDRMask n k) (\<lambda>i. if i = k - 1 then 1 else 0)"
proof -
  let ?m = "NOT (CIDRMask n k ! (k - 1))"
  from assms have k: "k - 1 < k"
    by simp
  from CIDRMask_last [OF assms] have "bit (1 AND ?m) 0" and "bit ?m 1" and "\<not> bit (1 AND ?m) 1"
    by (auto simp: bit_simps)
  then have "1 AND ?m \<noteq> 0" and "1 AND ?m \<noteq> ?m"
    by (metis bit_0_eq bot_apply bot_bool_def)+ 
  with k show ?thesis
    by (auto simp: usable_draw_def all_zero_def all_one_def intro!: exI [of _ "k - 1"])
qed

section \<open>CommonConfigurator\<close>

text \<open>
  The loop over \<open>networkInterfaceConfiguration.IPAM\<close>, a slice of pointers, on the copy
  \<open>allocatedDeviceStatusRes\<close>. A nil element and an append to the IPs of nil network data
  are nil dereferences.
\<close>

fun allocate_ipams ::
  "IPAM option list \<Rightarrow> AllocatedDeviceStatus \<Rightarrow> rand \<Rightarrow>
   (AllocatedDeviceStatus, common_error) res \<times> rand" where
  "allocate_ipams [] statusRes r = (Ok statusRes, r)"
| "allocate_ipams (None # rest) statusRes r = (Panic, r)"
| "allocate_ipams (Some ipam # rest) statusRes r =
     (if Provider ipam = IPAMProviderRandom
      then (case Random ipam of
              None \<Rightarrow> (Err RandomIPAMNil, r)
            | Some random \<Rightarrow>
                if CIDR random = '''' then (Err RandomIPAMCIDREmpty, r)
                else (case ParseCIDR (CIDR random) of
                        Inl e \<Rightarrow> (Err (InvalidRandomIPAMCIDR e), r)
                      | Inr (_, netIP) \<Rightarrow>
                          (case generateRandomIP netIP r of
                             (Err e, r') \<Rightarrow> (Err (FailedToGenerateRandomIP e), r')
                           | (Panic, r') \<Rightarrow> (Panic, r')
                           | (Diverge, r') \<Rightarrow> (Diverge, r')
                           | (Ok randomIP, r') \<Rightarrow>
                               (let (ones, _) = mask_Size (net_Mask netIP);
                                    ip = IPString randomIP @ ''/'' @ dec ones
                                in case ads_NetworkData statusRes of
                                     None \<Rightarrow> (Panic, r')
                                   | Some nd \<Rightarrow>
                                       allocate_ipams rest
                                         (statusRes\<lparr>ads_NetworkData :=
                                            Some (nd\<lparr>IPs := IPs nd @ [ip]\<rparr>)\<rparr>) r'))))
      else allocate_ipams rest statusRes r)"

text \<open>
  \<open>CommonConfigurator.Allocate\<close>. The second component of the result is the caller's object
  after the call: the method defaults the network data of its argument, after it has taken
  the copy that it goes on to fill.
\<close>

definition Common_Allocate ::
  "HostDevice option \<Rightarrow> NetworkInterfaceConfiguration option \<Rightarrow>
   AllocatedDeviceStatus option \<Rightarrow> rand \<Rightarrow>
   ((AllocatedDeviceStatus, common_error) res \<times> AllocatedDeviceStatus option) \<times> rand" where
  "Common_Allocate hostDevice networkInterfaceConfiguration allocatedDeviceStatus r =
     (case allocatedDeviceStatus of
        None \<Rightarrow> ((Err AllocatedDeviceStatusNil, None), r)
      | Some status \<Rightarrow>
          (let statusRes = status in
           case networkInterfaceConfiguration of
             None \<Rightarrow> ((Err NetworkInterfaceConfigurationNil, Some status), r)
           | Some config \<Rightarrow>
               (let nd = (case ads_NetworkData status of
                            None \<Rightarrow> empty_NetworkDeviceData
                          | Some nd \<Rightarrow> nd);
                    status' = status\<lparr>ads_NetworkData := Some nd\<rparr>
                in if length (IPs nd) > 0 then ((Ok statusRes, Some status'), r)
                   else (let (out, r') = allocate_ipams (nic_IPAM config) statusRes r
                         in ((out, Some status'), r')))))"

definition Common_Release ::
  "string \<Rightarrow> AllocatedDeviceStatus option \<Rightarrow> (AllocatedDeviceStatus option, common_error) res" where
  "Common_Release podNetworkNamespace allocatedDeviceStatus = Ok None"

subsection \<open>What the loop allocates\<close>

text \<open>The CIDRs of the Random entries, in order, and the addresses allocated for one.\<close>

definition random_cidrs :: "IPAM option list \<Rightarrow> string list" where
  "random_cidrs ipams =
     concat (map (\<lambda>i. case i of
         None \<Rightarrow> []
       | Some ipam \<Rightarrow> (if Provider ipam = IPAMProviderRandom
                        then (case Random ipam of None \<Rightarrow> [] | Some x \<Rightarrow> [CIDR x]) else [])) ipams)"

definition address_of_cidr :: "string \<Rightarrow> string \<Rightarrow> bool" where
  "address_of_cidr cidr s \<longleftrightarrow>
     (\<exists>a net ip. ParseCIDR cidr = Inr (a, net) \<and> usable_address net ip \<and>
        s = IPString ip @ ''/'' @ dec (fst (mask_Size (net_Mask net))))"

lemma random_cidrs_Cons:
  "random_cidrs (i # is) =
     (case i of None \<Rightarrow> []
      | Some ipam \<Rightarrow> (if Provider ipam = IPAMProviderRandom
                       then (case Random ipam of None \<Rightarrow> [] | Some x \<Rightarrow> [CIDR x]) else [])) @
     random_cidrs is"
  by (simp add: random_cidrs_def)

lemma random_cidrs_Nil [simp]: "random_cidrs [] = []"
  by (simp add: random_cidrs_def)

text \<open>An iteration that goes on skips its entry or appends one address.\<close>

lemma allocate_ipams_step:
  assumes nd: "ads_NetworkData st = Some nd"
    and ret: "allocate_ipams (Some ipam # ipams) st r = (Ok st', r')"
  obtains (skip) "Provider ipam \<noteq> IPAMProviderRandom" "allocate_ipams ipams st r = (Ok st', r')"
  | (alloc) x s r1 where "Provider ipam = IPAMProviderRandom" "Random ipam = Some x"
      "address_of_cidr (CIDR x) s"
      "allocate_ipams ipams (st\<lparr>ads_NetworkData := Some (nd\<lparr>IPs := IPs nd @ [s]\<rparr>)\<rparr>) r1 = (Ok st', r')"
proof (cases "Provider ipam = IPAMProviderRandom")
  case True
  with ret nd obtain x a net ip where
    x: "Random ipam = Some x" "ParseCIDR (CIDR x) = Inr (a, net)"
      "fst (generateRandomIP net r) = Ok ip" and
    go: "allocate_ipams ipams (st\<lparr>ads_NetworkData := Some (nd\<lparr>IPs := IPs nd @
        [IPString ip @ ''/'' @ dec (fst (mask_Size (net_Mask net)))]\<rparr>)\<rparr>) (snd (generateRandomIP net r)) = (Ok st', r')"
    by (auto simp: Let_def case_prod_beta split: option.splits if_splits sum.splits prod.splits
        res.splits)
  from generateRandomIP_OkD [OF ParseCIDR_ok [OF x(2)] x(3)] x(2)
  have "address_of_cidr (CIDR x) (IPString ip @ ''/'' @ dec (fst (mask_Size (net_Mask net))))"
    by (auto simp: address_of_cidr_def)
  from alloc [OF True x(1) this go] show thesis .
next
  case False
  with ret show thesis
    by (intro skip) auto
qed

lemma allocate_ipams_Ok:
  shows "allocate_ipams ipams st r = (Ok st', r') \<Longrightarrow> ads_NetworkData st = Some nd \<Longrightarrow>
    \<exists>new. list_all2 address_of_cidr (random_cidrs ipams) new \<and>
      st' = st\<lparr>ads_NetworkData := Some (nd\<lparr>IPs := IPs nd @ new\<rparr>)\<rparr>"
proof (induction ipams arbitrary: st nd r)
  case Nil
  then show ?case
    by (intro exI [of _ "[]"]) simp
next
  case (Cons i ipams)
  then obtain ipam where i: "i = Some ipam"
    by (cases i) auto
  from Cons.prems(2) Cons.prems(1) [unfolded i] show ?case
  proof (cases rule: allocate_ipams_step)
    case skip
    with Cons.IH [OF skip(2) Cons.prems(2)] i show ?thesis
      by (simp add: random_cidrs_Cons)
  next
    case (alloc x s r1)
    from Cons.IH [OF alloc(4), of "nd\<lparr>IPs := IPs nd @ [s]\<rparr>"] obtain new where
      "list_all2 address_of_cidr (random_cidrs ipams) new"
      "st' = st\<lparr>ads_NetworkData := Some (nd\<lparr>IPs := IPs nd @ s # new\<rparr>)\<rparr>"
      by auto
    with alloc i show ?thesis
      by (intro exI [of _ "s # new"]) (simp add: random_cidrs_Cons)
  qed
qed

section \<open>Interface names: utils.go\<close>

definition ifNameRandomLen :: nat where
  "ifNameRandomLen = 8"

text \<open>\<open>make([]byte, n)\<close> filled by one draw per byte.\<close>

definition random_bytes :: "nat \<Rightarrow> rand \<Rightarrow> u8 list \<times> rand" where
  "random_bytes n r = (map r [0..<n], skip_draws n r)"

definition randomName :: "rand \<Rightarrow> string \<times> rand" where
  "randomName r =
     (let (b, r') = random_bytes ifNameRandomLen r
      in (take ifNameRandomLen (hex_EncodeToString b), r'))"

lemma randomName_length: "length (fst (randomName r)) = 8"
  by (simp add: randomName_def random_bytes_def ifNameRandomLen_def)

lemma randomName_hex: "set (fst (randomName r)) \<subseteq> set hex_digits"
  using set_hex_EncodeToString set_take_subset
  by (fastforce simp: randomName_def random_bytes_def Let_def)

lemma hex_digit_inj: "a < 16 \<Longrightarrow> b < 16 \<Longrightarrow> hex_digit a = hex_digit b \<Longrightarrow> a = b"
proof -
  have "\<forall>a \<in> set [0..<16]. hex_digit a = hex_digits ! a" and d: "distinct hex_digits" and l: "length hex_digits = 16"
    by code_simp+
  then have "hex_digit a = hex_digits ! a" if "a < 16" for a
    using that by simp
  then show "a < 16 \<Longrightarrow> b < 16 \<Longrightarrow> hex_digit a = hex_digit b \<Longrightarrow> a = b"
    using nth_eq_iff_index_eq [OF d, of a b] by (simp add: l)
qed

lemma hex_byte_inj: "hex_byte a = hex_byte b \<Longrightarrow> a = b"
proof -
  assume eq: "hex_byte a = hex_byte b"
  have lt: "unat x < 256" for x :: u8
    using unsigned_less [of x] by simp
  from eq have "unat a div 16 = unat b div 16" and "unat a mod 16 = unat b mod 16"
    using lt [of a] lt [of b] by (auto simp: hex_byte_def intro!: hex_digit_inj)
  then have "unat a = unat b"
    by (metis div_mult_mod_eq)
  then show "a = b"
    by (rule unsigned_word_eqI)
qed

lemma randomName_first_four: "fst (randomName r) = hex_byte (r 0) @ hex_byte (r 1) @ hex_byte (r 2) @ hex_byte (r 3)"
proof -
  have "[0..<8] = [0, 1, 2, 3, 4, 5, 6, 7 :: nat]"
    by code_simp
  then show ?thesis
    by (simp add: randomName_def random_bytes_def ifNameRandomLen_def hex_EncodeToString_def hex_byte_def Let_def)
qed

text \<open>
  A random interface name is eight lower-case hexadecimal digits, short enough for the kernel,
  and two names are equal exactly when the first four of the eight bytes drawn are: a name
  carries 32 random bits.
\<close>

lemma randomName_shape:
  "length (fst (randomName r)) = 8 \<and> set (fst (randomName r)) \<subseteq> set ''0123456789abcdef'' \<and>
   (fst (randomName r) = fst (randomName r') \<longleftrightarrow> map r [0..<4] = map r' [0..<4])"
proof (intro conjI)
  show "length (fst (randomName r)) = 8"
    by (rule randomName_length)
  show "set (fst (randomName r)) \<subseteq> set ''0123456789abcdef''"
    using randomName_hex unfolding hex_digits_def .
  have len: "length (hex_byte b) = 2" for b
    by (simp add: hex_byte_def)
  have four: "[0..<4] = [0, 1, 2, 3 :: nat]"
    by code_simp
  show "fst (randomName r) = fst (randomName r') \<longleftrightarrow> map r [0..<4] = map r' [0..<4]"
    by (auto simp: randomName_first_four four append_eq_append_conv len dest: hex_byte_inj)
qed

section \<open>What the allocation does on each path\<close>

text \<open>Two networks.\<close>

definition net_24 :: IPNet where
  "net_24 = \<lparr>net_IP = [192, 168, 1, 0], net_Mask = CIDRMask 24 4\<rparr>"

definition net_31 :: IPNet where
  "net_31 = \<lparr>net_IP = [10, 0, 0, 2], net_Mask = CIDRMask 31 4\<rparr>"

lemma net_24_ok: "ip_net_ok net_24"
proof -
  have "net_IP net_24 = [192, 168, 1, 0]" "net_Mask net_24 = [255, 255, 255, 0]"
    by (simp_all add: net_24_def) code_simp
  moreover have "\<forall>i \<in> set [0..<4]. [192, 168, 1, 0 :: u8] ! i AND NOT ([255, 255, 255, 0] ! i) = 0"
    by code_simp
  ultimately show ?thesis
    by (auto simp: ip_net_ok_def net_24_def intro!: exI [of _ 24])
qed

lemma ParseCIDR_24: "ParseCIDR ''192.168.1.0/24'' = Inr (v4InV6Prefix @ [192, 168, 1, 0], net_24)"
proof -
  have "string4 [192, 168, 1, 0] = ''192.168.1.0''" "dec 24 = ''24''"
    by code_simp+
  moreover have "masked [192, 168, 1, 0] (CIDRMask 24 4) = [192, 168, 1, 0]"
    by code_simp
  ultimately show ?thesis
    using ParseCIDR_string4 [of "[192, 168, 1, 0]" 24] by (simp add: net_24_def)
qed

lemma ip_net_ok_prefix:
  assumes "ip_net_ok net"
  obtains n where "n \<le> 8 * length (net_IP net)" "net_Mask net = CIDRMask n (length (net_IP net))"
  using assms by (auto simp: ip_net_ok_def)

text \<open>
  C20: on a parsed network, an address that is returned lies in the network and is neither its
  network nor its broadcast address; an error is returned only for a prefix that leaves fewer
  than two host bits; nothing panics; and the loop runs forever only on a generator none of whose
  rounds draws usable host bits.
\<close>

theorem generateRandomIP_outcomes:
  assumes "ip_net_ok net"
  shows "case fst (generateRandomIP net r) of
      Ok ip \<Rightarrow> usable_address net ip
    | Err e \<Rightarrow> (\<exists>n. net_Mask net = CIDRMask n (length (net_IP net)) \<and>
                   8 * length (net_IP net) < n + 2 \<and> e = NoUsableHostAddresses n)
    | Panic \<Rightarrow> False
    | Diverge \<Rightarrow> (\<forall>j. \<not> usable_draw (net_Mask net) (skip_draws (j * length (net_IP net)) r))"
proof -
  let ?k = "length (net_IP net)"
  from assms obtain n where n: "n \<le> 8 * ?k" "net_Mask net = CIDRMask n ?k"
    by (rule ip_net_ok_prefix)
  note outcome = generateRandomIP_outcome [OF assms n(2,1)]
  show ?thesis
  proof (cases "8 * ?k < n + 2")
    case True
    with outcome(1) [of r] n show ?thesis
      by auto
  next
    case False
    then have le: "n + 2 \<le> 8 * ?k"
      by simp
    show ?thesis
    proof (cases "\<exists>j. usable_draw (net_Mask net) (skip_draws (j * ?k) r)")
      case True
      with outcome(2) [OF le] have "is_ok (fst (generateRandomIP net r))"
        by blast
      with generateRandomIP_OkD [OF assms] show ?thesis
        by (cases "fst (generateRandomIP net r)") auto
    next
      case none: False
      with outcome(3) [OF le, of r] show ?thesis
        by auto
    qed
  qed
qed

lemma draws_192_168: "fst (generateRandomIP net_24 (\<lambda>n. of_nat n)) = Ok [192, 168, 1, 3]"
proof -
  have m: "net_IP net_24 = [192, 168, 1, 0]" "net_Mask net_24 = [255, 255, 255, 0]"
    by (simp_all add: net_24_def) code_simp
  have "\<not> all_zero [255, 255, 255, 0] (\<lambda>n. of_nat n)" "\<not> all_one [255, 255, 255, 0] (\<lambda>n. of_nat n)"
    by (auto simp: all_zero_def all_one_def intro!: exI [of _ 3])
  moreover have "random_address [192, 168, 1, 0] [255, 255, 255, 0] (\<lambda>n. of_nat n) = [192, 168, 1, 3]"
    by (simp add: random_address_def upt_rec)
  ultimately have "random_ip_loop (net_IP net_24) (net_Mask net_24) (\<lambda>n. of_nat n) =
      Some ([192, 168, 1, 3], skip_draws 4 (\<lambda>n. of_nat n))"
    unfolding m by (subst random_ip_loop_unfold) (simp_all add: usable_draw_def eval_nat_numeral)
  moreover have "mask_Size (net_Mask net_24) = (24, 32)" and "length (net_IP net_24) = length (net_Mask net_24)"
    by (simp_all add: net_24_def mask_Size_CIDRMask)
  ultimately show ?thesis
    by (simp add: generateRandomIP_def)
qed

lemma generateRandomIP_outcomes_witness:
  "usable_address net_24 [192, 168, 1, 3] \<and>
   (\<exists>n. fst (generateRandomIP net_31 (\<lambda>i. 0)) = Err (NoUsableHostAddresses n))"
proof -
  have "usable_address net_24 [192, 168, 1, 3]"
    using generateRandomIP_outcomes [OF net_24_ok, of "\<lambda>n. of_nat n"] draws_192_168 by simp
  moreover have "fst (generateRandomIP net_31 (\<lambda>i. 0)) = Err (NoUsableHostAddresses 31)"
    by (simp add: generateRandomIP_def net_31_def mask_Size_CIDRMask)
  ultimately show ?thesis
    by blast
qed

text \<open>
  C39: with two host bits the loop can always still end: whatever was drawn in the first rounds,
  some continuation of the generator makes the call return. A generator stuck at zero does not,
  so ending is a matter of the bytes drawn and of nothing else.
\<close>

theorem generateRandomIP_can_return:
  assumes "ip_net_ok net" and "net_Mask net = CIDRMask n k" and "n + 2 \<le> 8 * k"
  shows "(\<exists>r'. (\<forall>i < j * k. r' i = r i) \<and> is_ok (fst (generateRandomIP net r'))) \<and>
    fst (generateRandomIP net (\<lambda>i. 0)) = Diverge"
proof
  let ?goal = "\<exists>r'. (\<forall>i < j * k. r' i = r i) \<and> is_ok (fst (generateRandomIP net r'))"
  from assms(3) have n: "n \<le> 8 * k"
    by simp
  let ?r = "\<lambda>i. if i < j * k then r i else (if i - j * k = k - 1 then 1 else 0)"
  have "skip_draws (j * k) ?r = (\<lambda>i. if i = k - 1 then 1 else 0)"
    by (auto simp: skip_draws_def)
  with usable_draw_exists [OF assms(3)] assms(2)
  have "usable_draw (net_Mask net) (skip_draws (j * k) ?r)"
    by (simp only:)
  from generateRandomIP_outcome(2) [OF assms(1,2) n assms(3) this]
  show ?goal
    by (intro exI [of _ ?r]) simp
  have "\<not> usable_draw (net_Mask net) (skip_draws i (\<lambda>i. 0))" for i
    by (simp add: usable_draw_def all_zero_def skip_draws_def)
  with generateRandomIP_outcome(3) [OF assms(1,2) n assms(3)]
  show "fst (generateRandomIP net (\<lambda>i. 0)) = Diverge"
    by blast
qed

lemma generateRandomIP_can_return_witness:
  "\<exists>r'. (\<forall>i < 8. r' i = 0) \<and> is_ok (fst (generateRandomIP net_24 r'))"
  using generateRandomIP_can_return [OF net_24_ok, of 24 4 2 "\<lambda>i. 0"] by (simp add: net_24_def)

text \<open>
  An allocation that starts without addresses and succeeds has added one usable address with
  the prefix length of its network for every entry of the Random provider, in the order of the
  entries, and has written nothing else; entries of another provider add nothing.
\<close>

lemma Common_Allocate_one_address_per_entry:
  assumes "ads_NetworkData st = Some nd" and "IPs nd = []"
    and "fst (Common_Allocate host (Some nic) (Some st) r) = (Ok st', arg)"
  shows "\<exists>ips. list_all2 address_of_cidr (random_cidrs (nic_IPAM nic)) ips \<and>
    st' = st\<lparr>ads_NetworkData := Some (nd\<lparr>IPs := ips\<rparr>)\<rparr>"
proof -
  from assms obtain r' where "allocate_ipams (nic_IPAM nic) st r = (Ok st', r')"
    by (auto simp: Common_Allocate_def Let_def split: prod.splits)
  from allocate_ipams_Ok [OF this assms(1)] assms(2) show ?thesis
    by simp
qed

definition random_entry :: "string \<Rightarrow> IPAM option" where
  "random_entry cidr = Some \<lparr>Provider = IPAMProviderRandom, Random = Some \<lparr>CIDR = cidr\<rparr>\<rparr>"

definition demo_nic :: NetworkInterfaceConfiguration where
  "demo_nic = \<lparr>nic_IPAM =
     [Some \<lparr>Provider = IPAMProviderDHCP, Random = None\<rparr>, random_entry ''192.168.1.0/24'']\<rparr>"

definition demo_status :: AllocatedDeviceStatus where
  "demo_status =
     \<lparr>ads_Driver = ''devicenetwork.io'', ads_Pool = ''node-a'', ads_Device = ''blue-hostdev-eth0'',
      ads_ShareID = None, ads_Data = None, ads_NetworkData = Some empty_NetworkDeviceData,
      ads_Conditions = []\<rparr>"

lemma demo_allocate_24:
  "fst (Common_Allocate None (Some demo_nic) (Some demo_status) (\<lambda>n. of_nat n)) =
     (Ok (demo_status\<lparr>ads_NetworkData := Some (empty_NetworkDeviceData\<lparr>IPs :=
        [IPString [192, 168, 1, 3] @ ''/24'']\<rparr>)\<rparr>), Some demo_status)"
proof -
  obtain r' where g: "generateRandomIP net_24 (\<lambda>n. of_nat n) = (Ok [192, 168, 1, 3], r')"
    using draws_192_168 by (cases "generateRandomIP net_24 (\<lambda>n. of_nat n)") auto
  have s: "mask_Size (net_Mask net_24) = (24, 32)" and d: "dec 24 = ''24''"
    by (simp add: net_24_def mask_Size_CIDRMask) code_simp
  show ?thesis
    by (simp add: Common_Allocate_def demo_nic_def demo_status_def empty_NetworkDeviceData_def
        random_entry_def IPAMProviderDHCP_def IPAMProviderRandom_def ParseCIDR_24 g s d)
qed

lemma Common_Allocate_one_address_per_entry_witness:
  "\<exists>ips. list_all2 address_of_cidr [''192.168.1.0/24''] ips \<and>
     fst (Common_Allocate None (Some demo_nic) (Some demo_status) (\<lambda>n. of_nat n)) =
       (Ok (demo_status\<lparr>ads_NetworkData := Some (empty_NetworkDeviceData\<lparr>IPs := ips\<rparr>)\<rparr>), Some demo_status)"
proof -
  have nd: "ads_NetworkData demo_status = Some empty_NetworkDeviceData" "IPs empty_NetworkDeviceData = []"
    by (simp_all add: demo_status_def empty_NetworkDeviceData_def)
  have c: "random_cidrs (nic_IPAM demo_nic) = [''192.168.1.0/24'']"
    by (simp add: demo_nic_def random_cidrs_def random_entry_def IPAMProviderDHCP_def IPAMProviderRandom_def)
  from Common_Allocate_one_address_per_entry [OF nd demo_allocate_24] c
  show ?thesis
    using demo_allocate_24 by auto
qed

text \<open>
  Called with a status that has no network data, \<open>Allocate\<close> cannot allocate: the copy it fills
  was taken before the network data of the argument was defaulted, so the first address that
  would be appended is a nil dereference.
\<close>

lemma Common_Allocate_panics_without_network_data:
  assumes "ads_NetworkData st = None" and "Provider ipam = IPAMProviderRandom"
    and "Random ipam = Some x" and "CIDR x \<noteq> []" and "ParseCIDR (CIDR x) = Inr (a, net)"
    and "is_ok (fst (generateRandomIP net r))"
  shows "fst (fst (Common_Allocate host (Some \<lparr>nic_IPAM = Some ipam # rest\<rparr>) (Some st) r)) = Panic"
  using assms
  by (cases "generateRandomIP net r")
    (auto simp: is_ok_iff Common_Allocate_def Let_def empty_NetworkDeviceData_def split: prod.splits)

lemma Common_Allocate_panics_without_network_data_witness:
  "fst (fst (Common_Allocate None (Some \<lparr>nic_IPAM = [random_entry ''192.168.1.0/24'']\<rparr>)
     (Some (demo_status\<lparr>ads_NetworkData := None\<rparr>)) (\<lambda>n. of_nat n))) = Panic"
  unfolding random_entry_def
  by (rule Common_Allocate_panics_without_network_data [where a = "v4InV6Prefix @ [192, 168, 1, 0]" and net = net_24
        and x = "\<lparr>CIDR = ''192.168.1.0/24''\<rparr>"])
    (simp_all add: ParseCIDR_24 draws_192_168)

end
