(* ===== verification/Addresses.thy ===== *)
theory Addresses
  imports Common
begin

text \<open>
  Whether the addresses that an allocation writes can be read back: \<open>common.go\<close> prints an address with
  \<open>IP.String\<close> and writes the prefix length of its network after it. Whoever reads the status (the API
  server's validation, the pod) parses the text as a CIDR.
\<close>

definition to_16 :: "u8 list \<Rightarrow> u8 list" where
  "to_16 ip = (if length ip = 4 then v4InV6Prefix @ ip else ip)"

lemma in_subnet_masked:
  assumes "in_subnet net ip" and "length (net_Mask net) = length (net_IP net)"
  shows "masked ip (net_Mask net) = net_IP net"
  using assms by (auto simp: in_subnet_def masked_def list_eq_iff_nth_eq)

text \<open>
  What parsing gives for an address printed with the prefix length of its network. An IPv4-mapped IPv6
  address is printed as an IPv4 address, so it comes back with an IPv4 network, or not at all when the
  prefix is too long for one.
\<close>

definition parsed_back :: "IPNet \<Rightarrow> u8 list \<Rightarrow> string \<Rightarrow> string + u8 list \<times> IPNet" where
  "parsed_back net ip s =
     (let ones = fst (mask_Size (net_Mask net)) in
      if \<not> IPv4_mapped ip then Inr (to_16 ip, net)
      else if ones \<le> 32
      then Inr (ip, \<lparr>net_IP = masked (drop 12 ip) (CIDRMask ones 4), net_Mask = CIDRMask ones 4\<rparr>)
      else Inl (''invalid CIDR address: '' @ s))"

lemma mapped_IPString: "IPv4_mapped ip \<Longrightarrow> IPString (drop 12 ip) = IPString ip"
  by (auto simp: IPString_def To4_def IPv4_mapped_def)

lemma mapped_drop: "IPv4_mapped ip \<Longrightarrow> v4InV6Prefix @ drop 12 ip = ip"
  by (metis IPv4_mapped_def append_take_drop_id)

lemma usable_address_read_back:
  assumes "ip_net_ok net" and "usable_address net ip"
  defines "s \<equiv> IPString ip @ ''/'' @ dec (fst (mask_Size (net_Mask net)))"
  shows "ParseCIDR s = parsed_back net ip s"
proof -
  from assms(2) have sub: "in_subnet net ip"
    by (simp add: usable_address_def)
  then have len: "length ip = length (net_IP net)"
    by (simp add: in_subnet_def)
  from assms(1) obtain n where n: "n \<le> 8 * length ip" "net_Mask net = CIDRMask n (length ip)"
    unfolding len by (rule ip_net_ok_prefix)
  have size: "fst (mask_Size (net_Mask net)) = n"
    by (simp add: n mask_Size_CIDRMask)
  have ip: "length ip \<in> {4, 16}"
    using assms(1) by (simp add: ip_net_ok_def len)
  have net: "\<lparr>net_IP = masked ip (CIDRMask n (length ip)), net_Mask = CIDRMask n (length ip)\<rparr> = net"
    using in_subnet_masked [OF sub] ip_net_okD(1) [OF assms(1)] by (simp add: n(2))
  note parse = ParseCIDR_IPString [OF ip n(1)]
  consider "\<not> IPv4_mapped ip" | "IPv4_mapped ip" "32 < n" | "IPv4_mapped ip" "n \<le> 32"
    by linarith
  then show ?thesis
  proof cases
    case 1
    then show ?thesis
      unfolding s_def size by (subst parse(1)) (auto simp: net parsed_back_def Let_def to_16_def)
  next
    case 2
    with parse(2) show ?thesis
      unfolding s_def size by (simp add: parsed_back_def Let_def size)
  next
    case 3
    then have four: "length (drop 12 ip) = 4" "\<not> IPv4_mapped (drop 12 ip)"
      by (auto simp: IPv4_mapped_def)
    then have "ParseCIDR (IPString (drop 12 ip) @ ''/'' @ dec n) =
        Inr (v4InV6Prefix @ drop 12 ip, \<lparr>net_IP = masked (drop 12 ip) (CIDRMask n 4), net_Mask = CIDRMask n 4\<rparr>)"
      using ParseCIDR_IPString(1) [of "drop 12 ip" n] 3(2) by simp
    with 3 show ?thesis
      unfolding s_def size by (simp add: parsed_back_def Let_def size mapped_IPString mapped_drop)
  qed
qed

lemma mapped_address_refused:
  assumes "ip_net_ok net" and "usable_address net ip" and "IPv4_mapped ip" and "32 < fst (mask_Size (net_Mask net))"
  shows "\<exists>e. ParseCIDR (IPString ip @ ''/'' @ dec (fst (mask_Size (net_Mask net)))) = Inl e"
  using usable_address_read_back [OF assms(1,2)] assms(3,4) by (auto simp: parsed_back_def Let_def)

text \<open>The addresses that \<open>generateRandomIP\<close> draws for the entries, one after the other.\<close>

fun drawn_addresses :: "string list \<Rightarrow> rand \<Rightarrow> u8 list list" where
  "drawn_addresses [] r = []"
| "drawn_addresses (cidr # cidrs) r =
     (case ParseCIDR cidr of
        Inl _ \<Rightarrow> []
      | Inr (_, net) \<Rightarrow>
          (case generateRandomIP net r of
             (Ok ip, r') \<Rightarrow> ip # drawn_addresses cidrs r'
           | _ \<Rightarrow> []))"

text \<open>What is written for an entry whose network is \<open>cidr\<close> when \<open>ip\<close> was drawn.\<close>

definition written_for :: "string \<times> u8 list \<Rightarrow> string \<Rightarrow> bool" where
  "written_for p s \<longleftrightarrow>
     (\<exists>a net. ParseCIDR (fst p) = Inr (a, net) \<and> usable_address net (snd p) \<and>
        s = IPString (snd p) @ ''/'' @ dec (fst (mask_Size (net_Mask net))) \<and>
        ParseCIDR s = parsed_back net (snd p) s)"

lemma allocate_ipams_drawn:
  "allocate_ipams ipams st r = (Ok st', r') \<Longrightarrow> ads_NetworkData st = Some nd \<Longrightarrow>
   \<exists>new. length (drawn_addresses (random_cidrs ipams) r) = length (random_cidrs ipams) \<and>
     list_all2 written_for (zip (random_cidrs ipams) (drawn_addresses (random_cidrs ipams) r)) new \<and>
     st' = st\<lparr>ads_NetworkData := Some (nd\<lparr>IPs := IPs nd @ new\<rparr>)\<rparr>"
proof (induction ipams arbitrary: st nd r)
  case Nil
  then show ?case
    by (intro exI [of _ "[]"]) simp
next
  case (Cons i ipams)
  then obtain ipam where i: "i = Some ipam"
    by (cases i) auto
  show ?case
  proof (cases "Provider ipam = IPAMProviderRandom")
    case True
    with Cons.prems i obtain x a net ip where
      x: "Random ipam = Some x" "ParseCIDR (CIDR x) = Inr (a, net)" "fst (generateRandomIP net r) = Ok ip" and
      go': "allocate_ipams ipams (st\<lparr>ads_NetworkData := Some (nd\<lparr>IPs := IPs nd @
          [IPString ip @ ''/'' @ dec (fst (mask_Size (net_Mask net)))]\<rparr>)\<rparr>) (snd (generateRandomIP net r)) = (Ok st', r')"
      by (auto simp: Let_def case_prod_beta split: option.splits if_splits sum.splits prod.splits res.splits)
    then obtain r1 where draw: "generateRandomIP net r = (Ok ip, r1)"
      by (metis prod.collapse)
    with go' have go: "allocate_ipams ipams (st\<lparr>ads_NetworkData := Some (nd\<lparr>IPs := IPs nd @
          [IPString ip @ ''/'' @ dec (fst (mask_Size (net_Mask net)))]\<rparr>)\<rparr>) r1 = (Ok st', r')"
      by simp
    let ?s = "IPString ip @ ''/'' @ dec (fst (mask_Size (net_Mask net)))"
    note ok = ParseCIDR_ok [OF x(2)]
    have use: "usable_address net ip"
      using generateRandomIP_OkD [OF ok] x(3) by simp
    have "written_for (CIDR x, ip) ?s"
      using x(2) use usable_address_read_back [OF ok use] by (auto simp: written_for_def)
    moreover from Cons.IH [OF go] obtain new where
      "length (drawn_addresses (random_cidrs ipams) r1) = length (random_cidrs ipams)"
      "list_all2 written_for (zip (random_cidrs ipams) (drawn_addresses (random_cidrs ipams) r1)) new"
      "st' = st\<lparr>ads_NetworkData := Some (nd\<lparr>IPs := IPs nd @ [?s] @ new\<rparr>)\<rparr>"
      by auto
    ultimately show ?thesis
      using True i x draw by (intro exI [of _ "?s # new"]) (simp add: random_cidrs_Cons)
  next
    case False
    with Cons.prems(1) i have "allocate_ipams ipams st r = (Ok st', r')"
      by simp
    from Cons.IH [OF this Cons.prems(2)] False i show ?thesis
      by (simp add: random_cidrs_Cons)
  qed
qed

text \<open>
  C19: the addresses that an allocation writes can be read back. It writes one text for each Random
  entry, the address that \<open>generateRandomIP\<close> drew for it, which is a usable address of the entry's
  network, with the network's prefix length; and parsing the text gives that very address and the very
  network of the entry. The exception is an IPv4-mapped IPv6 address: it comes back with an IPv4 network
  of the prefix length, and when that is more than 32 the text is refused.
\<close>

theorem allocated_address_is_read_back:
  assumes "ads_NetworkData st = Some nd" and "IPs nd = []"
    and "fst (Common_Allocate host (Some nic) (Some st) r) = (Ok st', arg)"
    and "ads_NetworkData st' = Some nd'"
  defines "cidrs \<equiv> random_cidrs (nic_IPAM nic)"
  shows "length (drawn_addresses cidrs r) = length cidrs \<and> length (IPs nd') = length cidrs \<and>
    (\<forall>i < length cidrs. \<exists>a net.
       let ip = drawn_addresses cidrs r ! i; s = IPs nd' ! i; ones = fst (mask_Size (net_Mask net)) in
       ParseCIDR (cidrs ! i) = Inr (a, net) \<and> usable_address net ip \<and> s = IPString ip @ ''/'' @ dec ones \<and>
       ParseCIDR s =
         (if \<not> IPv4_mapped ip then Inr (to_16 ip, net)
          else if ones \<le> 32
          then Inr (ip, \<lparr>net_IP = masked (drop 12 ip) (CIDRMask ones 4), net_Mask = CIDRMask ones 4\<rparr>)
          else Inl (''invalid CIDR address: '' @ s)))"
proof -
  from assms(1-3) obtain r' where "allocate_ipams (nic_IPAM nic) st r = (Ok st', r')"
    by (auto simp: Common_Allocate_def Let_def split: prod.splits)
  from allocate_ipams_drawn [OF this assms(1)] assms(2,4)
  have drawn: "length (drawn_addresses cidrs r) = length cidrs"
    and all: "list_all2 written_for (zip cidrs (drawn_addresses cidrs r)) (IPs nd')"
    by (auto simp: cidrs_def)
  have len: "length (IPs nd') = length cidrs"
    using list_all2_lengthD [OF all] drawn by simp
  have "written_for (cidrs ! i, drawn_addresses cidrs r ! i) (IPs nd' ! i)" if "i < length cidrs" for i
    using list_all2_nthD [OF all, of i] drawn that by simp
  with drawn len show ?thesis
    by (simp add: written_for_def parsed_back_def Let_def)
qed

lemma allocated_address_is_read_back_witness:
  "\<exists>st' nd' s ip. fst (Common_Allocate None (Some demo_nic) (Some demo_status) (\<lambda>n. of_nat n)) =
     (Ok st', Some demo_status) \<and> ads_NetworkData st' = Some nd' \<and> IPs nd' = [s] \<and>
     usable_address net_24 ip \<and> \<not> IPv4_mapped ip \<and> ParseCIDR s = Inr (to_16 ip, net_24)"
proof -
  have nd: "ads_NetworkData demo_status = Some empty_NetworkDeviceData" "IPs empty_NetworkDeviceData = []"
    by (simp_all add: demo_status_def empty_NetworkDeviceData_def)
  have c: "random_cidrs (nic_IPAM demo_nic) = [''192.168.1.0/24'']"
    by (simp add: demo_nic_def random_cidrs_def random_entry_def IPAMProviderDHCP_def IPAMProviderRandom_def)
  let ?nd' = "empty_NetworkDeviceData\<lparr>IPs := [IPString [192, 168, 1, 3] @ ''/24'']\<rparr>"
  let ?ip = "drawn_addresses [''192.168.1.0/24''] (\<lambda>n. of_nat n) ! 0"
  from allocated_address_is_read_back [OF nd demo_allocate_24, of ?nd']
  have read: "usable_address net_24 ?ip"
    "\<not> IPv4_mapped ?ip \<Longrightarrow> ParseCIDR (IPs ?nd' ! 0) = Inr (to_16 ?ip, net_24)"
    by (auto simp: c ParseCIDR_24 demo_allocate_24 Let_def)
  have "length (net_IP net_24) = 4"
    by (simp add: net_24_def)
  with read(1) have "\<not> IPv4_mapped ?ip"
    by (simp add: usable_address_def in_subnet_def IPv4_mapped_def)
  with read show ?thesis
    by (intro exI [of _ "demo_status\<lparr>ads_NetworkData := Some ?nd'\<rparr>"] exI [of _ ?nd'] exI) (auto simp: demo_allocate_24)
qed

lemma take_CIDRMask: "8 * j \<le> n \<Longrightarrow> j \<le> k \<Longrightarrow> take j (CIDRMask n k) = replicate j 255"
proof (induction n k arbitrary: j rule: CIDRMask.induct)
  case (2 n k)
  then show ?case
    by (cases j) auto
qed simp

lemma mapped_subnet:
  assumes "in_subnet net ip" and "take 12 (net_IP net) = v4InV6Prefix" and "length (net_IP net) = 16"
    and "net_Mask net = CIDRMask n 16" and "96 \<le> n"
  shows "IPv4_mapped ip"
proof -
  have len: "length ip = 16"
    using assms(1,3) by (simp add: in_subnet_def)
  have ones: "take 12 (net_Mask net) = replicate 12 255"
    using take_CIDRMask [of 12 n 16] assms(4,5) by simp
  have "ip ! i = net_IP net ! i" if "i < 12" for i
  proof -
    have "net_Mask net ! i = 255"
      using arg_cong [OF ones, of "\<lambda>xs. xs ! i"] that by simp
    moreover have "ip ! i AND net_Mask net ! i = net_IP net ! i"
      using assms(1) that len by (simp add: in_subnet_def)
    moreover have "b AND 255 = b" for b :: u8
    proof -
      have "(255 :: u8) = -1"
        by simp
      then show ?thesis
        by (simp only: and.right_neutral)
    qed
    ultimately show ?thesis
      by simp
  qed
  then have "take 12 ip = take 12 (net_IP net)"
    using len assms(3) by (intro nth_equalityI) simp_all
  with assms(2) len show ?thesis
    by (simp add: IPv4_mapped_def)
qed

text \<open>
  C33: an entry whose CIDR is an IPv4-mapped IPv6 network gets an address that is not in CIDR notation.
  \<open>IP.String\<close> prints such an address as an IPv4 address, and the prefix length of the IPv6 network is
  written after it: whatever is drawn, \<open>ParseCIDR\<close> refuses the text that the allocation wrote.
\<close>

theorem mapped_network_gets_unreadable_address:
  assumes "ParseCIDR cidr = Inr (a, net)" and "take 12 (net_IP net) = v4InV6Prefix"
    and "length (net_IP net) = 16" and "net_Mask net = CIDRMask n 16" and "96 \<le> n" and "n \<le> 128"
    and "ads_NetworkData st = Some nd" and "IPs nd = []"
    and "fst (Common_Allocate host (Some \<lparr>nic_IPAM = [random_entry cidr]\<rparr>) (Some st) r) = (Ok st', arg)"
  shows "\<exists>nd' s e. ads_NetworkData st' = Some nd' \<and> IPs nd' = [s] \<and> ParseCIDR s = Inl e"
proof -
  from assms(7-9) obtain r' where
    run: "allocate_ipams [random_entry cidr] st r = (Ok st', r')"
    by (auto simp: Common_Allocate_def Let_def split: prod.splits)
  have cidrs: "random_cidrs [random_entry cidr] = [cidr]"
    by (simp add: random_cidrs_def random_entry_def)
  from allocate_ipams_Ok [OF run assms(7)] assms(8) cidrs obtain s where
    st': "ads_NetworkData st' = Some (nd\<lparr>IPs := [s]\<rparr>)" and s: "address_of_cidr cidr s"
    by (auto simp: list_all2_Cons1)
  from s assms(1) obtain ip where ip: "usable_address net ip"
    "s = IPString ip @ ''/'' @ dec (fst (mask_Size (net_Mask net)))"
    by (auto simp: address_of_cidr_def)
  have "IPv4_mapped ip"
    using mapped_subnet [OF _ assms(2-5)] ip(1) by (simp add: usable_address_def)
  moreover have "fst (mask_Size (net_Mask net)) = n"
    using assms(4,6) by (simp add: mask_Size_CIDRMask)
  ultimately have "\<exists>e. ParseCIDR s = Inl e"
    using mapped_address_refused [OF ParseCIDR_ok [OF assms(1)] ip(1)] ip(2) assms(5) by simp
  with st' show ?thesis
    by auto
qed

definition mapped_net :: IPNet where
  "mapped_net = \<lparr>net_IP = v4InV6Prefix @ [10, 0, 0, 0], net_Mask = CIDRMask 120 16\<rparr>"

lemma ParseCIDR_mapped: "ParseCIDR ''::ffff:a00:0/120'' = Inr (v4InV6Prefix @ [10, 0, 0, 0], mapped_net)"
proof -
  let ?ip = "v4InV6Prefix @ [10, 0, 0, 0]"
  have gs: "v6u16s ?ip = [0, 0, 0, 0, 0, 65535, 2560, 0]"
    by (simp add: v4InV6Prefix_def)
  have "zero_run [0, 0, 0, 0, 0, 65535, 2560, 0] = Some (0, 5)"
    by (simp add: zero_run_def upt_rec Let_def)
  moreover have "hex_group 65535 = ''ffff''" "hex_group 2560 = ''a00''" "hex_group 0 = ''0''"
    by (simp_all add: hex_group_def hex_digit_def char_of_def bit_0)
  ultimately have "string6 ?ip = ''::ffff:a00:0''"
    by (simp add: string6_def gs Let_def)
  moreover have "dec 120 = ''120''"
    using dec_3 [of 1 2 0] by (simp add: digit_def char_of_def bit_0)
  moreover have "masked ?ip (CIDRMask 120 16) = ?ip"
    unfolding v4InV6Prefix_def by code_simp
  ultimately show ?thesis
    using ParseCIDR_string6 [of ?ip 120] by (simp add: mapped_net_def)
qed

lemma mapped_network_gets_unreadable_address_witness:
  "\<exists>r st' nd' s e. fst (Common_Allocate None (Some \<lparr>nic_IPAM = [random_entry ''::ffff:a00:0/120'']\<rparr>)
       (Some demo_status) r) = (Ok st', Some demo_status) \<and>
     ads_NetworkData st' = Some nd' \<and> IPs nd' = [s] \<and> ParseCIDR s = Inl e"
proof -
  note ok = ParseCIDR_ok [OF ParseCIDR_mapped]
  have m: "net_Mask mapped_net = CIDRMask 120 16" "take 12 (net_IP mapped_net) = v4InV6Prefix"
    "length (net_IP mapped_net) = 16"
    by (simp_all add: mapped_net_def)
  obtain r where "usable_draw (net_Mask mapped_net) (skip_draws (0 * 16) r)"
    using usable_draw_exists [of 120 16] m(1) by auto
  from generateRandomIP_outcome(2) [OF ok m(1) _ _ this] have "is_ok (fst (generateRandomIP mapped_net r))"
    by simp
  then obtain ip r' where g: "generateRandomIP mapped_net r = (Ok ip, r')"
    by (cases "generateRandomIP mapped_net r") (auto simp: is_ok_iff)
  have nd: "ads_NetworkData demo_status = Some empty_NetworkDeviceData" "IPs empty_NetworkDeviceData = []"
    by (simp_all add: demo_status_def empty_NetworkDeviceData_def)
  obtain ones bits where size: "mask_Size (net_Mask mapped_net) = (ones, bits)"
    by fastforce
  obtain st' where run: "fst (Common_Allocate None (Some \<lparr>nic_IPAM = [random_entry ''::ffff:a00:0/120'']\<rparr>)
      (Some demo_status) r) = (Ok st', Some demo_status)"
    by (simp add: Common_Allocate_def demo_status_def empty_NetworkDeviceData_def random_entry_def
        IPAMProviderRandom_def ParseCIDR_mapped g size)
  from mapped_network_gets_unreadable_address [OF ParseCIDR_mapped m(2,3,1) _ _ nd run] run show ?thesis
    by (intro exI [of _ r] exI [of _ st']) auto
qed

end
