(* ===== verification/DeepCopy.thy ===== *)
theory DeepCopy
  imports KubeTypes
begin

text \<open>
  The generated deep copies, \<open>apis/v1alpha1/zz_generated.deepcopy.go\<close> and
  \<open>pkg/host/zz_generated.deepcopy.go\<close>, on an explicit heap: a pointer or a slice of the Go structs is
  the address of a cell (nil is \<open>None\<close>), everything else is inline. What the copies are for is that
  nobody who holds the original can see or disturb the copy: informer caches hand out pointers to
  their own objects, and the driver copies what it puts into a claim's status.

  The contract is the locale \<open>deep_copy\<close>, closed under the ways the structs are built (pointers, slices,
  several fields), and interpreted for every type that has a deep copy. A slice is the address of its
  array; the capacity beyond its length is not modelled. The Kubernetes types inside
  (\<open>ObjectMeta\<close>, \<open>NodeSelector\<close>) are values whose own deep copies are client-go's.
\<close>

section \<open>The heap\<close>

type_synonym addr = nat

record mSelector =
  m_CEL :: "addr option"

record mDeviceSelector =
  mds_Name :: string
  mds_Selectors :: "addr option"
  mds_NodeSelector :: "addr option"

record mMacvlan =
  m_Mode :: "addr option"

record mDeviceConfiguration =
  mdc_Name :: string
  mdc_DeviceSelectors :: "addr option"
  mdc_DeviceType :: "addr option"
  mdc_Macvlan :: "addr option"
  mdc_HostDevice :: "addr option"

record mIPAM =
  mi_Provider :: IPAMProvider
  mi_Random :: "addr option"

record mNetworkInterfaceConfiguration =
  mn_IPAM :: "addr option"

record mDeviceNetworkSpec =
  ms_DeviceSelectors :: "addr option"
  ms_DeviceConfigurations :: "addr option"
  ms_NetworkInterfaceConfiguration :: mNetworkInterfaceConfiguration

record mDeviceNetwork =
  mdn_Name :: string
  mdn_Spec :: mDeviceNetworkSpec

record mDeviceNetworkList =
  mdl_Items :: "addr option"

record mDeviceList =
  mhl_Items :: "addr option"

datatype cell =
    StringCell string
  | StringsCell "string list"
  | CELCell CELDeviceSelector
  | SelectorCell mSelector
  | SelectorsCell "mSelector list"
  | NodeSelectorCell NodeSelector
  | DeviceSelectorCell mDeviceSelector
  | DeviceSelectorsCell "mDeviceSelector list"
  | MacvlanCell mMacvlan
  | HostDeviceConfigCell HostDeviceConfig
  | DeviceConfigurationCell mDeviceConfiguration
  | DeviceConfigurationsCell "mDeviceConfiguration list"
  | RandomIPAMCell RandomIPAM
  | IPAMCell mIPAM
  | IPAMsCell "addr option list"
  | NetworkInterfaceConfigurationCell mNetworkInterfaceConfiguration
  | DeviceNetworkSpecCell mDeviceNetworkSpec
  | DeviceNetworkStatusCell
  | DeviceNetworkCell mDeviceNetwork
  | DeviceNetworksCell "mDeviceNetwork list"
  | DeviceNetworkListCell mDeviceNetworkList
  | DeviceSpecCell DeviceSpec
  | DeviceCell HostDevice
  | DevicesCell "HostDevice list"
  | DeviceListCell mDeviceList

record heap =
  cells :: "addr \<rightharpoonup> cell"
  limit :: addr

definition heap_ok :: "heap \<Rightarrow> bool" where
  "heap_ok h \<longleftrightarrow> (\<forall>a c. cells h a = Some c \<longrightarrow> a < limit h)"

definition alloc :: "cell \<Rightarrow> heap \<Rightarrow> addr \<times> heap" where
  "alloc c h = (limit h, \<lparr>cells = (cells h)(limit h \<mapsto> c), limit = Suc (limit h)\<rparr>)"

definition write_cell :: "addr \<Rightarrow> cell \<Rightarrow> heap \<Rightarrow> heap" where
  "write_cell a c h = h\<lparr>cells := (cells h)(a \<mapsto> c)\<rparr>"

text \<open>\<open>h'\<close> has everything of \<open>h\<close> as it was.\<close>

definition extends :: "heap \<Rightarrow> heap \<Rightarrow> bool" where
  "extends h h' \<longleftrightarrow> heap_ok h' \<and> limit h \<le> limit h' \<and> (\<forall>a < limit h. cells h' a = cells h a)"

lemma extends_refl: "heap_ok h \<Longrightarrow> extends h h"
  by (simp add: extends_def)

lemma extends_trans: "extends h h' \<Longrightarrow> extends h' h'' \<Longrightarrow> extends h h''"
  by (auto simp: extends_def)

lemma extends_alloc: "heap_ok h \<Longrightarrow> alloc c h = (a, h') \<Longrightarrow> extends h h' \<and> a = limit h \<and> limit h' = Suc (limit h)"
  by (auto simp: extends_def alloc_def heap_ok_def less_Suc_eq split: if_splits)

section \<open>The contract\<close>

text \<open>
  A type in memory \<open>'m\<close>: the copy of a value of it, the value it stands for (\<open>None\<close> when a pointer does
  not point at a cell of its type) and the addresses that the value depends on.
\<close>

locale deep_copy =
  fixes copy :: "'m \<Rightarrow> heap \<Rightarrow> 'm \<times> heap"
    and val :: "heap \<Rightarrow> 'm \<Rightarrow> 'v option"
    and reach :: "heap \<Rightarrow> 'm \<Rightarrow> addr set"
  assumes copies: "heap_ok h \<Longrightarrow> val h x = Some v \<Longrightarrow> copy x h = (y, h') \<Longrightarrow>
      extends h h' \<and> val h' y = Some v \<and> reach h' y \<subseteq> {limit h..<limit h'}"
    and local: "val h x = Some v \<Longrightarrow> \<forall>a \<in> reach h x. cells h' a = cells h a \<Longrightarrow>
      val h' x = Some v \<and> reach h' x = reach h x"
    and allocated: "val h x = Some v \<Longrightarrow> reach h x \<subseteq> dom (cells h)"
begin

lemma below_limit: "heap_ok h \<Longrightarrow> val h x = Some v \<Longrightarrow> a \<in> reach h x \<Longrightarrow> a < limit h"
  using allocated [of h x v] by (force simp: heap_ok_def)

lemma extended: "heap_ok h \<Longrightarrow> val h x = Some v \<Longrightarrow> extends h h' \<Longrightarrow> val h' x = Some v \<and> reach h' x = reach h x"
  by (rule local) (auto simp: extends_def dest: below_limit)

lemma original_kept:
  assumes "heap_ok h" and "val h x = Some v" and "copy x h = (y, h')"
    and "\<forall>a < limit h. cells h'' a = cells h' a"
  shows "val h'' x = Some v"
proof -
  from copies [OF assms(1-3)] have "\<forall>a \<in> reach h x. cells h'' a = cells h a"
    using below_limit [OF assms(1,2)] assms(4) by (auto simp: extends_def)
  from local [OF assms(2) this] show ?thesis
    by blast
qed

lemma copy_kept:
  assumes "heap_ok h" and "val h x = Some v" and "copy x h = (y, h')"
    and "\<forall>a \<ge> limit h. cells h'' a = cells h' a"
  shows "val h'' y = Some v"
proof -
  from copies [OF assms(1-3)] have y: "val h' y = Some v" "\<forall>a \<in> reach h' y. cells h'' a = cells h' a"
    using assms(4) by auto
  from local [OF y] show ?thesis
    by blast
qed

end

section \<open>Building blocks\<close>

text \<open>A plain assignment.\<close>

definition copy_plain :: "'m \<Rightarrow> heap \<Rightarrow> 'm \<times> heap" where
  "copy_plain x h = (x, h)"

definition val_plain :: "heap \<Rightarrow> 'm \<Rightarrow> 'm option" where
  "val_plain h x = Some x"

definition reach_plain :: "heap \<Rightarrow> 'm \<Rightarrow> addr set" where
  "reach_plain h x = {}"

interpretation plain: deep_copy copy_plain val_plain reach_plain
  by unfold_locales (auto simp: copy_plain_def val_plain_def reach_plain_def extends_refl)

text \<open>The elements of a slice, in order.\<close>

fun copy_list :: "('m \<Rightarrow> heap \<Rightarrow> 'm \<times> heap) \<Rightarrow> 'm list \<Rightarrow> heap \<Rightarrow> 'm list \<times> heap" where
  "copy_list copy [] h = ([], h)"
| "copy_list copy (x # xs) h =
     (let (y, h1) = copy x h; (ys, h2) = copy_list copy xs h1 in (y # ys, h2))"

fun val_list :: "(heap \<Rightarrow> 'm \<Rightarrow> 'v option) \<Rightarrow> heap \<Rightarrow> 'm list \<Rightarrow> 'v list option" where
  "val_list val h [] = Some []"
| "val_list val h (x # xs) =
     (case (val h x, val_list val h xs) of (Some v, Some vs) \<Rightarrow> Some (v # vs) | _ \<Rightarrow> None)"

definition reach_list :: "(heap \<Rightarrow> 'm \<Rightarrow> addr set) \<Rightarrow> heap \<Rightarrow> 'm list \<Rightarrow> addr set" where
  "reach_list reach h xs = (\<Union>x \<in> set xs. reach h x)"

lemma reach_list_simps [simp]:
  "reach_list reach h [] = {}" "reach_list reach h (x # xs) = reach h x \<union> reach_list reach h xs"
  by (simp_all add: reach_list_def)

text \<open>
  \<open>if in.F != nil { *out = new(T); (*in).DeepCopyInto(*out) }\<close>, and the same for a slice with \<open>make\<close>: a
  new cell, which starts as the shallow copy and then gets the copied content.
\<close>

definition copy_ref ::
  "(cell \<Rightarrow> 'm option) \<Rightarrow> ('m \<Rightarrow> cell) \<Rightarrow> ('m \<Rightarrow> heap \<Rightarrow> 'm \<times> heap) \<Rightarrow> addr option \<Rightarrow> heap \<Rightarrow>
   addr option \<times> heap" where
  "copy_ref proj mk copy p h =
     (case p of
        None \<Rightarrow> (None, h)
      | Some a \<Rightarrow>
          (case Option.bind (cells h a) proj of
             None \<Rightarrow> (p, h)
           | Some x \<Rightarrow>
               (let (b, h1) = alloc (mk x) h; (y, h2) = copy x h1 in (Some b, write_cell b (mk y) h2))))"

definition val_ref ::
  "(cell \<Rightarrow> 'm option) \<Rightarrow> (heap \<Rightarrow> 'm \<Rightarrow> 'v option) \<Rightarrow> heap \<Rightarrow> addr option \<Rightarrow> 'v option option" where
  "val_ref proj val h p =
     (case p of
        None \<Rightarrow> Some None
      | Some a \<Rightarrow>
          (case Option.bind (cells h a) proj of None \<Rightarrow> None | Some x \<Rightarrow> map_option Some (val h x)))"

definition reach_ref ::
  "(cell \<Rightarrow> 'm option) \<Rightarrow> (heap \<Rightarrow> 'm \<Rightarrow> addr set) \<Rightarrow> heap \<Rightarrow> addr option \<Rightarrow> addr set" where
  "reach_ref proj reach h p =
     (case p of
        None \<Rightarrow> {}
      | Some a \<Rightarrow>
          insert a (case Option.bind (cells h a) proj of None \<Rightarrow> {} | Some x \<Rightarrow> reach h x))"

text \<open>Two fields, one after the other.\<close>

definition copy_pair ::
  "('m \<Rightarrow> heap \<Rightarrow> 'm \<times> heap) \<Rightarrow> ('n \<Rightarrow> heap \<Rightarrow> 'n \<times> heap) \<Rightarrow> 'm \<times> 'n \<Rightarrow> heap \<Rightarrow> ('m \<times> 'n) \<times> heap" where
  "copy_pair c1 c2 p h = (let (a, h1) = c1 (fst p) h; (b, h2) = c2 (snd p) h1 in ((a, b), h2))"

definition val_pair ::
  "(heap \<Rightarrow> 'm \<Rightarrow> 'v option) \<Rightarrow> (heap \<Rightarrow> 'n \<Rightarrow> 'w option) \<Rightarrow> heap \<Rightarrow> 'm \<times> 'n \<Rightarrow> ('v \<times> 'w) option" where
  "val_pair v1 v2 h p =
     (case (v1 h (fst p), v2 h (snd p)) of (Some v, Some w) \<Rightarrow> Some (v, w) | _ \<Rightarrow> None)"

definition reach_pair ::
  "(heap \<Rightarrow> 'm \<Rightarrow> addr set) \<Rightarrow> (heap \<Rightarrow> 'n \<Rightarrow> addr set) \<Rightarrow> heap \<Rightarrow> 'm \<times> 'n \<Rightarrow> addr set" where
  "reach_pair r1 r2 h p = r1 h (fst p) \<union> r2 h (snd p)"

text \<open>A struct by its pointer fields: \<open>*out = *in\<close>, then the copied fields are set.\<close>

definition copy_struct ::
  "('r \<Rightarrow> 'm) \<Rightarrow> ('r \<Rightarrow> 'm \<Rightarrow> 'r) \<Rightarrow> ('m \<Rightarrow> heap \<Rightarrow> 'm \<times> heap) \<Rightarrow> 'r \<Rightarrow> heap \<Rightarrow> 'r \<times> heap" where
  "copy_struct get set' copy r h = (let (m, h') = copy (get r) h in (set' r m, h'))"

definition val_struct ::
  "('r \<Rightarrow> 'm) \<Rightarrow> ('r \<Rightarrow> 'v \<Rightarrow> 'w) \<Rightarrow> (heap \<Rightarrow> 'm \<Rightarrow> 'v option) \<Rightarrow> heap \<Rightarrow> 'r \<Rightarrow> 'w option" where
  "val_struct get build val h r = map_option (build r) (val h (get r))"

definition reach_struct ::
  "('r \<Rightarrow> 'm) \<Rightarrow> (heap \<Rightarrow> 'm \<Rightarrow> addr set) \<Rightarrow> heap \<Rightarrow> 'r \<Rightarrow> addr set" where
  "reach_struct get reach h r = reach h (get r)"

context deep_copy
begin

lemma list_copies:
  "heap_ok h \<Longrightarrow> val_list val h xs = Some vs \<Longrightarrow> copy_list copy xs h = (ys, h') \<Longrightarrow>
   extends h h' \<and> val_list val h' ys = Some vs \<and> reach_list reach h' ys \<subseteq> {limit h..<limit h'}"
proof (induction xs arbitrary: h vs ys h')
  case Nil
  then show ?case
    by (simp add: extends_refl)
next
  case (Cons x xs)
  from Cons.prems(2) obtain v ws where v: "val h x = Some v" "val_list val h xs = Some ws" "vs = v # ws"
    by (auto split: option.splits)
  obtain y h1 where c1: "copy x h = (y, h1)"
    by fastforce
  obtain zs where c2: "copy_list copy xs h1 = (zs, h')" and ys: "ys = y # zs"
    using Cons.prems(3) c1 by (auto simp: Let_def split: prod.splits)
  note one = copies [OF Cons.prems(1) v(1) c1]
  have all: "val_list val h1 xs = Some ws"
    using v(2)
  proof (induction xs arbitrary: ws)
    case (Cons a xs)
    then show ?case
      using extended [OF \<open>heap_ok h\<close> _ conjunct1 [OF one]] by (auto split: option.splits)
  qed simp
  have ok1: "heap_ok h1"
    using one by (simp add: extends_def)
  note rest = Cons.IH [OF ok1 all c2]
  have "val h' y = Some v \<and> reach h' y = reach h1 y"
    by (rule extended [OF ok1 _ conjunct1 [OF rest]]) (use one in blast)
  moreover have "limit h \<le> limit h1" "limit h1 \<le> limit h'"
    using one rest by (auto simp: extends_def)
  ultimately show ?case
    using one rest extends_trans [of h h1 h'] by (auto simp: ys v(3))
qed

lemma list_deep_copy: "deep_copy (copy_list copy) (val_list val) (reach_list reach)"
proof
  show "val_list val h' xs = Some vs \<and> reach_list reach h' xs = reach_list reach h xs"
    if "val_list val h xs = Some vs" "\<forall>a \<in> reach_list reach h xs. cells h' a = cells h a" for h h' xs vs
    using that
  proof (induction xs arbitrary: vs)
    case (Cons x xs)
    from Cons.prems(1) obtain v ws where v: "val h x = Some v" "val_list val h xs = Some ws" "vs = v # ws"
      by (auto split: option.splits)
    from Cons.prems(2) have same: "\<forall>a \<in> reach h x. cells h' a = cells h a"
      "\<forall>a \<in> reach_list reach h xs. cells h' a = cells h a"
      by simp_all
    from local [OF v(1) same(1)] Cons.IH [OF v(2) same(2)] show ?case
      by (simp add: v(3))
  qed simp
  show "reach_list reach h xs \<subseteq> dom (cells h)" if "val_list val h xs = Some vs" for h xs vs
    using that
  proof (induction xs arbitrary: vs)
    case (Cons x xs)
    from Cons.prems obtain v ws where v: "val h x = Some v" "val_list val h xs = Some ws"
      by (auto split: option.splits)
    from allocated [OF v(1)] Cons.IH [OF v(2)] show ?case
      by simp
  qed simp
qed (rule list_copies)

lemma ref_copies:
  assumes inv: "\<And>x. proj (mk x) = Some x"
    and "heap_ok h" and "val_ref proj val h p = Some v" and "copy_ref proj mk copy p h = (q, h')"
  shows "extends h h' \<and> val_ref proj val h' q = Some v \<and> reach_ref proj reach h' q \<subseteq> {limit h..<limit h'}"
proof (cases p)
  case None
  with assms show ?thesis
    by (auto simp: copy_ref_def val_ref_def reach_ref_def extends_refl)
next
  case (Some a)
  with assms(3) obtain x w where x: "Option.bind (cells h a) proj = Some x" "val h x = Some w" "v = Some w"
    by (auto simp: val_ref_def split: option.splits)
  obtain h1 where al: "alloc (mk x) h = (limit h, h1)"
    by (simp add: alloc_def)
  note ext1 = extends_alloc [OF assms(2) al]
  obtain y h2 where cp: "copy x h1 = (y, h2)"
    by fastforce
  have q: "q = Some (limit h)" "h' = write_cell (limit h) (mk y) h2"
    using assms(4) by (auto simp: copy_ref_def Some x(1) al cp)
  have ok1: "heap_ok h1"
    using ext1 by (simp add: extends_def)
  have "val h1 x = Some w"
    using extended [OF assms(2) x(2)] ext1 by blast
  note in_copy = copies [OF ok1 this cp]
  have same: "\<forall>a \<in> reach h2 y. cells h' a = cells h2 a"
    using in_copy ext1 by (auto simp: q(2) write_cell_def)
  note y = local [OF conjunct1 [OF conjunct2 [OF in_copy]] same]
  have lim: "limit h < limit h'" "limit h1 \<le> limit h'" "limit h' = limit h2"
    using in_copy ext1 by (auto simp: q(2) write_cell_def extends_def)
  have "extends h h'"
    using in_copy ext1 lim by (auto simp: q(2) write_cell_def extends_def heap_ok_def)
  moreover have "Option.bind (cells h' (limit h)) proj = Some y"
    by (simp add: q(2) write_cell_def inv)
  ultimately show ?thesis
    using y in_copy lim ext1 by (auto simp: q(1) val_ref_def reach_ref_def x(3))
qed

lemma ref_deep_copy:
  assumes "\<And>x. proj (mk x) = Some x"
  shows "deep_copy (copy_ref proj mk copy) (val_ref proj val) (reach_ref proj reach)"
proof
  show "extends h h' \<and> val_ref proj val h' q = Some v \<and> reach_ref proj reach h' q \<subseteq> {limit h..<limit h'}"
    if "heap_ok h" "val_ref proj val h p = Some v" "copy_ref proj mk copy p h = (q, h')" for h p v q h'
    by (rule ref_copies) (rule assms that)+
  show "val_ref proj val h' p = Some v \<and> reach_ref proj reach h' p = reach_ref proj reach h p"
    if v: "val_ref proj val h p = Some v" and same: "\<forall>a \<in> reach_ref proj reach h p. cells h' a = cells h a"
    for h h' p v
  proof (cases p)
    case (Some a)
    with v obtain x w where x: "Option.bind (cells h a) proj = Some x" "val h x = Some w" "v = Some w"
      by (auto simp: val_ref_def split: option.splits)
    from same have c: "cells h' a = cells h a" "\<forall>a \<in> reach h x. cells h' a = cells h a"
      by (simp_all add: reach_ref_def Some x(1))
    from local [OF x(2) c(2)] c(1) x show ?thesis
      by (simp add: val_ref_def reach_ref_def Some)
  qed (use v in \<open>simp add: val_ref_def reach_ref_def\<close>)
  show "reach_ref proj reach h p \<subseteq> dom (cells h)" if v: "val_ref proj val h p = Some v" for h p v
  proof (cases p)
    case (Some a)
    with v obtain x w where x: "Option.bind (cells h a) proj = Some x" "val h x = Some w"
      by (auto simp: val_ref_def split: option.splits)
    then have "a \<in> dom (cells h)"
      by (cases "cells h a") auto
    with allocated [OF x(2)] show ?thesis
      by (simp add: reach_ref_def Some x(1))
  qed (simp add: reach_ref_def)
qed

lemma struct_deep_copy:
  assumes "\<And>r m. get (set' r m) = m" and "\<And>r m. build (set' r m) = build r"
  shows "deep_copy (copy_struct get set' copy) (val_struct get build val) (reach_struct get reach)"
proof
  show "extends h h' \<and> val_struct get build val h' y = Some v \<and>
      reach_struct get reach h' y \<subseteq> {limit h..<limit h'}"
    if ok: "heap_ok h" and v: "val_struct get build val h x = Some v" and c: "copy_struct get set' copy x h = (y, h')"
    for h x v y h'
  proof -
    obtain m where m: "copy (get x) h = (m, h')" "y = set' x m"
      using c by (auto simp: copy_struct_def split: prod.splits)
    obtain w where w: "val h (get x) = Some w" "v = build x w"
      using v by (auto simp: val_struct_def)
    from copies [OF ok w(1) m(1)] show ?thesis
      by (simp add: val_struct_def reach_struct_def m(2) w(2) assms)
  qed
  show "val_struct get build val h' x = Some v \<and> reach_struct get reach h' x = reach_struct get reach h x"
    if v: "val_struct get build val h x = Some v" and same: "\<forall>a \<in> reach_struct get reach h x. cells h' a = cells h a"
    for h h' x v
  proof -
    obtain w where w: "val h (get x) = Some w" "v = build x w"
      using v by (auto simp: val_struct_def)
    from local [OF w(1) same [unfolded reach_struct_def]] show ?thesis
      by (simp add: val_struct_def reach_struct_def w(2))
  qed
  show "reach_struct get reach h x \<subseteq> dom (cells h)" if v: "val_struct get build val h x = Some v" for h x v
  proof -
    obtain w where "val h (get x) = Some w"
      using v by (auto simp: val_struct_def)
    from allocated [OF this] show ?thesis
      by (simp add: reach_struct_def)
  qed
qed

end

lemma pair_deep_copy:
  assumes "deep_copy c1 v1 r1" and "deep_copy c2 v2 r2"
  shows "deep_copy (copy_pair c1 c2) (val_pair v1 v2) (reach_pair r1 r2)"
proof
  note one = deep_copy.copies [OF assms(1)] and two = deep_copy.copies [OF assms(2)]
  show "extends h h' \<and> val_pair v1 v2 h' y = Some v \<and> reach_pair r1 r2 h' y \<subseteq> {limit h..<limit h'}"
    if ok: "heap_ok h" and v: "val_pair v1 v2 h x = Some v" and c: "copy_pair c1 c2 x h = (y, h')" for h x v y h'
  proof -
    obtain u w where u: "v1 h (fst x) = Some u" "v2 h (snd x) = Some w" "v = (u, w)"
      using v by (auto simp: val_pair_def split: option.splits)
    obtain a h1 where a: "c1 (fst x) h = (a, h1)"
      by fastforce
    obtain b where b: "c2 (snd x) h1 = (b, h')" "y = (a, b)"
      using c a by (auto simp: copy_pair_def split: prod.splits)
    note f = one [OF ok u(1) a]
    have ok1: "heap_ok h1"
      using f by (simp add: extends_def)
    have "v2 h1 (snd x) = Some w"
      using deep_copy.extended [OF assms(2) ok u(2)] f by blast
    note g = two [OF ok1 this b(1)]
    have "v1 h' a = Some u \<and> r1 h' a = r1 h1 a"
      by (rule deep_copy.extended [OF assms(1) ok1]) (use f g in blast)+
    with f g extends_trans [of h h1 h'] show ?thesis
      by (auto simp: val_pair_def reach_pair_def b(2) u(3) extends_def)
  qed
  show "val_pair v1 v2 h' x = Some v \<and> reach_pair r1 r2 h' x = reach_pair r1 r2 h x"
    if v: "val_pair v1 v2 h x = Some v" and same: "\<forall>a \<in> reach_pair r1 r2 h x. cells h' a = cells h a" for h h' x v
  proof -
    obtain u w where u: "v1 h (fst x) = Some u" "v2 h (snd x) = Some w" "v = (u, w)"
      using v by (auto simp: val_pair_def split: option.splits)
    have c: "\<forall>a \<in> r1 h (fst x). cells h' a = cells h a" "\<forall>a \<in> r2 h (snd x). cells h' a = cells h a"
      using same by (simp_all add: reach_pair_def)
    from deep_copy.local [OF assms(1) u(1) c(1)] deep_copy.local [OF assms(2) u(2) c(2)] show ?thesis
      by (simp add: val_pair_def reach_pair_def u(3))
  qed
  show "reach_pair r1 r2 h x \<subseteq> dom (cells h)" if v: "val_pair v1 v2 h x = Some v" for h x v
  proof -
    obtain u w where u: "v1 h (fst x) = Some u" "v2 h (snd x) = Some w"
      using v by (auto simp: val_pair_def split: option.splits)
    from deep_copy.allocated [OF assms(1) u(1)] deep_copy.allocated [OF assms(2) u(2)] show ?thesis
      by (simp add: reach_pair_def)
  qed
qed

section \<open>Reading cells\<close>

definition as_String :: "cell \<Rightarrow> string option" where
  "as_String c = (case c of StringCell x \<Rightarrow> Some x | _ \<Rightarrow> None)"

definition as_Strings :: "cell \<Rightarrow> string list option" where
  "as_Strings c = (case c of StringsCell x \<Rightarrow> Some x | _ \<Rightarrow> None)"

definition as_CEL :: "cell \<Rightarrow> CELDeviceSelector option" where
  "as_CEL c = (case c of CELCell x \<Rightarrow> Some x | _ \<Rightarrow> None)"

definition as_Selector :: "cell \<Rightarrow> mSelector option" where
  "as_Selector c = (case c of SelectorCell x \<Rightarrow> Some x | _ \<Rightarrow> None)"

definition as_Selectors :: "cell \<Rightarrow> mSelector list option" where
  "as_Selectors c = (case c of SelectorsCell x \<Rightarrow> Some x | _ \<Rightarrow> None)"

definition as_NodeSelector :: "cell \<Rightarrow> NodeSelector option" where
  "as_NodeSelector c = (case c of NodeSelectorCell x \<Rightarrow> Some x | _ \<Rightarrow> None)"

definition as_DeviceSelector :: "cell \<Rightarrow> mDeviceSelector option" where
  "as_DeviceSelector c = (case c of DeviceSelectorCell x \<Rightarrow> Some x | _ \<Rightarrow> None)"

definition as_DeviceSelectors :: "cell \<Rightarrow> mDeviceSelector list option" where
  "as_DeviceSelectors c = (case c of DeviceSelectorsCell x \<Rightarrow> Some x | _ \<Rightarrow> None)"

definition as_Macvlan :: "cell \<Rightarrow> mMacvlan option" where
  "as_Macvlan c = (case c of MacvlanCell x \<Rightarrow> Some x | _ \<Rightarrow> None)"

definition as_HostDeviceConfig :: "cell \<Rightarrow> HostDeviceConfig option" where
  "as_HostDeviceConfig c = (case c of HostDeviceConfigCell x \<Rightarrow> Some x | _ \<Rightarrow> None)"

definition as_DeviceConfiguration :: "cell \<Rightarrow> mDeviceConfiguration option" where
  "as_DeviceConfiguration c = (case c of DeviceConfigurationCell x \<Rightarrow> Some x | _ \<Rightarrow> None)"

definition as_DeviceConfigurations :: "cell \<Rightarrow> mDeviceConfiguration list option" where
  "as_DeviceConfigurations c = (case c of DeviceConfigurationsCell x \<Rightarrow> Some x | _ \<Rightarrow> None)"

definition as_RandomIPAM :: "cell \<Rightarrow> RandomIPAM option" where
  "as_RandomIPAM c = (case c of RandomIPAMCell x \<Rightarrow> Some x | _ \<Rightarrow> None)"

definition as_IPAM :: "cell \<Rightarrow> mIPAM option" where
  "as_IPAM c = (case c of IPAMCell x \<Rightarrow> Some x | _ \<Rightarrow> None)"

definition as_IPAMs :: "cell \<Rightarrow> addr option list option" where
  "as_IPAMs c = (case c of IPAMsCell x \<Rightarrow> Some x | _ \<Rightarrow> None)"

definition as_NetworkInterfaceConfiguration :: "cell \<Rightarrow> mNetworkInterfaceConfiguration option" where
  "as_NetworkInterfaceConfiguration c = (case c of NetworkInterfaceConfigurationCell x \<Rightarrow> Some x | _ \<Rightarrow> None)"

definition as_DeviceNetworkSpec :: "cell \<Rightarrow> mDeviceNetworkSpec option" where
  "as_DeviceNetworkSpec c = (case c of DeviceNetworkSpecCell x \<Rightarrow> Some x | _ \<Rightarrow> None)"

definition as_DeviceNetworkStatus :: "cell \<Rightarrow> unit option" where
  "as_DeviceNetworkStatus c = (case c of DeviceNetworkStatusCell \<Rightarrow> Some () | _ \<Rightarrow> None)"

definition as_DeviceNetwork :: "cell \<Rightarrow> mDeviceNetwork option" where
  "as_DeviceNetwork c = (case c of DeviceNetworkCell x \<Rightarrow> Some x | _ \<Rightarrow> None)"

definition as_DeviceNetworks :: "cell \<Rightarrow> mDeviceNetwork list option" where
  "as_DeviceNetworks c = (case c of DeviceNetworksCell x \<Rightarrow> Some x | _ \<Rightarrow> None)"

definition as_DeviceNetworkList :: "cell \<Rightarrow> mDeviceNetworkList option" where
  "as_DeviceNetworkList c = (case c of DeviceNetworkListCell x \<Rightarrow> Some x | _ \<Rightarrow> None)"

definition as_DeviceSpec :: "cell \<Rightarrow> DeviceSpec option" where
  "as_DeviceSpec c = (case c of DeviceSpecCell x \<Rightarrow> Some x | _ \<Rightarrow> None)"

definition as_Device :: "cell \<Rightarrow> HostDevice option" where
  "as_Device c = (case c of DeviceCell x \<Rightarrow> Some x | _ \<Rightarrow> None)"

definition as_Devices :: "cell \<Rightarrow> HostDevice list option" where
  "as_Devices c = (case c of DevicesCell x \<Rightarrow> Some x | _ \<Rightarrow> None)"

definition as_DeviceList :: "cell \<Rightarrow> mDeviceList option" where
  "as_DeviceList c = (case c of DeviceListCell x \<Rightarrow> Some x | _ \<Rightarrow> None)"

lemmas as_defs = as_String_def as_Strings_def as_CEL_def as_Selector_def as_Selectors_def as_NodeSelector_def
  as_DeviceSelector_def as_DeviceSelectors_def as_Macvlan_def as_HostDeviceConfig_def as_DeviceConfiguration_def
  as_DeviceConfigurations_def as_RandomIPAM_def as_IPAM_def as_IPAMs_def as_NetworkInterfaceConfiguration_def
  as_DeviceNetworkSpec_def as_DeviceNetworkStatus_def as_DeviceNetwork_def as_DeviceNetworks_def
  as_DeviceNetworkList_def as_DeviceSpec_def as_Device_def as_Devices_def as_DeviceList_def

section \<open>The generated copies\<close>

text \<open>A nil slice and an empty one are the same value.\<close>

definition items :: "'v list option \<Rightarrow> 'v list" where
  "items xs = (case xs of None \<Rightarrow> [] | Some xs \<Rightarrow> xs)"

subsection \<open>Selectors\<close>

definition CELDeviceSelector_DeepCopyInto :: "CELDeviceSelector \<Rightarrow> heap \<Rightarrow> CELDeviceSelector \<times> heap" where
  "CELDeviceSelector_DeepCopyInto x h = (x, h)"

definition CELDeviceSelector_DeepCopy :: "addr option \<Rightarrow> heap \<Rightarrow> addr option \<times> heap" where
  "CELDeviceSelector_DeepCopy = copy_ref as_CEL CELCell CELDeviceSelector_DeepCopyInto"

definition Selector_DeepCopyInto :: "mSelector \<Rightarrow> heap \<Rightarrow> mSelector \<times> heap" where
  "Selector_DeepCopyInto x h =
     (let (cel, h1) = copy_ref as_CEL CELCell copy_plain (m_CEL x) h in (x\<lparr>m_CEL := cel\<rparr>, h1))"

definition Selector_DeepCopy :: "addr option \<Rightarrow> heap \<Rightarrow> addr option \<times> heap" where
  "Selector_DeepCopy = copy_ref as_Selector SelectorCell Selector_DeepCopyInto"

definition Selector_val :: "heap \<Rightarrow> mSelector \<Rightarrow> Selector option" where
  "Selector_val = val_struct m_CEL (\<lambda>x cel. \<lparr>CEL = cel\<rparr>) (val_ref as_CEL val_plain)"

definition Selector_reach :: "heap \<Rightarrow> mSelector \<Rightarrow> addr set" where
  "Selector_reach = reach_struct m_CEL (reach_ref as_CEL reach_plain)"

interpretation cel_ref: deep_copy "copy_ref as_CEL CELCell copy_plain" "val_ref as_CEL val_plain"
    "reach_ref as_CEL reach_plain"
  by (rule plain.ref_deep_copy) (simp add: as_defs)

lemma Selector_struct:
  "Selector_DeepCopyInto = copy_struct m_CEL (\<lambda>x cel. x\<lparr>m_CEL := cel\<rparr>) (copy_ref as_CEL CELCell copy_plain)"
  by (intro ext) (simp add: Selector_DeepCopyInto_def copy_struct_def)

interpretation selector: deep_copy Selector_DeepCopyInto Selector_val Selector_reach
  unfolding Selector_struct Selector_val_def Selector_reach_def by (rule cel_ref.struct_deep_copy) simp_all

interpretation selectors_ref: deep_copy "copy_ref as_Selectors SelectorsCell (copy_list Selector_DeepCopyInto)"
    "val_ref as_Selectors (val_list Selector_val)" "reach_ref as_Selectors (reach_list Selector_reach)"
  by (rule deep_copy.ref_deep_copy [OF selector.list_deep_copy]) (simp add: as_defs)

interpretation node_selector_ref: deep_copy "copy_ref as_NodeSelector NodeSelectorCell copy_plain"
    "val_ref as_NodeSelector val_plain" "reach_ref as_NodeSelector reach_plain"
  by (rule plain.ref_deep_copy) (simp add: as_defs)

definition DeviceSelector_DeepCopyInto :: "mDeviceSelector \<Rightarrow> heap \<Rightarrow> mDeviceSelector \<times> heap" where
  "DeviceSelector_DeepCopyInto x h =
     (let (sels, h1) = copy_ref as_Selectors SelectorsCell (copy_list Selector_DeepCopyInto) (mds_Selectors x) h;
          (ns, h2) = copy_ref as_NodeSelector NodeSelectorCell copy_plain (mds_NodeSelector x) h1
      in (x\<lparr>mds_Selectors := sels, mds_NodeSelector := ns\<rparr>, h2))"

definition DeviceSelector_DeepCopy :: "addr option \<Rightarrow> heap \<Rightarrow> addr option \<times> heap" where
  "DeviceSelector_DeepCopy = copy_ref as_DeviceSelector DeviceSelectorCell DeviceSelector_DeepCopyInto"

definition DeviceSelector_refs :: "mDeviceSelector \<Rightarrow> addr option \<times> addr option" where
  "DeviceSelector_refs x = (mds_Selectors x, mds_NodeSelector x)"

definition DeviceSelector_val :: "heap \<Rightarrow> mDeviceSelector \<Rightarrow> DeviceSelector option" where
  "DeviceSelector_val = val_struct DeviceSelector_refs
     (\<lambda>x (sels, ns). \<lparr>ds_Name = mds_Name x, ds_Selectors = items sels, ds_NodeSelector = ns\<rparr>)
     (val_pair (val_ref as_Selectors (val_list Selector_val)) (val_ref as_NodeSelector val_plain))"

definition DeviceSelector_reach :: "heap \<Rightarrow> mDeviceSelector \<Rightarrow> addr set" where
  "DeviceSelector_reach = reach_struct DeviceSelector_refs
     (reach_pair (reach_ref as_Selectors (reach_list Selector_reach)) (reach_ref as_NodeSelector reach_plain))"

lemma DeviceSelector_struct:
  "DeviceSelector_DeepCopyInto = copy_struct DeviceSelector_refs
     (\<lambda>x (sels, ns). x\<lparr>mds_Selectors := sels, mds_NodeSelector := ns\<rparr>)
     (copy_pair (copy_ref as_Selectors SelectorsCell (copy_list Selector_DeepCopyInto))
       (copy_ref as_NodeSelector NodeSelectorCell copy_plain))"
  by (intro ext)
    (simp add: DeviceSelector_DeepCopyInto_def copy_struct_def copy_pair_def DeviceSelector_refs_def case_prod_beta)

interpretation device_selector: deep_copy DeviceSelector_DeepCopyInto DeviceSelector_val DeviceSelector_reach
  unfolding DeviceSelector_struct DeviceSelector_val_def DeviceSelector_reach_def
  by (rule deep_copy.struct_deep_copy
      [OF pair_deep_copy [OF selectors_ref.deep_copy_axioms node_selector_ref.deep_copy_axioms]])
    (auto simp: DeviceSelector_refs_def)

subsection \<open>Configurations\<close>

definition Macvlan_DeepCopyInto :: "mMacvlan \<Rightarrow> heap \<Rightarrow> mMacvlan \<times> heap" where
  "Macvlan_DeepCopyInto x h =
     (let (mode, h1) = copy_ref as_String StringCell copy_plain (m_Mode x) h in (x\<lparr>m_Mode := mode\<rparr>, h1))"

definition Macvlan_DeepCopy :: "addr option \<Rightarrow> heap \<Rightarrow> addr option \<times> heap" where
  "Macvlan_DeepCopy = copy_ref as_Macvlan MacvlanCell Macvlan_DeepCopyInto"

definition Macvlan_val :: "heap \<Rightarrow> mMacvlan \<Rightarrow> MacvlanConfig option" where
  "Macvlan_val = val_struct m_Mode (\<lambda>x mode. \<lparr>Mode = mode\<rparr>) (val_ref as_String val_plain)"

definition Macvlan_reach :: "heap \<Rightarrow> mMacvlan \<Rightarrow> addr set" where
  "Macvlan_reach = reach_struct m_Mode (reach_ref as_String reach_plain)"

interpretation string_ref: deep_copy "copy_ref as_String StringCell copy_plain" "val_ref as_String val_plain"
    "reach_ref as_String reach_plain"
  by (rule plain.ref_deep_copy) (simp add: as_defs)

interpretation strings_ref: deep_copy "copy_ref as_Strings StringsCell copy_plain" "val_ref as_Strings val_plain"
    "reach_ref as_Strings reach_plain"
  by (rule plain.ref_deep_copy) (simp add: as_defs)

lemma Macvlan_struct:
  "Macvlan_DeepCopyInto = copy_struct m_Mode (\<lambda>x mode. x\<lparr>m_Mode := mode\<rparr>) (copy_ref as_String StringCell copy_plain)"
  by (intro ext) (simp add: Macvlan_DeepCopyInto_def copy_struct_def)

interpretation macvlan_config: deep_copy Macvlan_DeepCopyInto Macvlan_val Macvlan_reach
  unfolding Macvlan_struct Macvlan_val_def Macvlan_reach_def by (rule string_ref.struct_deep_copy) simp_all

interpretation macvlan_ref: deep_copy "copy_ref as_Macvlan MacvlanCell Macvlan_DeepCopyInto"
    "val_ref as_Macvlan Macvlan_val" "reach_ref as_Macvlan Macvlan_reach"
  by (rule macvlan_config.ref_deep_copy) (simp add: as_defs)

definition HostDevice_DeepCopyInto :: "HostDeviceConfig \<Rightarrow> heap \<Rightarrow> HostDeviceConfig \<times> heap" where
  "HostDevice_DeepCopyInto x h = (x, h)"

definition HostDevice_DeepCopy :: "addr option \<Rightarrow> heap \<Rightarrow> addr option \<times> heap" where
  "HostDevice_DeepCopy = copy_ref as_HostDeviceConfig HostDeviceConfigCell HostDevice_DeepCopyInto"

interpretation host_device_ref: deep_copy "copy_ref as_HostDeviceConfig HostDeviceConfigCell copy_plain"
    "val_ref as_HostDeviceConfig val_plain" "reach_ref as_HostDeviceConfig reach_plain"
  by (rule plain.ref_deep_copy) (simp add: as_defs)

definition DeviceConfiguration_DeepCopyInto :: "mDeviceConfiguration \<Rightarrow> heap \<Rightarrow> mDeviceConfiguration \<times> heap" where
  "DeviceConfiguration_DeepCopyInto x h =
     (let (sels, h1) = copy_ref as_Strings StringsCell copy_plain (mdc_DeviceSelectors x) h;
          (ty, h2) = copy_ref as_String StringCell copy_plain (mdc_DeviceType x) h1;
          (mv, h3) = copy_ref as_Macvlan MacvlanCell Macvlan_DeepCopyInto (mdc_Macvlan x) h2;
          (hd', h4) = copy_ref as_HostDeviceConfig HostDeviceConfigCell copy_plain (mdc_HostDevice x) h3
      in (x\<lparr>mdc_DeviceSelectors := sels, mdc_DeviceType := ty, mdc_Macvlan := mv, mdc_HostDevice := hd'\<rparr>, h4))"

definition DeviceConfiguration_DeepCopy :: "addr option \<Rightarrow> heap \<Rightarrow> addr option \<times> heap" where
  "DeviceConfiguration_DeepCopy =
     copy_ref as_DeviceConfiguration DeviceConfigurationCell DeviceConfiguration_DeepCopyInto"

definition DeviceConfiguration_refs ::
  "mDeviceConfiguration \<Rightarrow> addr option \<times> addr option \<times> addr option \<times> addr option" where
  "DeviceConfiguration_refs x = (mdc_DeviceSelectors x, mdc_DeviceType x, mdc_Macvlan x, mdc_HostDevice x)"

definition DeviceConfiguration_val :: "heap \<Rightarrow> mDeviceConfiguration \<Rightarrow> DeviceConfiguration option" where
  "DeviceConfiguration_val = val_struct DeviceConfiguration_refs
     (\<lambda>x (sels, ty, mv, hd'). \<lparr>dc_Name = mdc_Name x, dc_DeviceSelectors = items sels, dc_DeviceType = ty,
        dc_Macvlan = mv, dc_HostDevice = hd'\<rparr>)
     (val_pair (val_ref as_Strings val_plain) (val_pair (val_ref as_String val_plain)
        (val_pair (val_ref as_Macvlan Macvlan_val) (val_ref as_HostDeviceConfig val_plain))))"

definition DeviceConfiguration_reach :: "heap \<Rightarrow> mDeviceConfiguration \<Rightarrow> addr set" where
  "DeviceConfiguration_reach = reach_struct DeviceConfiguration_refs
     (reach_pair (reach_ref as_Strings reach_plain) (reach_pair (reach_ref as_String reach_plain)
        (reach_pair (reach_ref as_Macvlan Macvlan_reach) (reach_ref as_HostDeviceConfig reach_plain))))"

lemma DeviceConfiguration_struct:
  "DeviceConfiguration_DeepCopyInto = copy_struct DeviceConfiguration_refs
     (\<lambda>x (sels, ty, mv, hd'). x\<lparr>mdc_DeviceSelectors := sels, mdc_DeviceType := ty, mdc_Macvlan := mv, mdc_HostDevice := hd'\<rparr>)
     (copy_pair (copy_ref as_Strings StringsCell copy_plain) (copy_pair (copy_ref as_String StringCell copy_plain)
        (copy_pair (copy_ref as_Macvlan MacvlanCell Macvlan_DeepCopyInto)
           (copy_ref as_HostDeviceConfig HostDeviceConfigCell copy_plain))))"
  by (intro ext)
    (simp add: DeviceConfiguration_DeepCopyInto_def copy_struct_def copy_pair_def DeviceConfiguration_refs_def
      case_prod_beta Let_def)

interpretation device_configuration: deep_copy DeviceConfiguration_DeepCopyInto DeviceConfiguration_val
    DeviceConfiguration_reach
  unfolding DeviceConfiguration_struct DeviceConfiguration_val_def DeviceConfiguration_reach_def
  by (rule deep_copy.struct_deep_copy [OF pair_deep_copy [OF strings_ref.deep_copy_axioms
        pair_deep_copy [OF string_ref.deep_copy_axioms
          pair_deep_copy [OF macvlan_ref.deep_copy_axioms host_device_ref.deep_copy_axioms]]]])
    (auto simp: DeviceConfiguration_refs_def)

subsection \<open>Network interfaces\<close>

definition RandomIPAM_DeepCopyInto :: "RandomIPAM \<Rightarrow> heap \<Rightarrow> RandomIPAM \<times> heap" where
  "RandomIPAM_DeepCopyInto x h = (x, h)"

definition RandomIPAM_DeepCopy :: "addr option \<Rightarrow> heap \<Rightarrow> addr option \<times> heap" where
  "RandomIPAM_DeepCopy = copy_ref as_RandomIPAM RandomIPAMCell RandomIPAM_DeepCopyInto"

interpretation random_ref: deep_copy "copy_ref as_RandomIPAM RandomIPAMCell copy_plain"
    "val_ref as_RandomIPAM val_plain" "reach_ref as_RandomIPAM reach_plain"
  by (rule plain.ref_deep_copy) (simp add: as_defs)

definition IPAM_DeepCopyInto :: "mIPAM \<Rightarrow> heap \<Rightarrow> mIPAM \<times> heap" where
  "IPAM_DeepCopyInto x h =
     (let (random, h1) = copy_ref as_RandomIPAM RandomIPAMCell copy_plain (mi_Random x) h
      in (x\<lparr>mi_Random := random\<rparr>, h1))"

definition IPAM_DeepCopy :: "addr option \<Rightarrow> heap \<Rightarrow> addr option \<times> heap" where
  "IPAM_DeepCopy = copy_ref as_IPAM IPAMCell IPAM_DeepCopyInto"

definition IPAM_val :: "heap \<Rightarrow> mIPAM \<Rightarrow> IPAM option" where
  "IPAM_val = val_struct mi_Random (\<lambda>x random. \<lparr>Provider = mi_Provider x, Random = random\<rparr>)
     (val_ref as_RandomIPAM val_plain)"

definition IPAM_reach :: "heap \<Rightarrow> mIPAM \<Rightarrow> addr set" where
  "IPAM_reach = reach_struct mi_Random (reach_ref as_RandomIPAM reach_plain)"

lemma IPAM_struct:
  "IPAM_DeepCopyInto = copy_struct mi_Random (\<lambda>x random. x\<lparr>mi_Random := random\<rparr>)
     (copy_ref as_RandomIPAM RandomIPAMCell copy_plain)"
  by (intro ext) (simp add: IPAM_DeepCopyInto_def copy_struct_def)

interpretation ipam: deep_copy IPAM_DeepCopyInto IPAM_val IPAM_reach
  unfolding IPAM_struct IPAM_val_def IPAM_reach_def by (rule random_ref.struct_deep_copy) simp_all

interpretation ipam_ref: deep_copy "copy_ref as_IPAM IPAMCell IPAM_DeepCopyInto"
    "val_ref as_IPAM IPAM_val" "reach_ref as_IPAM IPAM_reach"
  by (rule ipam.ref_deep_copy) (simp add: as_defs)

text \<open>A slice of pointers: the array is copied and so is what each element that is not nil points at.\<close>

interpretation ipams_ref: deep_copy
    "copy_ref as_IPAMs IPAMsCell (copy_list (copy_ref as_IPAM IPAMCell IPAM_DeepCopyInto))"
    "val_ref as_IPAMs (val_list (val_ref as_IPAM IPAM_val))"
    "reach_ref as_IPAMs (reach_list (reach_ref as_IPAM IPAM_reach))"
  by (rule deep_copy.ref_deep_copy [OF ipam_ref.list_deep_copy]) (simp add: as_defs)

definition NetworkInterfaceConfiguration_DeepCopyInto ::
  "mNetworkInterfaceConfiguration \<Rightarrow> heap \<Rightarrow> mNetworkInterfaceConfiguration \<times> heap" where
  "NetworkInterfaceConfiguration_DeepCopyInto x h =
     (let (ipams, h1) =
            copy_ref as_IPAMs IPAMsCell (copy_list (copy_ref as_IPAM IPAMCell IPAM_DeepCopyInto)) (mn_IPAM x) h
      in (x\<lparr>mn_IPAM := ipams\<rparr>, h1))"

definition NetworkInterfaceConfiguration_DeepCopy :: "addr option \<Rightarrow> heap \<Rightarrow> addr option \<times> heap" where
  "NetworkInterfaceConfiguration_DeepCopy = copy_ref as_NetworkInterfaceConfiguration
     NetworkInterfaceConfigurationCell NetworkInterfaceConfiguration_DeepCopyInto"

definition NetworkInterfaceConfiguration_val ::
  "heap \<Rightarrow> mNetworkInterfaceConfiguration \<Rightarrow> NetworkInterfaceConfiguration option" where
  "NetworkInterfaceConfiguration_val = val_struct mn_IPAM (\<lambda>x ipams. \<lparr>nic_IPAM = items ipams\<rparr>)
     (val_ref as_IPAMs (val_list (val_ref as_IPAM IPAM_val)))"

definition NetworkInterfaceConfiguration_reach :: "heap \<Rightarrow> mNetworkInterfaceConfiguration \<Rightarrow> addr set" where
  "NetworkInterfaceConfiguration_reach = reach_struct mn_IPAM
     (reach_ref as_IPAMs (reach_list (reach_ref as_IPAM IPAM_reach)))"

lemma NetworkInterfaceConfiguration_struct:
  "NetworkInterfaceConfiguration_DeepCopyInto = copy_struct mn_IPAM (\<lambda>x ipams. x\<lparr>mn_IPAM := ipams\<rparr>)
     (copy_ref as_IPAMs IPAMsCell (copy_list (copy_ref as_IPAM IPAMCell IPAM_DeepCopyInto)))"
  by (intro ext) (simp add: NetworkInterfaceConfiguration_DeepCopyInto_def copy_struct_def)

interpretation network_interface_configuration: deep_copy NetworkInterfaceConfiguration_DeepCopyInto
    NetworkInterfaceConfiguration_val NetworkInterfaceConfiguration_reach
  unfolding NetworkInterfaceConfiguration_struct NetworkInterfaceConfiguration_val_def
    NetworkInterfaceConfiguration_reach_def
  by (rule ipams_ref.struct_deep_copy) simp_all

subsection \<open>DeviceNetworks\<close>

interpretation device_selectors_ref: deep_copy
    "copy_ref as_DeviceSelectors DeviceSelectorsCell (copy_list DeviceSelector_DeepCopyInto)"
    "val_ref as_DeviceSelectors (val_list DeviceSelector_val)"
    "reach_ref as_DeviceSelectors (reach_list DeviceSelector_reach)"
  by (rule deep_copy.ref_deep_copy [OF device_selector.list_deep_copy]) (simp add: as_defs)

interpretation device_configurations_ref: deep_copy
    "copy_ref as_DeviceConfigurations DeviceConfigurationsCell (copy_list DeviceConfiguration_DeepCopyInto)"
    "val_ref as_DeviceConfigurations (val_list DeviceConfiguration_val)"
    "reach_ref as_DeviceConfigurations (reach_list DeviceConfiguration_reach)"
  by (rule deep_copy.ref_deep_copy [OF device_configuration.list_deep_copy]) (simp add: as_defs)

definition DeviceNetworkSpec_DeepCopyInto :: "mDeviceNetworkSpec \<Rightarrow> heap \<Rightarrow> mDeviceNetworkSpec \<times> heap" where
  "DeviceNetworkSpec_DeepCopyInto x h =
     (let (sels, h1) = copy_ref as_DeviceSelectors DeviceSelectorsCell (copy_list DeviceSelector_DeepCopyInto)
            (ms_DeviceSelectors x) h;
          (cfgs, h2) = copy_ref as_DeviceConfigurations DeviceConfigurationsCell
            (copy_list DeviceConfiguration_DeepCopyInto) (ms_DeviceConfigurations x) h1;
          (nic, h3) = NetworkInterfaceConfiguration_DeepCopyInto (ms_NetworkInterfaceConfiguration x) h2
      in (x\<lparr>ms_DeviceSelectors := sels, ms_DeviceConfigurations := cfgs, ms_NetworkInterfaceConfiguration := nic\<rparr>, h3))"

definition DeviceNetworkSpec_DeepCopy :: "addr option \<Rightarrow> heap \<Rightarrow> addr option \<times> heap" where
  "DeviceNetworkSpec_DeepCopy = copy_ref as_DeviceNetworkSpec DeviceNetworkSpecCell DeviceNetworkSpec_DeepCopyInto"

definition DeviceNetworkSpec_refs ::
  "mDeviceNetworkSpec \<Rightarrow> addr option \<times> addr option \<times> mNetworkInterfaceConfiguration" where
  "DeviceNetworkSpec_refs x =
     (ms_DeviceSelectors x, ms_DeviceConfigurations x, ms_NetworkInterfaceConfiguration x)"

definition DeviceNetworkSpec_val :: "heap \<Rightarrow> mDeviceNetworkSpec \<Rightarrow> DeviceNetworkSpec option" where
  "DeviceNetworkSpec_val = val_struct DeviceNetworkSpec_refs
     (\<lambda>x (sels, cfgs, nic). \<lparr>DeviceSelectors = items sels, DeviceConfigurations = items cfgs,
        spec_NetworkInterfaceConfiguration = nic\<rparr>)
     (val_pair (val_ref as_DeviceSelectors (val_list DeviceSelector_val))
       (val_pair (val_ref as_DeviceConfigurations (val_list DeviceConfiguration_val))
         NetworkInterfaceConfiguration_val))"

definition DeviceNetworkSpec_reach :: "heap \<Rightarrow> mDeviceNetworkSpec \<Rightarrow> addr set" where
  "DeviceNetworkSpec_reach = reach_struct DeviceNetworkSpec_refs
     (reach_pair (reach_ref as_DeviceSelectors (reach_list DeviceSelector_reach))
       (reach_pair (reach_ref as_DeviceConfigurations (reach_list DeviceConfiguration_reach))
         NetworkInterfaceConfiguration_reach))"

lemma DeviceNetworkSpec_struct:
  "DeviceNetworkSpec_DeepCopyInto = copy_struct DeviceNetworkSpec_refs
     (\<lambda>x (sels, cfgs, nic). x\<lparr>ms_DeviceSelectors := sels, ms_DeviceConfigurations := cfgs,
        ms_NetworkInterfaceConfiguration := nic\<rparr>)
     (copy_pair (copy_ref as_DeviceSelectors DeviceSelectorsCell (copy_list DeviceSelector_DeepCopyInto))
       (copy_pair (copy_ref as_DeviceConfigurations DeviceConfigurationsCell
           (copy_list DeviceConfiguration_DeepCopyInto))
         NetworkInterfaceConfiguration_DeepCopyInto))"
  by (intro ext)
    (simp add: DeviceNetworkSpec_DeepCopyInto_def copy_struct_def copy_pair_def DeviceNetworkSpec_refs_def
      case_prod_beta Let_def)

interpretation device_network_spec: deep_copy DeviceNetworkSpec_DeepCopyInto DeviceNetworkSpec_val
    DeviceNetworkSpec_reach
  unfolding DeviceNetworkSpec_struct DeviceNetworkSpec_val_def DeviceNetworkSpec_reach_def
  by (rule deep_copy.struct_deep_copy [OF pair_deep_copy [OF device_selectors_ref.deep_copy_axioms
        pair_deep_copy [OF device_configurations_ref.deep_copy_axioms
          network_interface_configuration.deep_copy_axioms]]])
    (auto simp: DeviceNetworkSpec_refs_def)

definition DeviceNetworkStatus_DeepCopyInto :: "unit \<Rightarrow> heap \<Rightarrow> unit \<times> heap" where
  "DeviceNetworkStatus_DeepCopyInto x h = (x, h)"

definition DeviceNetworkStatus_DeepCopy :: "addr option \<Rightarrow> heap \<Rightarrow> addr option \<times> heap" where
  "DeviceNetworkStatus_DeepCopy =
     copy_ref as_DeviceNetworkStatus (\<lambda>x. DeviceNetworkStatusCell) DeviceNetworkStatus_DeepCopyInto"

definition DeviceNetwork_DeepCopyInto :: "mDeviceNetwork \<Rightarrow> heap \<Rightarrow> mDeviceNetwork \<times> heap" where
  "DeviceNetwork_DeepCopyInto x h =
     (let (spec, h1) = DeviceNetworkSpec_DeepCopyInto (mdn_Spec x) h in (x\<lparr>mdn_Spec := spec\<rparr>, h1))"

definition DeviceNetwork_DeepCopy :: "addr option \<Rightarrow> heap \<Rightarrow> addr option \<times> heap" where
  "DeviceNetwork_DeepCopy = copy_ref as_DeviceNetwork DeviceNetworkCell DeviceNetwork_DeepCopyInto"

text \<open>\<open>DeepCopyObject\<close> gives the same pointer as an interface value, nil for nil.\<close>

definition DeviceNetwork_DeepCopyObject :: "addr option \<Rightarrow> heap \<Rightarrow> addr option \<times> heap" where
  "DeviceNetwork_DeepCopyObject p h =
     (case DeviceNetwork_DeepCopy p h of (Some c, h') \<Rightarrow> (Some c, h') | (None, h') \<Rightarrow> (None, h'))"

definition DeviceNetwork_val :: "heap \<Rightarrow> mDeviceNetwork \<Rightarrow> DeviceNetwork option" where
  "DeviceNetwork_val = val_struct mdn_Spec (\<lambda>x spec. \<lparr>dn_Name = mdn_Name x, Spec = spec\<rparr>) DeviceNetworkSpec_val"

definition DeviceNetwork_reach :: "heap \<Rightarrow> mDeviceNetwork \<Rightarrow> addr set" where
  "DeviceNetwork_reach = reach_struct mdn_Spec DeviceNetworkSpec_reach"

lemma DeviceNetwork_struct:
  "DeviceNetwork_DeepCopyInto = copy_struct mdn_Spec (\<lambda>x spec. x\<lparr>mdn_Spec := spec\<rparr>) DeviceNetworkSpec_DeepCopyInto"
  by (intro ext) (simp add: DeviceNetwork_DeepCopyInto_def copy_struct_def)

interpretation device_network: deep_copy DeviceNetwork_DeepCopyInto DeviceNetwork_val DeviceNetwork_reach
  unfolding DeviceNetwork_struct DeviceNetwork_val_def DeviceNetwork_reach_def
  by (rule device_network_spec.struct_deep_copy) simp_all

interpretation device_networks_ref: deep_copy
    "copy_ref as_DeviceNetworks DeviceNetworksCell (copy_list DeviceNetwork_DeepCopyInto)"
    "val_ref as_DeviceNetworks (val_list DeviceNetwork_val)"
    "reach_ref as_DeviceNetworks (reach_list DeviceNetwork_reach)"
  by (rule deep_copy.ref_deep_copy [OF device_network.list_deep_copy]) (simp add: as_defs)

definition DeviceNetworkList_DeepCopyInto :: "mDeviceNetworkList \<Rightarrow> heap \<Rightarrow> mDeviceNetworkList \<times> heap" where
  "DeviceNetworkList_DeepCopyInto x h =
     (let (xs, h1) = copy_ref as_DeviceNetworks DeviceNetworksCell (copy_list DeviceNetwork_DeepCopyInto)
            (mdl_Items x) h
      in (x\<lparr>mdl_Items := xs\<rparr>, h1))"

definition DeviceNetworkList_DeepCopy :: "addr option \<Rightarrow> heap \<Rightarrow> addr option \<times> heap" where
  "DeviceNetworkList_DeepCopy = copy_ref as_DeviceNetworkList DeviceNetworkListCell DeviceNetworkList_DeepCopyInto"

definition DeviceNetworkList_DeepCopyObject :: "addr option \<Rightarrow> heap \<Rightarrow> addr option \<times> heap" where
  "DeviceNetworkList_DeepCopyObject p h =
     (case DeviceNetworkList_DeepCopy p h of (Some c, h') \<Rightarrow> (Some c, h') | (None, h') \<Rightarrow> (None, h'))"

definition DeviceNetworkList_val :: "heap \<Rightarrow> mDeviceNetworkList \<Rightarrow> DeviceNetwork list option" where
  "DeviceNetworkList_val = val_struct mdl_Items (\<lambda>x xs. items xs) (val_ref as_DeviceNetworks (val_list DeviceNetwork_val))"

definition DeviceNetworkList_reach :: "heap \<Rightarrow> mDeviceNetworkList \<Rightarrow> addr set" where
  "DeviceNetworkList_reach = reach_struct mdl_Items (reach_ref as_DeviceNetworks (reach_list DeviceNetwork_reach))"

lemma DeviceNetworkList_struct:
  "DeviceNetworkList_DeepCopyInto = copy_struct mdl_Items (\<lambda>x xs. x\<lparr>mdl_Items := xs\<rparr>)
     (copy_ref as_DeviceNetworks DeviceNetworksCell (copy_list DeviceNetwork_DeepCopyInto))"
  by (intro ext) (simp add: DeviceNetworkList_DeepCopyInto_def copy_struct_def)

interpretation device_network_list: deep_copy DeviceNetworkList_DeepCopyInto DeviceNetworkList_val
    DeviceNetworkList_reach
  unfolding DeviceNetworkList_struct DeviceNetworkList_val_def DeviceNetworkList_reach_def
  by (rule device_networks_ref.struct_deep_copy) simp_all

subsection \<open>Host devices\<close>

definition DeviceSpec_DeepCopyInto :: "DeviceSpec \<Rightarrow> heap \<Rightarrow> DeviceSpec \<times> heap" where
  "DeviceSpec_DeepCopyInto x h = (x, h)"

definition DeviceSpec_DeepCopy :: "addr option \<Rightarrow> heap \<Rightarrow> addr option \<times> heap" where
  "DeviceSpec_DeepCopy = copy_ref as_DeviceSpec DeviceSpecCell DeviceSpec_DeepCopyInto"

text \<open>The metadata, the name, is a value; the specification is assigned.\<close>

definition Device_DeepCopyInto :: "HostDevice \<Rightarrow> heap \<Rightarrow> HostDevice \<times> heap" where
  "Device_DeepCopyInto x h = (x\<lparr>hd_Spec := hd_Spec x\<rparr>, h)"

definition Device_DeepCopy :: "addr option \<Rightarrow> heap \<Rightarrow> addr option \<times> heap" where
  "Device_DeepCopy = copy_ref as_Device DeviceCell Device_DeepCopyInto"

definition Device_DeepCopyObject :: "addr option \<Rightarrow> heap \<Rightarrow> addr option \<times> heap" where
  "Device_DeepCopyObject p h =
     (case Device_DeepCopy p h of (Some c, h') \<Rightarrow> (Some c, h') | (None, h') \<Rightarrow> (None, h'))"

lemma Device_plain: "Device_DeepCopyInto = copy_plain"
  by (intro ext) (simp add: Device_DeepCopyInto_def copy_plain_def)

interpretation host_device: deep_copy Device_DeepCopyInto val_plain reach_plain
  unfolding Device_plain by (rule plain.deep_copy_axioms)

definition DeviceList_DeepCopyInto :: "mDeviceList \<Rightarrow> heap \<Rightarrow> mDeviceList \<times> heap" where
  "DeviceList_DeepCopyInto x h =
     (let (xs, h1) = copy_ref as_Devices DevicesCell (copy_list Device_DeepCopyInto) (mhl_Items x) h
      in (x\<lparr>mhl_Items := xs\<rparr>, h1))"

definition DeviceList_DeepCopy :: "addr option \<Rightarrow> heap \<Rightarrow> addr option \<times> heap" where
  "DeviceList_DeepCopy = copy_ref as_DeviceList DeviceListCell DeviceList_DeepCopyInto"

definition DeviceList_DeepCopyObject :: "addr option \<Rightarrow> heap \<Rightarrow> addr option \<times> heap" where
  "DeviceList_DeepCopyObject p h =
     (case DeviceList_DeepCopy p h of (Some c, h') \<Rightarrow> (Some c, h') | (None, h') \<Rightarrow> (None, h'))"

definition DeviceList_val :: "heap \<Rightarrow> mDeviceList \<Rightarrow> HostDevice list option" where
  "DeviceList_val = val_struct mhl_Items (\<lambda>x xs. items xs) (val_ref as_Devices (val_list val_plain))"

definition DeviceList_reach :: "heap \<Rightarrow> mDeviceList \<Rightarrow> addr set" where
  "DeviceList_reach = reach_struct mhl_Items (reach_ref as_Devices (reach_list reach_plain))"

interpretation devices_ref: deep_copy
    "copy_ref as_Devices DevicesCell (copy_list Device_DeepCopyInto)"
    "val_ref as_Devices (val_list val_plain)" "reach_ref as_Devices (reach_list reach_plain)"
  by (rule deep_copy.ref_deep_copy [OF host_device.list_deep_copy]) (simp add: as_defs)

lemma DeviceList_struct:
  "DeviceList_DeepCopyInto = copy_struct mhl_Items (\<lambda>x xs. x\<lparr>mhl_Items := xs\<rparr>)
     (copy_ref as_Devices DevicesCell (copy_list Device_DeepCopyInto))"
  by (intro ext) (simp add: DeviceList_DeepCopyInto_def copy_struct_def)

interpretation device_list: deep_copy DeviceList_DeepCopyInto DeviceList_val DeviceList_reach
  unfolding DeviceList_struct DeviceList_val_def DeviceList_reach_def
  by (rule devices_ref.struct_deep_copy) simp_all

section \<open>Copies are independent\<close>

text \<open>
  The copy of a pointer stands for the same value, in fresh memory; the original is untouched. Whatever
  is done later to memory that existed before does not change the copy, and whatever is done to the
  new memory does not change the original.
\<close>

definition independent_copy ::
  "(addr option \<Rightarrow> heap \<Rightarrow> addr option \<times> heap) \<Rightarrow> (heap \<Rightarrow> addr option \<Rightarrow> 'v option option) \<Rightarrow> bool" where
  "independent_copy DeepCopy read \<longleftrightarrow>
     (\<forall>h p v q h'. heap_ok h \<and> read h p = Some v \<and> DeepCopy p h = (q, h') \<longrightarrow>
        heap_ok h' \<and> (q = None \<longleftrightarrow> p = None) \<and> read h' q = Some v \<and> read h' p = Some v \<and>
        (\<forall>h''. (\<forall>a \<ge> limit h. cells h'' a = cells h' a) \<longrightarrow> read h'' q = Some v) \<and>
        (\<forall>h''. (\<forall>a < limit h. cells h'' a = cells h' a) \<longrightarrow> read h'' p = Some v))"

context deep_copy
begin

lemma independent:
  assumes "\<And>x. proj (mk x) = Some x"
  shows "independent_copy (copy_ref proj mk copy) (val_ref proj val)"
  unfolding independent_copy_def
proof (intro allI impI, elim conjE)
  fix h p v q h'
  assume ok: "heap_ok h" and v: "val_ref proj val h p = Some v" and c: "copy_ref proj mk copy p h = (q, h')"
  note ref = ref_deep_copy [OF assms]
  have nil: "q = None \<longleftrightarrow> p = None"
    using v c by (auto simp: copy_ref_def val_ref_def split: option.splits prod.splits)
  from deep_copy.copies [OF ref ok v c] have out: "heap_ok h'" "val_ref proj val h' q = Some v"
    by (auto simp: extends_def)
  have orig: "\<forall>h''. (\<forall>a < limit h. cells h'' a = cells h' a) \<longrightarrow> val_ref proj val h'' p = Some v"
    using deep_copy.original_kept [OF ref ok v c] by blast
  have kept: "\<forall>h''. (\<forall>a \<ge> limit h. cells h'' a = cells h' a) \<longrightarrow> val_ref proj val h'' q = Some v"
    using deep_copy.copy_kept [OF ref ok v c] by blast
  from orig have "val_ref proj val h' p = Some v"
    by blast
  with nil out orig kept show "heap_ok h' \<and> (q = None \<longleftrightarrow> p = None) \<and> val_ref proj val h' q = Some v \<and>
      val_ref proj val h' p = Some v \<and>
      (\<forall>h''. (\<forall>a \<ge> limit h. cells h'' a = cells h' a) \<longrightarrow> val_ref proj val h'' q = Some v) \<and>
      (\<forall>h''. (\<forall>a < limit h. cells h'' a = cells h' a) \<longrightarrow> val_ref proj val h'' p = Some v)"
    by (intro conjI)
qed

end

lemma plain_copies:
  "CELDeviceSelector_DeepCopyInto = copy_plain" "HostDevice_DeepCopyInto = copy_plain"
  "RandomIPAM_DeepCopyInto = copy_plain" "DeviceNetworkStatus_DeepCopyInto = copy_plain"
  "DeviceSpec_DeepCopyInto = copy_plain"
  by (intro ext; simp add: CELDeviceSelector_DeepCopyInto_def HostDevice_DeepCopyInto_def RandomIPAM_DeepCopyInto_def
      DeviceNetworkStatus_DeepCopyInto_def DeviceSpec_DeepCopyInto_def copy_plain_def)+

lemma plain_independent:
  "independent_copy CELDeviceSelector_DeepCopy (val_ref as_CEL val_plain)"
  "independent_copy HostDevice_DeepCopy (val_ref as_HostDeviceConfig val_plain)"
  "independent_copy RandomIPAM_DeepCopy (val_ref as_RandomIPAM val_plain)"
  "independent_copy DeviceNetworkStatus_DeepCopy (val_ref as_DeviceNetworkStatus val_plain)"
  "independent_copy DeviceSpec_DeepCopy (val_ref as_DeviceSpec val_plain)"
  unfolding CELDeviceSelector_DeepCopy_def HostDevice_DeepCopy_def RandomIPAM_DeepCopy_def
    DeviceNetworkStatus_DeepCopy_def DeviceSpec_DeepCopy_def plain_copies
  by (rule plain.independent; simp add: as_defs)+

lemma struct_independent:
  "independent_copy Selector_DeepCopy (val_ref as_Selector Selector_val)"
  "independent_copy DeviceSelector_DeepCopy (val_ref as_DeviceSelector DeviceSelector_val)"
  "independent_copy Macvlan_DeepCopy (val_ref as_Macvlan Macvlan_val)"
  "independent_copy DeviceConfiguration_DeepCopy (val_ref as_DeviceConfiguration DeviceConfiguration_val)"
  "independent_copy IPAM_DeepCopy (val_ref as_IPAM IPAM_val)"
  "independent_copy NetworkInterfaceConfiguration_DeepCopy
     (val_ref as_NetworkInterfaceConfiguration NetworkInterfaceConfiguration_val)"
  "independent_copy DeviceNetworkSpec_DeepCopy (val_ref as_DeviceNetworkSpec DeviceNetworkSpec_val)"
  "independent_copy DeviceNetwork_DeepCopy (val_ref as_DeviceNetwork DeviceNetwork_val)"
  "independent_copy DeviceNetworkList_DeepCopy (val_ref as_DeviceNetworkList DeviceNetworkList_val)"
  "independent_copy Device_DeepCopy (val_ref as_Device val_plain)"
  "independent_copy DeviceList_DeepCopy (val_ref as_DeviceList DeviceList_val)"
  unfolding Selector_DeepCopy_def DeviceSelector_DeepCopy_def Macvlan_DeepCopy_def DeviceConfiguration_DeepCopy_def
    IPAM_DeepCopy_def NetworkInterfaceConfiguration_DeepCopy_def DeviceNetworkSpec_DeepCopy_def
    DeviceNetwork_DeepCopy_def DeviceNetworkList_DeepCopy_def Device_DeepCopy_def DeviceList_DeepCopy_def
  by (rule selector.independent device_selector.independent macvlan_config.independent
      device_configuration.independent ipam.independent network_interface_configuration.independent
      device_network_spec.independent device_network.independent device_network_list.independent
      host_device.independent device_list.independent; simp add: as_defs)+

lemma DeepCopyObject_DeepCopy:
  "DeviceNetwork_DeepCopyObject = DeviceNetwork_DeepCopy"
  "DeviceNetworkList_DeepCopyObject = DeviceNetworkList_DeepCopy"
  "Device_DeepCopyObject = Device_DeepCopy" "DeviceList_DeepCopyObject = DeviceList_DeepCopy"
  by (intro ext; simp add: DeviceNetwork_DeepCopyObject_def DeviceNetworkList_DeepCopyObject_def
      Device_DeepCopyObject_def DeviceList_DeepCopyObject_def split: prod.split option.split)+

text \<open>
  C28: the deep copies share no memory with their originals: a copy stands for the same value and is nil
  exactly for nil, nothing done to memory that was there before changes it, and nothing done to its own
  memory changes the original. So for the API types and their lists, the parts of them that the driver
  copies, and the host devices.
\<close>

theorem deep_copies_are_independent:
  "independent_copy DeviceNetwork_DeepCopyObject (val_ref as_DeviceNetwork DeviceNetwork_val) \<and>
   independent_copy DeviceNetworkList_DeepCopyObject (val_ref as_DeviceNetworkList DeviceNetworkList_val) \<and>
   independent_copy DeviceNetworkSpec_DeepCopy (val_ref as_DeviceNetworkSpec DeviceNetworkSpec_val) \<and>
   independent_copy DeviceSelector_DeepCopy (val_ref as_DeviceSelector DeviceSelector_val) \<and>
   independent_copy DeviceConfiguration_DeepCopy (val_ref as_DeviceConfiguration DeviceConfiguration_val) \<and>
   independent_copy NetworkInterfaceConfiguration_DeepCopy
     (val_ref as_NetworkInterfaceConfiguration NetworkInterfaceConfiguration_val) \<and>
   independent_copy Device_DeepCopyObject (val_ref as_Device val_plain) \<and>
   independent_copy DeviceList_DeepCopyObject (val_ref as_DeviceList DeviceList_val)"
  unfolding DeepCopyObject_DeepCopy by (intro conjI struct_independent)

text \<open>A macvlan configuration whose mode is changed after it was copied.\<close>

definition demo_heap :: heap where
  "demo_heap = \<lparr>cells = [0 \<mapsto> StringCell ''bridge'', 1 \<mapsto> MacvlanCell \<lparr>m_Mode = Some 0\<rparr>,
     2 \<mapsto> StringsCell [''all''],
     3 \<mapsto> DeviceConfigurationCell \<lparr>mdc_Name = ''mv'', mdc_DeviceSelectors = Some 2, mdc_DeviceType = None,
          mdc_Macvlan = Some 1, mdc_HostDevice = None\<rparr>], limit = 4\<rparr>"

definition demo_copied :: "string \<Rightarrow> DeviceConfiguration" where
  "demo_copied mode = \<lparr>dc_Name = ''mv'', dc_DeviceSelectors = [''all''], dc_DeviceType = None,
     dc_Macvlan = Some \<lparr>Mode = Some mode\<rparr>, dc_HostDevice = None\<rparr>"

abbreviation demo_read :: "heap \<Rightarrow> addr option \<Rightarrow> DeviceConfiguration option option" where
  "demo_read \<equiv> val_ref as_DeviceConfiguration DeviceConfiguration_val"

lemmas demo_read_simps = val_ref_def as_defs DeviceConfiguration_val_def val_struct_def DeviceConfiguration_refs_def
  val_pair_def val_plain_def Macvlan_val_def items_def demo_copied_def

lemma demo_deep_copy:
  "deep_copy (copy_ref as_DeviceConfiguration DeviceConfigurationCell DeviceConfiguration_DeepCopyInto) demo_read
     (reach_ref as_DeviceConfiguration DeviceConfiguration_reach)"
  by (rule device_configuration.ref_deep_copy) (simp add: as_defs)

lemma deep_copies_are_independent_witness:
  "\<exists>q h'. DeviceConfiguration_DeepCopy (Some 3) demo_heap = (q, h') \<and>
     demo_read (write_cell 0 (StringCell ''private'') h') (Some 3) = Some (Some (demo_copied ''private'')) \<and>
     demo_read (write_cell 0 (StringCell ''private'') h') q = Some (Some (demo_copied ''bridge''))"
proof -
  obtain q h' where c: "DeviceConfiguration_DeepCopy (Some 3) demo_heap = (q, h')"
    by fastforce
  have ok: "heap_ok demo_heap"
    by (auto simp: heap_ok_def demo_heap_def split: if_splits)
  have v: "demo_read demo_heap (Some 3) = Some (Some (demo_copied ''bridge''))"
    by (simp add: demo_heap_def demo_read_simps)
  let ?w = "write_cell 0 (StringCell ''private'')"
  have "independent_copy DeviceConfiguration_DeepCopy demo_read"
    using deep_copies_are_independent by (elim conjE) assumption
  from this [unfolded independent_copy_def, rule_format, OF conjI [OF ok conjI [OF v c]]]
  have q: "\<forall>h''. (\<forall>a \<ge> limit demo_heap. cells h'' a = cells h' a) \<longrightarrow>
      demo_read h'' q = Some (Some (demo_copied ''bridge''))"
    by (elim conjE) assumption
  have "demo_read (?w h') q = Some (Some (demo_copied ''bridge''))"
    by (rule q [rule_format]) (simp add: write_cell_def demo_heap_def)
  moreover have "\<forall>a < limit demo_heap. cells h' a = cells demo_heap a"
    using deep_copy.copies [OF demo_deep_copy ok v c [unfolded DeviceConfiguration_DeepCopy_def]]
    by (simp add: extends_def)
  then have "demo_read (?w h') (Some 3) = Some (Some (demo_copied ''private''))"
    by (simp add: demo_heap_def demo_read_simps write_cell_def)
  ultimately show ?thesis
    using c by blast
qed

end
