(* ===== verification/Json.thy ===== *)
theory Json
  imports KubeTypes "HOL-Library.Multiset"
begin

text \<open>
  The JSON of the status data that the driver writes into a claim and the configurators read back:
  \<open>encoding/json\<close> driven by the struct tags of \<open>pkg/status/types.go\<close>, \<open>pkg/host/types.go\<close> and
  \<open>apis/v1alpha1/types.go\<close>. A struct type is its encoder, a list of members in the order of the fields,
  and its table of fields; the contract between the two is the locale \<open>struct_codec\<close>. The codecs of the
  structs that other repositories declare (the embedded \<open>DeviceStatus\<close>, \<open>TypeMeta\<close> and
  \<open>ObjectMeta\<close>) are parameters with the same contract.

  The contract covers what the API server may do to the bytes in between: members may come in any other
  order.
\<close>

section \<open>Values\<close>

text \<open>A number that is not an integer is known by its literal.\<close>

datatype json =
    JNull
  | JBool bool
  | JInt int
  | JNumber string
  | JString string
  | JArray "json list"
  | JObject "(string \<times> json) list"

text \<open>The same value, with the members of objects in another order.\<close>

inductive same_json :: "json \<Rightarrow> json \<Rightarrow> bool" where
  same_refl: "same_json j j"
| same_array: "list_all2 same_json js js' \<Longrightarrow> same_json (JArray js) (JArray js')"
| same_object: "list_all2 (rel_prod (=) same_json) ms ms' \<Longrightarrow> mset ms' = mset ms'' \<Longrightarrow>
    same_json (JObject ms) (JObject ms'')"

inductive_cases same_objectE: "same_json (JObject ms) j"
inductive_cases same_arrayE: "same_json (JArray js) j"

inductive_simps same_atoms [simp]:
  "same_json JNull j" "same_json (JBool b) j" "same_json (JInt i) j" "same_json (JString s) j"

type_synonym members = "(string \<times> json) list"

abbreviation same_members :: "members \<Rightarrow> members \<Rightarrow> bool" where
  "same_members \<equiv> list_all2 (rel_prod (=) same_json)"

lemma same_members_refl: "same_members ms ms"
  by (auto intro!: list_all2_refl same_refl)

lemma same_objectD:
  assumes "same_json (JObject ms) j"
  obtains ms' ms'' where "j = JObject ms''" "same_members ms ms'" "mset ms' = mset ms''"
  using assms by (cases rule: same_objectE) (use same_members_refl in blast)+

lemma same_strings: "same_json (JArray (map JString xs)) j \<longleftrightarrow> j = JArray (map JString xs)"
proof -
  have "list_all2 same_json (map JString xs) js \<Longrightarrow> js = map JString xs" for js
    by (induction xs arbitrary: js) (auto simp: list_all2_Cons1)
  then show ?thesis
    by (auto elim: same_arrayE intro: same_refl)
qed

lemma same_members_keys: "same_members ms ms' \<Longrightarrow> map fst ms' = map fst ms"
  by (induction rule: list_all2_induct) auto

section \<open>Decoding\<close>

text \<open>A decoder gets the value that is there: null leaves a plain value as it is.\<close>

type_synonym 'v dec = "json \<Rightarrow> 'v \<Rightarrow> liberr + 'v"

definition unmarshal_type_error :: liberr where
  "unmarshal_type_error = ''json: cannot unmarshal''"

definition dec_string :: "string dec" where
  "dec_string j v = (case j of JNull \<Rightarrow> Inr v | JString s \<Rightarrow> Inr s | _ \<Rightarrow> Inl unmarshal_type_error)"

definition dec_bool :: "bool dec" where
  "dec_bool j v = (case j of JNull \<Rightarrow> Inr v | JBool b \<Rightarrow> Inr b | _ \<Rightarrow> Inl unmarshal_type_error)"

text \<open>An \<open>int\<close> has 64 bits.\<close>

definition dec_int :: "int dec" where
  "dec_int j v =
     (case j of
        JNull \<Rightarrow> Inr v
      | JInt i \<Rightarrow> if - (2 ^ 63) \<le> i \<and> i < 2 ^ 63 then Inr i else Inl unmarshal_type_error
      | _ \<Rightarrow> Inl unmarshal_type_error)"

text \<open>A pointer: null sets it to nil; otherwise its target, a new one if it is nil, is decoded.\<close>

definition dec_pointer :: "'v \<Rightarrow> 'v dec \<Rightarrow> 'v option dec" where
  "dec_pointer zero d j v =
     (case j of
        JNull \<Rightarrow> Inr None
      | _ \<Rightarrow> (case d j (case v of None \<Rightarrow> zero | Some x \<Rightarrow> x) of Inl e \<Rightarrow> Inl e | Inr x \<Rightarrow> Inr (Some x)))"

fun dec_elements :: "'v \<Rightarrow> 'v dec \<Rightarrow> json list \<Rightarrow> liberr + 'v list" where
  "dec_elements zero d [] = Inr []"
| "dec_elements zero d (j # js) =
     (case d j zero of
        Inl e \<Rightarrow> Inl e
      | Inr x \<Rightarrow> (case dec_elements zero d js of Inl e \<Rightarrow> Inl e | Inr xs \<Rightarrow> Inr (x # xs)))"

definition dec_slice :: "'v \<Rightarrow> 'v dec \<Rightarrow> 'v list dec" where
  "dec_slice zero d j v =
     (case j of JNull \<Rightarrow> Inr [] | JArray js \<Rightarrow> dec_elements zero d js | _ \<Rightarrow> Inl unmarshal_type_error)"

text \<open>
  The names of members are compared exactly, then with their case folded: besides the ASCII letters, the
  long s and the Kelvin sign fold to ASCII.
\<close>

definition upper :: "char \<Rightarrow> char" where
  "upper c = (let n = of_char c :: nat in if 97 \<le> n \<and> n \<le> 122 then char_of (n - 32) else c)"

fun fold_name :: "string \<Rightarrow> string" where
  "fold_name [] = []"
| "fold_name (c # cs) =
     (case cs of
        d # ds \<Rightarrow>
          if of_char c = (197 :: nat) \<and> of_char d = (191 :: nat) then CHR ''S'' # fold_name ds
          else
            (case ds of
               e # es \<Rightarrow>
                 if of_char c = (226 :: nat) \<and> of_char d = (132 :: nat) \<and> of_char e = (170 :: nat)
                 then CHR ''K'' # fold_name es else upper c # fold_name cs
             | [] \<Rightarrow> upper c # fold_name cs)
      | [] \<Rightarrow> upper c # fold_name cs)"

type_synonym 'r fields = "(string \<times> 'r dec) list"

definition find_field :: "'r fields \<Rightarrow> string \<Rightarrow> 'r dec option" where
  "find_field fs k =
     (case map_of fs k of
        Some g \<Rightarrow> Some g
      | None \<Rightarrow> map_option snd (find (\<lambda>(n, g). fold_name n = fold_name k) fs))"

text \<open>The members of an object, in order; unknown ones are skipped.\<close>

fun decode_members :: "'r fields \<Rightarrow> members \<Rightarrow> 'r \<Rightarrow> liberr + 'r" where
  "decode_members fs [] r = Inr r"
| "decode_members fs ((k, j) # ms) r =
     (case find_field fs k of
        None \<Rightarrow> decode_members fs ms r
      | Some g \<Rightarrow> (case g j r of Inl e \<Rightarrow> Inl e | Inr r' \<Rightarrow> decode_members fs ms r'))"

definition dec_struct :: "'r fields \<Rightarrow> 'r dec" where
  "dec_struct fs j r =
     (case j of JNull \<Rightarrow> Inr r | JObject ms \<Rightarrow> decode_members fs ms r | _ \<Rightarrow> Inl unmarshal_type_error)"

text \<open>A field of a struct.\<close>

definition field :: "('r \<Rightarrow> 'v) \<Rightarrow> ('v \<Rightarrow> 'r \<Rightarrow> 'r) \<Rightarrow> 'v dec \<Rightarrow> 'r dec" where
  "field get set' d j r = (case d j (get r) of Inl e \<Rightarrow> Inl e | Inr v \<Rightarrow> Inr (set' v r))"

text \<open>The fields of an embedded struct are fields of the outer one.\<close>

definition promoted :: "('r \<Rightarrow> 'v) \<Rightarrow> ('v \<Rightarrow> 'r \<Rightarrow> 'r) \<Rightarrow> 'v fields \<Rightarrow> 'r fields" where
  "promoted get set' fs = map (\<lambda>(n, g). (n, field get set' g)) fs"

text \<open>The members an encoder leaves out under \<open>omitempty\<close>.\<close>

definition omit_empty :: "bool \<Rightarrow> string \<Rightarrow> json \<Rightarrow> members" where
  "omit_empty is_zero k j = (if is_zero then [] else [(k, j)])"

definition omit_nil :: "string \<Rightarrow> ('v \<Rightarrow> json) \<Rightarrow> 'v option \<Rightarrow> members" where
  "omit_nil k enc v = (case v of None \<Rightarrow> [] | Some x \<Rightarrow> [(k, enc x)])"

section \<open>The contract of a struct\<close>

definition independent :: "'r dec \<Rightarrow> 'r dec \<Rightarrow> bool" where
  "independent g g' \<longleftrightarrow>
     (\<forall>j j' r r1 r2. g j r = Inr r1 \<longrightarrow> g' j' r1 = Inr r2 \<longrightarrow> (\<exists>s. g' j' r = Inr s \<and> g j s = Inr r2))"

lemma decode_members_append:
  "decode_members fs (ms @ ms') r =
     (case decode_members fs ms r of Inl e \<Rightarrow> Inl e | Inr r' \<Rightarrow> decode_members fs ms' r')"
  by (induction fs ms r rule: decode_members.induct) (auto split: option.split sum.split)

lemma find_field_known: "map_of fs k = Some g \<Longrightarrow> find_field fs k = Some g"
  by (simp add: find_field_def)

locale struct_codec =
  fixes enc :: "'r \<Rightarrow> members"
    and fs :: "'r fields"
    and zero :: 'r
    and ok :: "'r \<Rightarrow> bool"
  assumes names: "distinct (map fst fs)"
    and keys: "distinct (map fst (enc v))" "fst ` set (enc v) \<subseteq> fst ` set fs"
    and fields_independent: "(k, g) \<in> set fs \<Longrightarrow> (k', g') \<in> set fs \<Longrightarrow> k \<noteq> k' \<Longrightarrow> independent g g'"
    and in_order: "ok v \<Longrightarrow> same_members (enc v) ms \<Longrightarrow> decode_members fs ms zero = Inr v"
begin

lemma known: "k \<in> fst ` set fs \<Longrightarrow> \<exists>g. (k, g) \<in> set fs \<and> find_field fs k = Some g"
  using names by (fastforce intro: find_field_known)

lemma swap_members:
  assumes "decode_members fs ((k, j) # (k', j') # ms) r = Inr r'"
    and "k \<noteq> k'" and "k \<in> fst ` set fs" and "k' \<in> fst ` set fs"
  shows "decode_members fs ((k', j') # (k, j) # ms) r = Inr r'"
proof -
  from known [OF assms(3)] known [OF assms(4)] obtain g g' where
    g: "(k, g) \<in> set fs" "find_field fs k = Some g" "(k', g') \<in> set fs" "find_field fs k' = Some g'"
    by blast
  with assms(1) obtain r1 r2 where "g j r = Inr r1" "g' j' r1 = Inr r2" "decode_members fs ms r2 = Inr r'"
    by (auto split: sum.splits)
  with fields_independent [OF g(1,3) assms(2)] g show ?thesis
    by (fastforce simp: independent_def)
qed

lemma move_member:
  assumes "decode_members fs (x # ms @ ms') r = Inr r'"
    and "distinct (map fst (x # ms))" and "fst ` set (x # ms) \<subseteq> fst ` set fs"
  shows "decode_members fs (ms @ x # ms') r = Inr r'"
  using assms
proof (induction ms arbitrary: r)
  case (Cons y ms)
  obtain k j k' j' where xy: "x = (k, j)" "y = (k', j')"
    by fastforce
  have "decode_members fs ((k, j) # (k', j') # (ms @ ms')) r = Inr r'" "k \<noteq> k'"
      "k \<in> fst ` set fs" "k' \<in> fst ` set fs"
    using Cons.prems by (auto simp: xy)
  from swap_members [OF this] known [OF this(4)] obtain g r1 where
    g: "find_field fs k' = Some g" "g j' r = Inr r1" "decode_members fs (x # ms @ ms') r1 = Inr r'"
    by (auto simp: xy split: sum.splits)
  from Cons.IH [OF g(3)] Cons.prems(2,3) g show ?case
    by (simp add: xy)
qed simp

lemma any_order:
  assumes "decode_members fs ms r = Inr r'" and "mset ms = mset ms'"
    and "distinct (map fst ms)" and "fst ` set ms \<subseteq> fst ` set fs"
  shows "decode_members fs ms' r = Inr r'"
  using assms
proof (induction ms arbitrary: ms' r)
  case (Cons x ms)
  from Cons.prems(2) have "x \<in> set ms'"
    by (metis list.set_intros(1) mset_eq_setD)
  then obtain as bs where ms': "ms' = as @ x # bs"
    by (meson split_list)
  with Cons.prems(2) have perm: "mset ms = mset (as @ bs)"
    by simp
  obtain k j where x: "x = (k, j)"
    by fastforce
  with Cons.prems(4) known [of k] obtain g where g: "find_field fs k = Some g"
    by auto
  with Cons.prems(1) obtain r1 where r1: "g j r = Inr r1" "decode_members fs ms r1 = Inr r'"
    by (auto simp: x split: sum.splits)
  from Cons.IH [OF r1(2) perm] Cons.prems(3,4) have "decode_members fs (x # as @ bs) r = Inr r'"
    by (simp add: x g r1)
  moreover have "mset (map fst (x # ms)) = mset (map fst ms')"
    using Cons.prems(2) by (metis mset_map)
  with Cons.prems(3) have "distinct (map fst ms')"
    by (metis mset_eq_imp_distinct_iff)
  then have "distinct (map fst (x # as))"
    by (auto simp: ms')
  moreover have "set (x # as) \<subseteq> set (x # ms)"
    using mset_eq_setD [OF Cons.prems(2)] by (auto simp: ms')
  then have "fst ` set (x # as) \<subseteq> fst ` set fs"
    using Cons.prems(4) by (meson image_mono subset_trans)
  ultimately show ?case
    unfolding ms' by (rule move_member)
qed simp

lemma decodes: "ok v \<Longrightarrow> same_json (JObject (enc v)) j \<Longrightarrow> dec_struct fs j zero = Inr v"
proof (erule same_objectD)
  fix ms ms'
  assume v: "ok v" and j: "j = JObject ms'" and same: "same_members (enc v) ms" and perm: "mset ms = mset ms'"
  from same_members_keys [OF same] keys [of v] have "distinct (map fst ms)" "fst ` set ms \<subseteq> fst ` set fs"
    by (metis, metis set_map)
  from any_order [OF in_order [OF v same] perm this] show ?thesis
    by (simp add: j dec_struct_def)
qed

lemma decodes_pointer: "ok v \<Longrightarrow> same_json (JObject (enc v)) j \<Longrightarrow> dec_pointer zero (dec_struct fs) j None = Inr (Some v)"
  by (frule decodes) (auto simp: dec_pointer_def elim!: same_objectE)

end

lemma independent_field:
  assumes "\<And>v r. get' (set1 v r) = get' r" and "\<And>v r. get (set2 v r) = get r"
    and "\<And>v w r. set2 w (set1 v r) = set1 v (set2 w r)"
  shows "independent (field get set1 d) (field get' set2 d')"
  using assms by (auto simp: independent_def field_def split: sum.splits)

text \<open>Independence of all fields of a table, pair by pair.\<close>

definition pairwise_independent :: "'r fields \<Rightarrow> bool" where
  "pairwise_independent fs \<longleftrightarrow> sorted_wrt (\<lambda>x y. independent (snd x) (snd y) \<and> independent (snd y) (snd x)) fs"

lemma pairwise_independent_simps [simp]:
  "pairwise_independent []"
  "pairwise_independent ((k, g) # fs) \<longleftrightarrow>
     (\<forall>(k', g') \<in> set fs. independent g g' \<and> independent g' g) \<and> pairwise_independent fs"
  by (auto simp: pairwise_independent_def)

lemma pairwise_independentD:
  "pairwise_independent fs \<Longrightarrow> (k, g) \<in> set fs \<Longrightarrow> (k', g') \<in> set fs \<Longrightarrow> k \<noteq> k' \<Longrightarrow> independent g g'"
  by (induction fs) auto

section \<open>The structs of the repository\<close>

definition int_ok :: "int \<Rightarrow> bool" where
  "int_ok i \<longleftrightarrow> - (2 ^ 63) \<le> i \<and> i < 2 ^ 63"

subsection \<open>pkg/host/types.go\<close>

definition DeviceSpec_members :: "DeviceSpec \<Rightarrow> members" where
  "DeviceSpec_members s =
     [(''interfaceName'', JString (InterfaceName s)), (''interfaceIndex'', JInt (InterfaceIndex s)),
      (''rdmaCapable'', JBool (RDMACapable s)), (''parentIndex'', JInt (ParentIndex s)),
      (''masterIndex'', JInt (MasterIndex s)), (''linkLayerType'', JString (LinkLayerType s)),
      (''deviceType'', JString (hs_DeviceType s))]"

definition DeviceSpec_fields :: "DeviceSpec fields" where
  "DeviceSpec_fields =
     [(''interfaceName'', field InterfaceName (\<lambda>v r. r\<lparr>InterfaceName := v\<rparr>) dec_string),
      (''interfaceIndex'', field InterfaceIndex (\<lambda>v r. r\<lparr>InterfaceIndex := v\<rparr>) dec_int),
      (''rdmaCapable'', field RDMACapable (\<lambda>v r. r\<lparr>RDMACapable := v\<rparr>) dec_bool),
      (''parentIndex'', field ParentIndex (\<lambda>v r. r\<lparr>ParentIndex := v\<rparr>) dec_int),
      (''masterIndex'', field MasterIndex (\<lambda>v r. r\<lparr>MasterIndex := v\<rparr>) dec_int),
      (''linkLayerType'', field LinkLayerType (\<lambda>v r. r\<lparr>LinkLayerType := v\<rparr>) dec_string),
      (''deviceType'', field hs_DeviceType (\<lambda>v r. r\<lparr>hs_DeviceType := v\<rparr>) dec_string)]"

definition DeviceSpec_zero :: DeviceSpec where
  "DeviceSpec_zero = \<lparr>InterfaceName = [], InterfaceIndex = 0, RDMACapable = False, ParentIndex = 0,
     MasterIndex = 0, LinkLayerType = [], hs_DeviceType = []\<rparr>"

definition DeviceSpec_ok :: "DeviceSpec \<Rightarrow> bool" where
  "DeviceSpec_ok s \<longleftrightarrow> int_ok (InterfaceIndex s) \<and> int_ok (ParentIndex s) \<and> int_ok (MasterIndex s)"

lemmas dec_simps = dec_string_def dec_bool_def dec_int_def field_def find_field_def

lemma same_members_Cons: "same_members ((k, j) # ms) ms' \<longleftrightarrow>
    (\<exists>j' ms''. ms' = (k, j') # ms'' \<and> same_json j j' \<and> same_members ms ms'')"
  by (auto simp: list_all2_Cons1)

interpretation device_spec: struct_codec DeviceSpec_members DeviceSpec_fields DeviceSpec_zero DeviceSpec_ok
proof
  show "decode_members DeviceSpec_fields ms DeviceSpec_zero = Inr v"
    if "DeviceSpec_ok v" "same_members (DeviceSpec_members v) ms" for v ms
    using that by (auto simp: DeviceSpec_members_def DeviceSpec_fields_def DeviceSpec_zero_def DeviceSpec_ok_def
        int_ok_def same_members_Cons dec_simps)
  have "pairwise_independent DeviceSpec_fields"
    by (simp add: DeviceSpec_fields_def independent_field)
  then show "independent g g'" if "(k, g) \<in> set DeviceSpec_fields" "(k', g') \<in> set DeviceSpec_fields" "k \<noteq> k'" for k g k' g'
    using that by (rule pairwise_independentD)
qed (auto simp: DeviceSpec_members_def DeviceSpec_fields_def)

subsection \<open>apis/v1alpha1/types.go\<close>

definition Macvlan_members :: "MacvlanConfig \<Rightarrow> members" where
  "Macvlan_members m = omit_nil ''mode'' JString (Mode m)"

definition Macvlan_fields :: "MacvlanConfig fields" where
  "Macvlan_fields = [(''mode'', field Mode (\<lambda>v r. r\<lparr>Mode := v\<rparr>) (dec_pointer [] dec_string))]"

definition Macvlan_zero :: MacvlanConfig where
  "Macvlan_zero = \<lparr>Mode = None\<rparr>"

interpretation macvlan_json: struct_codec Macvlan_members Macvlan_fields Macvlan_zero "\<lambda>m. True"
proof
  show "decode_members Macvlan_fields ms Macvlan_zero = Inr v" if "same_members (Macvlan_members v) ms" for v ms
    using that by (auto simp: Macvlan_members_def Macvlan_fields_def Macvlan_zero_def omit_nil_def
        same_members_Cons dec_simps dec_pointer_def split: option.splits)
qed (auto simp: Macvlan_members_def Macvlan_fields_def omit_nil_def split: option.split)

text \<open>The host device configuration has no fields.\<close>

definition HostDevice_members :: "HostDeviceConfig \<Rightarrow> members" where
  "HostDevice_members h = []"

definition HostDevice_fields :: "HostDeviceConfig fields" where
  "HostDevice_fields = []"

definition HostDevice_zero :: HostDeviceConfig where
  "HostDevice_zero = HostDeviceConfig"

interpretation host_device_json: struct_codec HostDevice_members HostDevice_fields HostDevice_zero "\<lambda>h. True"
proof
  show "decode_members HostDevice_fields ms HostDevice_zero = Inr v" if "same_members (HostDevice_members v) ms" for v ms
    using that by (cases v) (auto simp: HostDevice_members_def HostDevice_zero_def)
qed (auto simp: HostDevice_members_def HostDevice_fields_def)

definition DeviceConfiguration_members :: "DeviceConfiguration \<Rightarrow> members" where
  "DeviceConfiguration_members c =
     omit_empty (dc_Name c = []) ''name'' (JString (dc_Name c)) @
     omit_empty (dc_DeviceSelectors c = []) ''deviceSelectors'' (JArray (map JString (dc_DeviceSelectors c))) @
     omit_nil ''deviceType'' JString (dc_DeviceType c) @
     omit_nil ''macvlan'' (\<lambda>m. JObject (Macvlan_members m)) (dc_Macvlan c) @
     omit_nil ''hostDevice'' (\<lambda>h. JObject (HostDevice_members h)) (dc_HostDevice c)"

definition DeviceConfiguration_fields :: "DeviceConfiguration fields" where
  "DeviceConfiguration_fields =
     [(''name'', field dc_Name (\<lambda>v r. r\<lparr>dc_Name := v\<rparr>) dec_string),
      (''deviceSelectors'', field dc_DeviceSelectors (\<lambda>v r. r\<lparr>dc_DeviceSelectors := v\<rparr>) (dec_slice [] dec_string)),
      (''deviceType'', field dc_DeviceType (\<lambda>v r. r\<lparr>dc_DeviceType := v\<rparr>) (dec_pointer [] dec_string)),
      (''macvlan'', field dc_Macvlan (\<lambda>v r. r\<lparr>dc_Macvlan := v\<rparr>) (dec_pointer Macvlan_zero (dec_struct Macvlan_fields))),
      (''hostDevice'', field dc_HostDevice (\<lambda>v r. r\<lparr>dc_HostDevice := v\<rparr>)
         (dec_pointer HostDevice_zero (dec_struct HostDevice_fields)))]"

definition DeviceConfiguration_zero :: DeviceConfiguration where
  "DeviceConfiguration_zero = \<lparr>dc_Name = [], dc_DeviceSelectors = [], dc_DeviceType = None, dc_Macvlan = None,
     dc_HostDevice = None\<rparr>"

text \<open>The same members, one field at a time.\<close>

lemma same_members_append: "same_members (ms @ ms') xs \<longleftrightarrow>
    (\<exists>ys zs. xs = ys @ zs \<and> same_members ms ys \<and> same_members ms' zs)"
  by (simp add: list_all2_append1, blast dest: list_all2_lengthD [symmetric])

lemma same_omit_empty: "same_members (omit_empty z k j) ms \<longleftrightarrow>
    (if z then ms = [] else \<exists>j'. ms = [(k, j')] \<and> same_json j j')"
  by (auto simp: omit_empty_def same_members_Cons)

lemma same_omit_nil: "same_members (omit_nil k e v) ms \<longleftrightarrow>
    (case v of None \<Rightarrow> ms = [] | Some x \<Rightarrow> \<exists>j'. ms = [(k, j')] \<and> same_json (e x) j')"
  by (auto simp: omit_nil_def same_members_Cons split: option.split)

lemmas same_simps = same_members_append same_omit_empty same_omit_nil same_strings

lemma dec_elements_strings: "dec_elements [] dec_string (map JString xs) = Inr xs"
  by (induction xs) (simp_all add: dec_string_def)

lemma DeviceConfiguration_in_order:
  assumes "same_members (DeviceConfiguration_members c) ms"
  shows "decode_members DeviceConfiguration_fields ms DeviceConfiguration_zero = Inr c"
proof -
  from assms obtain a1 a2 a3 a4 a5 where ms: "ms = a1 @ a2 @ a3 @ a4 @ a5"
    and a: "same_members (omit_empty (dc_Name c = []) ''name'' (JString (dc_Name c))) a1"
      "same_members (omit_empty (dc_DeviceSelectors c = []) ''deviceSelectors''
         (JArray (map JString (dc_DeviceSelectors c)))) a2"
      "same_members (omit_nil ''deviceType'' JString (dc_DeviceType c)) a3"
      "same_members (omit_nil ''macvlan'' (\<lambda>m. JObject (Macvlan_members m)) (dc_Macvlan c)) a4"
      "same_members (omit_nil ''hostDevice'' (\<lambda>h. JObject (HostDevice_members h)) (dc_HostDevice c)) a5"
    by (auto simp: DeviceConfiguration_members_def same_members_append)
  let ?d = "decode_members DeviceConfiguration_fields"
  have "?d a1 r = Inr (if dc_Name c = [] then r else r\<lparr>dc_Name := dc_Name c\<rparr>)" for r
    using a(1) by (auto simp: same_simps DeviceConfiguration_fields_def dec_simps split: if_splits)
  moreover have "?d a2 r = Inr (if dc_DeviceSelectors c = [] then r else r\<lparr>dc_DeviceSelectors := dc_DeviceSelectors c\<rparr>)" for r
    using a(2) by (auto simp: same_simps DeviceConfiguration_fields_def dec_simps dec_slice_def dec_elements_strings
        split: if_splits)
  moreover have "?d a3 r = Inr (r\<lparr>dc_DeviceType := dc_DeviceType c\<rparr>)" if "dc_DeviceType r = None" for r
    using a(3) that by (auto simp: same_simps DeviceConfiguration_fields_def dec_simps dec_pointer_def split: option.splits)
  moreover have "?d a4 r = Inr (r\<lparr>dc_Macvlan := dc_Macvlan c\<rparr>)" if "dc_Macvlan r = None" for r
    using a(4) that macvlan_json.decodes_pointer [OF TrueI]
    by (auto simp: same_simps DeviceConfiguration_fields_def field_def find_field_def split: option.splits)
  moreover have "?d a5 r = Inr (r\<lparr>dc_HostDevice := dc_HostDevice c\<rparr>)" if "dc_HostDevice r = None" for r
    using a(5) that host_device_json.decodes_pointer [OF TrueI]
    by (auto simp: same_simps DeviceConfiguration_fields_def field_def find_field_def split: option.splits)
  ultimately show ?thesis
    by (simp add: ms decode_members_append DeviceConfiguration_zero_def)
qed

interpretation device_configuration_json: struct_codec DeviceConfiguration_members DeviceConfiguration_fields
    DeviceConfiguration_zero "\<lambda>c. True"
proof
  have "pairwise_independent DeviceConfiguration_fields"
    by (simp add: DeviceConfiguration_fields_def independent_field)
  then show "independent g g'" if "(k, g) \<in> set DeviceConfiguration_fields" "(k', g') \<in> set DeviceConfiguration_fields" "k \<noteq> k'" for k g k' g'
    using that by (rule pairwise_independentD)
  show "decode_members DeviceConfiguration_fields ms DeviceConfiguration_zero = Inr c"
    if "same_members (DeviceConfiguration_members c) ms" for c ms
    using that by (rule DeviceConfiguration_in_order)
qed (auto simp: DeviceConfiguration_members_def DeviceConfiguration_fields_def omit_empty_def omit_nil_def
    split: option.split)

section \<open>Embedded structs\<close>

lemma find_promoted:
  assumes "map_of fs k = Some g"
  shows "find_field (promoted get set' fs @ fs') k = Some (field get set' g)"
proof -
  have "map_of (promoted get set' fs) k = map_option (field get set') (map_of fs k)"
    by (induction fs) (auto simp: promoted_def)
  with assms show ?thesis
    by (simp add: find_field_def map_add_def)
qed

lemma find_own:
  assumes "map_of fs' k = Some g" and "k \<notin> fst ` set fs"
  shows "find_field (promoted get set' fs @ fs') k = Some g"
proof -
  have "map_of (promoted get set' fs) k = None"
    using assms(2) by (force simp: promoted_def map_of_eq_None_iff)
  with assms(1) show ?thesis
    by (simp add: find_field_def map_add_def)
qed

lemma decode_promoted:
  assumes "decode_members fs ms v = Inr v'" and "fst ` set ms \<subseteq> fst ` set fs" and "get r = v"
    and lens: "\<And>v r. get (set' v r) = v" "\<And>v w r. set' v (set' w r) = set' v r" "\<And>r. set' (get r) r = r"
  shows "decode_members (promoted get set' fs @ fs') ms r = Inr (set' v' r)"
  using assms(1-3)
proof (induction fs ms v arbitrary: r rule: decode_members.induct)
  case (1 fs v)
  then show ?case
    using lens(3) [of r] by simp
next
  case (2 fs k j ms v)
  from 2(4) have "k \<in> fst ` set fs"
    by simp
  then obtain g where g: "map_of fs k = Some g"
    by (metis map_of_eq_None_iff not_None_eq)
  note find = find_field_known [OF g] find_promoted [OF g, of get set' fs']
  from 2(3) find obtain v1 where v1: "g j v = Inr v1" "decode_members fs ms v1 = Inr v'"
    by (auto split: sum.splits)
  from 2(2) [OF find(1) v1(1,2)] 2(4) have "decode_members (promoted get set' fs @ fs') ms (set' v1 r) = Inr (set' v' (set' v1 r))"
    by (simp add: lens(1))
  then show ?case
    by (simp add: find field_def 2(5) v1(1) lens(2))
qed

lemma independent_promoted:
  assumes "independent g g'"
    and "\<And>v r. get (set' v r) = v" and "\<And>v w r. set' v (set' w r) = set' v r"
  shows "independent (field get set' g) (field get set' g')"
  unfolding independent_def
proof (intro allI impI)
  fix j j' r r1 r2
  assume "field get set' g j r = Inr r1" and "field get set' g' j' r1 = Inr r2"
  then obtain v1 v2 where v: "g j (get r) = Inr v1" "g' j' v1 = Inr v2" "r2 = set' v2 r"
    by (auto simp: field_def assms(2,3) split: sum.splits)
  with assms(1) obtain w where "g' j' (get r) = Inr w" "g j w = Inr v2"
    unfolding independent_def by blast
  then show "\<exists>s. field get set' g' j' r = Inr s \<and> field get set' g j s = Inr r2"
    by (simp add: field_def assms(2,3) v(3))
qed

lemma embedding_codec:
  assumes inner: "struct_codec e1 f1 zin (\<lambda>v. True)"
    and disjoint: "fst ` set f1 \<inter> fst ` set f2 = {}" and f2: "distinct (map fst f2)" "pairwise_independent f2"
    and lens: "\<And>v r. get (set' v r) = v" "\<And>v w r. set' v (set' w r) = set' v r" "\<And>r. set' (get r) r = r"
    and zero: "get zero = zin"
    and across: "\<And>k g d. (k, g) \<in> set f2 \<Longrightarrow> independent (field get set' d) g \<and> independent g (field get set' d)"
    and e2: "\<And>v. distinct (map fst (e2 v))" "\<And>v. fst ` set (e2 v) \<subseteq> fst ` set f2"
    and own: "\<And>v ms. ok v \<Longrightarrow> same_members (e2 v) ms \<Longrightarrow>
      decode_members (promoted get set' f1 @ f2) ms (set' (get v) zero) = Inr v"
  shows "struct_codec (\<lambda>v. e1 (get v) @ e2 v) (promoted get set' f1 @ f2) zero ok"
proof
  have fst_promoted: "fst ` set (promoted get set' f1) = fst ` set f1" "map fst (promoted get set' f1) = map fst f1"
    by (force simp: promoted_def)+
  note e1 = struct_codec.keys [OF inner]
  show "distinct (map fst (promoted get set' f1 @ f2))"
    using disjoint f2(1) struct_codec.names [OF inner] by (simp add: fst_promoted)
  show "distinct (map fst (e1 (get v) @ e2 v))" for v
    using e1 [of "get v"] e2 [of v] disjoint by (simp, blast)
  show "fst ` set (e1 (get v) @ e2 v) \<subseteq> fst ` set (promoted get set' f1 @ f2)" for v
    using e1(2) [of "get v"] e2(2) [of v] unfolding set_append image_Un fst_promoted by blast
  show "independent g g'"
    if kg: "(k, g) \<in> set (promoted get set' f1 @ f2)" "(k', g') \<in> set (promoted get set' f1 @ f2)" "k \<noteq> k'"
    for k g k' g'
  proof -
    have inner_field: "\<exists>d. (k, d) \<in> set f1 \<and> g = field get set' d" if "(k, g) \<in> set (promoted get set' f1)" for k g
      using that by (auto simp: promoted_def)
    from kg(1,2)[unfolded set_append Un_iff] inner_field [of k g] inner_field [of k' g'] consider
      (inner) d d' where "(k, d) \<in> set f1" "g = field get set' d" "(k', d') \<in> set f1" "g' = field get set' d'"
      | (left) d where "g = field get set' d" "(k', g') \<in> set f2"
      | (right) d where "(k, g) \<in> set f2" "g' = field get set' d"
      | (own) "(k, g) \<in> set f2" "(k', g') \<in> set f2"
      by blast
    then show ?thesis
    proof cases
      case inner
      then show ?thesis
        using struct_codec.fields_independent [OF assms(1) inner(1,3) kg(3)] independent_promoted [OF _ lens(1,2)]
        by simp
    qed (use across pairwise_independentD [OF f2(2) _ _ kg(3)] in blast)+
  qed
  show "decode_members (promoted get set' f1 @ f2) ms zero = Inr v"
    if "ok v" "same_members (e1 (get v) @ e2 v) ms" for v ms
  proof -
    from that(2) obtain ms1 ms2 where ms: "ms = ms1 @ ms2" "same_members (e1 (get v)) ms1" "same_members (e2 v) ms2"
      by (auto simp: same_members_append)
    have "fst ` set ms1 \<subseteq> fst ` set f1"
      using same_members_keys [OF ms(2)] e1(2) [of "get v"] by (metis set_map)
    with decode_promoted [OF struct_codec.in_order [OF inner TrueI ms(2)] _ zero lens]
    have "decode_members (promoted get set' f1 @ f2) ms1 zero = Inr (set' (get v) zero)"
      by simp
    with own [OF that(1) ms(3)] show ?thesis
      by (simp add: ms(1) decode_members_append)
  qed
qed

section \<open>Structs with parts of other repositories\<close>

record 'v struct_json =
  sj_members :: "'v \<Rightarrow> members"
  sj_fields :: "'v fields"

text \<open>\<open>DeviceStatus\<close> of the multi-network API, of which the code uses the pod network, and Kubernetes' own
  \<open>TypeMeta\<close> (kind and API version) and \<open>ObjectMeta\<close> (the name).\<close>

record foreign_json =
  fj_DeviceStatus :: "PodNetwork option struct_json"
  fj_TypeMeta :: "(string \<times> string) struct_json"
  fj_ObjectMeta :: "string struct_json"

definition struct_json_ok :: "'v struct_json \<Rightarrow> 'v \<Rightarrow> string set \<Rightarrow> bool" where
  "struct_json_ok sj zero outer \<longleftrightarrow>
     struct_codec (sj_members sj) (sj_fields sj) zero (\<lambda>v. True) \<and> fst ` set (sj_fields sj) \<inter> outer = {}"

definition foreign_json_ok :: "foreign_json \<Rightarrow> bool" where
  "foreign_json_ok F \<longleftrightarrow>
     struct_json_ok (fj_DeviceStatus F) None {''deviceConfiguration'', ''device''} \<and>
     struct_json_ok (fj_TypeMeta F) ([], []) {''metadata'', ''spec''} \<and>
     struct_json_ok (fj_ObjectMeta F) [] {}"

subsection \<open>The host device\<close>

definition Device_members :: "foreign_json \<Rightarrow> HostDevice \<Rightarrow> members" where
  "Device_members F h =
     sj_members (fj_TypeMeta F) (hd_Kind h, hd_APIVersion h) @
     [(''metadata'', JObject (sj_members (fj_ObjectMeta F) (hd_Name h))),
      (''spec'', JObject (DeviceSpec_members (hd_Spec h)))]"

definition Device_fields :: "foreign_json \<Rightarrow> HostDevice fields" where
  "Device_fields F =
     promoted (\<lambda>h. (hd_Kind h, hd_APIVersion h)) (\<lambda>(k, a) h. h\<lparr>hd_Kind := k, hd_APIVersion := a\<rparr>)
       (sj_fields (fj_TypeMeta F)) @
     [(''metadata'', field hd_Name (\<lambda>v r. r\<lparr>hd_Name := v\<rparr>) (dec_struct (sj_fields (fj_ObjectMeta F)))),
      (''spec'', field hd_Spec (\<lambda>v r. r\<lparr>hd_Spec := v\<rparr>) (dec_struct DeviceSpec_fields))]"

definition Device_zero :: HostDevice where
  "Device_zero = \<lparr>hd_Kind = [], hd_APIVersion = [], hd_Name = [], hd_Spec = DeviceSpec_zero\<rparr>"

definition Device_ok :: "HostDevice \<Rightarrow> bool" where
  "Device_ok h \<longleftrightarrow> DeviceSpec_ok (hd_Spec h)"

lemma Device_codec:
  assumes "foreign_json_ok F"
  shows "struct_codec (Device_members F) (Device_fields F) Device_zero Device_ok"
  unfolding Device_members_def Device_fields_def
proof (rule embedding_codec [where zin = "([], [])"])
  let ?own = "[(''metadata'', field hd_Name (\<lambda>v r. r\<lparr>hd_Name := v\<rparr>) (dec_struct (sj_fields (fj_ObjectMeta F)))),
    (''spec'', field hd_Spec (\<lambda>v r. r\<lparr>hd_Spec := v\<rparr>) (dec_struct DeviceSpec_fields))]"
  have meta: "struct_codec (sj_members (fj_ObjectMeta F)) (sj_fields (fj_ObjectMeta F)) [] (\<lambda>v. True)"
    and inner: "struct_json_ok (fj_TypeMeta F) ([], []) {''metadata'', ''spec''}"
    using assms by (simp_all add: foreign_json_ok_def struct_json_ok_def)
  from inner show "struct_codec (sj_members (fj_TypeMeta F)) (sj_fields (fj_TypeMeta F)) ([], []) (\<lambda>v. True)"
    and "fst ` set (sj_fields (fj_TypeMeta F)) \<inter> fst ` set ?own = {}"
    by (simp_all add: struct_json_ok_def)
  then have find: "find_field (promoted get set' (sj_fields (fj_TypeMeta F)) @ ?own) k = Some g"
    if "map_of ?own k = Some g" for get set' k g
    by (intro find_own that) (use that in \<open>auto split: if_splits\<close>)
  show "pairwise_independent ?own"
    by (simp add: independent_field)
  show "independent (field (\<lambda>h. (hd_Kind h, hd_APIVersion h)) (\<lambda>(k, a) h. h\<lparr>hd_Kind := k, hd_APIVersion := a\<rparr>) d) g \<and>
      independent g (field (\<lambda>h. (hd_Kind h, hd_APIVersion h)) (\<lambda>(k, a) h. h\<lparr>hd_Kind := k, hd_APIVersion := a\<rparr>) d)"
    if "(k, g) \<in> set ?own" for k g d
    using that by (auto intro!: independent_field)
  show "decode_members (promoted (\<lambda>h. (hd_Kind h, hd_APIVersion h))
        (\<lambda>(k, a) h. h\<lparr>hd_Kind := k, hd_APIVersion := a\<rparr>) (sj_fields (fj_TypeMeta F)) @ ?own) ms
      ((case (hd_Kind v, hd_APIVersion v) of (k, a) \<Rightarrow> \<lambda>h. h\<lparr>hd_Kind := k, hd_APIVersion := a\<rparr>) Device_zero) = Inr v"
    if "Device_ok v" "same_members [(''metadata'', JObject (sj_members (fj_ObjectMeta F) (hd_Name v))),
      (''spec'', JObject (DeviceSpec_members (hd_Spec v)))] ms" for v ms
  proof -
    from that(2) obtain m s where ms: "ms = [(''metadata'', m), (''spec'', s)]"
      and m: "same_json (JObject (sj_members (fj_ObjectMeta F) (hd_Name v))) m"
      and s: "same_json (JObject (DeviceSpec_members (hd_Spec v))) s"
      by (auto simp: same_members_Cons)
    from struct_codec.decodes [OF meta TrueI m] device_spec.decodes [OF that(1)[unfolded Device_ok_def] s]
    show ?thesis
      by (simp add: ms find field_def Device_zero_def)
  qed
qed (auto simp: Device_zero_def)

subsection \<open>The status data\<close>

definition StatusData_members :: "foreign_json \<Rightarrow> ResourceClaimDeviceStatusData \<Rightarrow> members" where
  "StatusData_members F d =
     sj_members (fj_DeviceStatus F) (sd_PodNetwork d) @
     omit_nil ''deviceConfiguration'' (\<lambda>c. JObject (DeviceConfiguration_members c)) (sd_DeviceConfiguration d) @
     omit_nil ''device'' (\<lambda>h. JObject (Device_members F h)) (sd_Device d)"

definition StatusData_fields :: "foreign_json \<Rightarrow> ResourceClaimDeviceStatusData fields" where
  "StatusData_fields F =
     promoted sd_PodNetwork (\<lambda>v d. d\<lparr>sd_PodNetwork := v\<rparr>) (sj_fields (fj_DeviceStatus F)) @
     [(''deviceConfiguration'', field sd_DeviceConfiguration (\<lambda>v d. d\<lparr>sd_DeviceConfiguration := v\<rparr>)
         (dec_pointer DeviceConfiguration_zero (dec_struct DeviceConfiguration_fields))),
      (''device'', field sd_Device (\<lambda>v d. d\<lparr>sd_Device := v\<rparr>)
         (dec_pointer Device_zero (dec_struct (Device_fields F))))]"

definition StatusData_zero :: ResourceClaimDeviceStatusData where
  "StatusData_zero = \<lparr>sd_PodNetwork = None, sd_DeviceConfiguration = None, sd_Device = None\<rparr>"

definition StatusData_ok :: "ResourceClaimDeviceStatusData \<Rightarrow> bool" where
  "StatusData_ok d \<longleftrightarrow> (case sd_Device d of None \<Rightarrow> True | Some h \<Rightarrow> Device_ok h)"

lemma StatusData_codec:
  assumes "foreign_json_ok F"
  shows "struct_codec (StatusData_members F) (StatusData_fields F) StatusData_zero StatusData_ok"
  unfolding StatusData_members_def StatusData_fields_def
proof (rule embedding_codec [where zin = None])
  let ?own = "[(''deviceConfiguration'', field sd_DeviceConfiguration (\<lambda>v d. d\<lparr>sd_DeviceConfiguration := v\<rparr>)
         (dec_pointer DeviceConfiguration_zero (dec_struct DeviceConfiguration_fields))),
      (''device'', field sd_Device (\<lambda>v d. d\<lparr>sd_Device := v\<rparr>)
         (dec_pointer Device_zero (dec_struct (Device_fields F))))]"
  have inner: "struct_json_ok (fj_DeviceStatus F) None {''deviceConfiguration'', ''device''}"
    using assms by (simp add: foreign_json_ok_def)
  then show "struct_codec (sj_members (fj_DeviceStatus F)) (sj_fields (fj_DeviceStatus F)) None (\<lambda>v. True)"
    and "fst ` set (sj_fields (fj_DeviceStatus F)) \<inter> fst ` set ?own = {}"
    by (simp_all add: struct_json_ok_def)
  then have find: "find_field (promoted get set' (sj_fields (fj_DeviceStatus F)) @ ?own) k = Some g"
    if "map_of ?own k = Some g" for get set' k g
    by (intro find_own that) (use that in \<open>auto split: if_splits\<close>)
  show "pairwise_independent ?own"
    by (simp add: independent_field)
  show "independent (field sd_PodNetwork (\<lambda>v d. d\<lparr>sd_PodNetwork := v\<rparr>) d) g \<and>
      independent g (field sd_PodNetwork (\<lambda>v d. d\<lparr>sd_PodNetwork := v\<rparr>) d)"
    if "(k, g) \<in> set ?own" for k g d
    using that by (auto intro!: independent_field)
  show "decode_members (promoted sd_PodNetwork (\<lambda>v d. d\<lparr>sd_PodNetwork := v\<rparr>) (sj_fields (fj_DeviceStatus F)) @ ?own) ms
      (StatusData_zero\<lparr>sd_PodNetwork := sd_PodNetwork v\<rparr>) = Inr v"
    if "StatusData_ok v"
      "same_members (omit_nil ''deviceConfiguration'' (\<lambda>c. JObject (DeviceConfiguration_members c)) (sd_DeviceConfiguration v) @
         omit_nil ''device'' (\<lambda>h. JObject (Device_members F h)) (sd_Device v)) ms" for v ms
  proof -
    note codecs = device_configuration_json.decodes_pointer [OF TrueI]
      struct_codec.decodes_pointer [OF Device_codec [OF assms]]
    from that show ?thesis
      by (cases "sd_DeviceConfiguration v"; cases "sd_Device v")
        (auto simp: same_simps find decode_members_append field_def StatusData_zero_def StatusData_ok_def codecs)
  qed
qed (auto simp: StatusData_zero_def omit_nil_def split: option.split)

section \<open>The status data written and read\<close>

definition enc_StatusData :: "foreign_json \<Rightarrow> ResourceClaimDeviceStatusData \<Rightarrow> json" where
  "enc_StatusData F d = JObject (StatusData_members F d)"

definition dec_StatusData :: "foreign_json \<Rightarrow> json \<Rightarrow> liberr + ResourceClaimDeviceStatusData" where
  "dec_StatusData F j = dec_struct (StatusData_fields F) j StatusData_zero"

lemma StatusData_survives:
  "foreign_json_ok F \<Longrightarrow> StatusData_ok d \<Longrightarrow> same_json (enc_StatusData F d) j \<Longrightarrow> dec_StatusData F j = Inr d"
  unfolding enc_StatusData_def dec_StatusData_def by (rule struct_codec.decodes [OF StatusData_codec])

end
