(* ===== verification/JsonText.thy ===== *)
theory JsonText
  imports Json GoNet
begin

text \<open>
  The text of JSON as \<open>encoding/json\<close> writes and reads it: \<open>Marshal\<close> escapes what is special in HTML and
  replaces what is not UTF-8, \<open>Unmarshal\<close> skips white space, accepts every escape and refuses more than
  10,000 nested arrays and objects. Strings are their bytes. The parser has fuel, one unit for each value
  or member; the length of the text is enough, since each of them takes a byte.
\<close>

section \<open>UTF-8\<close>

abbreviation byte :: "char \<Rightarrow> nat" where
  "byte c \<equiv> of_char c"

definition continuation :: "char \<Rightarrow> bool" where
  "continuation c \<longleftrightarrow> 128 \<le> byte c \<and> byte c \<le> 191"

definition second_ok :: "nat \<Rightarrow> char \<Rightarrow> bool" where
  "second_ok n c \<longleftrightarrow>
     (if n = 224 then 160 else if n = 240 then 144 else 128) \<le> byte c \<and>
     byte c \<le> (if n = 237 then 159 else if n = 244 then 143 else 191)"

text \<open>The number of bytes of the valid rune in front, 0 when there is none.\<close>

fun rune_len :: "string \<Rightarrow> nat" where
  "rune_len [] = 0"
| "rune_len (c # cs) =
     (let n = byte c in
      if n < 128 then 1
      else if 194 \<le> n \<and> n \<le> 223 then
        (case cs of d # _ \<Rightarrow> if continuation d then 2 else 0 | _ \<Rightarrow> 0)
      else if 224 \<le> n \<and> n \<le> 239 then
        (case cs of d # e # _ \<Rightarrow> if second_ok n d \<and> continuation e then 3 else 0 | _ \<Rightarrow> 0)
      else if 240 \<le> n \<and> n \<le> 244 then
        (case cs of d # e # f # _ \<Rightarrow> if second_ok n d \<and> continuation e \<and> continuation f then 4 else 0 | _ \<Rightarrow> 0)
      else 0)"

lemma rune_len_cases:
  assumes "rune_len s = Suc n"
  obtains (one) c cs where "s = c # cs" "byte c < 128" "n = 0"
  | (two) c d cs where "s = c # d # cs" "194 \<le> byte c" "byte c \<le> 223" "continuation d" "n = 1"
  | (three) c d e cs where "s = c # d # e # cs" "224 \<le> byte c" "byte c \<le> 239" "second_ok (byte c) d"
      "continuation e" "n = 2"
  | (four) c d e f cs where "s = c # d # e # f # cs" "240 \<le> byte c" "byte c \<le> 244" "second_ok (byte c) d"
      "continuation e" "continuation f" "n = 3"
proof (cases s)
  case (Cons c cs)
  note rune = assms [unfolded Cons rune_len.simps Let_def]
  consider "byte c < 128" | "\<not> byte c < 128" "194 \<le> byte c \<and> byte c \<le> 223"
    | "\<not> byte c < 128" "\<not> (194 \<le> byte c \<and> byte c \<le> 223)" "224 \<le> byte c \<and> byte c \<le> 239"
    | "\<not> byte c < 128" "\<not> (194 \<le> byte c \<and> byte c \<le> 223)" "\<not> (224 \<le> byte c \<and> byte c \<le> 239)"
      "240 \<le> byte c \<and> byte c \<le> 244"
    using rune by (force split: if_splits)
  then show thesis
  proof cases
    case 1
    with rune Cons one show thesis
      by simp
  next
    case 2
    with rune Cons two show thesis
      by (simp split: list.splits if_splits)
  next
    case 3
    with rune Cons three show thesis
      by (simp split: list.splits if_splits)
  next
    case 4
    with rune Cons four show thesis
      by (simp split: list.splits if_splits)
  qed
qed (use assms in simp)

lemma rune_len_simps:
  "byte c < 128 \<Longrightarrow> rune_len (c # cs) = 1"
  "194 \<le> byte c \<Longrightarrow> byte c \<le> 223 \<Longrightarrow> continuation d \<Longrightarrow> rune_len (c # d # cs) = 2"
  "224 \<le> byte c \<Longrightarrow> byte c \<le> 239 \<Longrightarrow> second_ok (byte c) d \<Longrightarrow> continuation e \<Longrightarrow> rune_len (c # d # e # cs) = 3"
  "240 \<le> byte c \<Longrightarrow> byte c \<le> 244 \<Longrightarrow> second_ok (byte c) d \<Longrightarrow> continuation e \<Longrightarrow> continuation f \<Longrightarrow>
     rune_len (c # d # e # f # cs) = 4"
  by simp_all

lemma rune_len_take:
  assumes "rune_len s = Suc n"
  shows "rune_len (take (Suc n) s @ t) = Suc n"
  using assms by (cases rule: rune_len_cases) (simp_all add: rune_len_simps del: rune_len.simps)

lemma rune_len_length: "rune_len s = Suc n \<Longrightarrow> length (take (Suc n) s) = Suc n"
  by (erule rune_len_cases) simp_all

function valid_utf8 :: "string \<Rightarrow> bool" where
  "valid_utf8 s =
     (if s = [] then True else if rune_len s = 0 then False else valid_utf8 (drop (rune_len s) s))"
  by auto
termination valid_utf8
  by (relation "measure length") auto

declare valid_utf8.simps [simp del]

text \<open>The bytes of a rune.\<close>

definition utf8_encode :: "nat \<Rightarrow> string" where
  "utf8_encode r =
     (if r < 128 then [char_of r]
      else if r < 2048 then [char_of (192 + r div 64), char_of (128 + r mod 64)]
      else if r < 65536 then [char_of (224 + r div 4096), char_of (128 + r div 64 mod 64), char_of (128 + r mod 64)]
      else [char_of (240 + r div 262144), char_of (128 + r div 4096 mod 64), char_of (128 + r div 64 mod 64),
            char_of (128 + r mod 64)])"

definition replacement :: string where
  "replacement = utf8_encode 65533"

section \<open>Strings\<close>

definition quote :: char where
  "quote = CHR 0x22"

definition backslash :: char where
  "backslash = CHR 0x5C"

definition escape_ascii :: "char \<Rightarrow> string" where
  "escape_ascii c =
     (if c = quote \<or> c = backslash then [backslash, c]
      else if c = CHR 0x08 then [backslash, CHR ''b'']
      else if c = CHR 0x0C then [backslash, CHR ''f'']
      else if c = CHR 0x0A then [backslash, CHR ''n'']
      else if c = CHR 0x0D then [backslash, CHR ''r'']
      else if c = CHR 0x09 then [backslash, CHR ''t'']
      else if byte c < 32 \<or> c \<in> {CHR ''<'', CHR ''>'', CHR ''&''} then
        [backslash, CHR ''u'', CHR ''0'', CHR ''0'', hex_digit (byte c div 16), hex_digit (byte c mod 16)]
      else [c])"

text \<open>The line and paragraph separators, U+2028 and U+2029, are escaped for JavaScript.\<close>

definition separator :: "string \<Rightarrow> bool" where
  "separator s \<longleftrightarrow> map byte s = [226, 128, 168] \<or> map byte s = [226, 128, 169]"

function escape :: "string \<Rightarrow> string" where
  "escape [] = []"
| "escape (c # cs) =
     (let n = rune_len (c # cs); r = take n (c # cs) in
      if byte c < 128 then escape_ascii c @ escape cs
      else if n = 0 then [backslash, CHR ''u'', CHR ''f'', CHR ''f'', CHR ''f'', CHR ''d''] @ escape cs
      else if separator r
      then [backslash, CHR ''u'', CHR ''2'', CHR ''0'', CHR ''2'', hex_digit (byte (last r) mod 16)] @
           escape (drop n (c # cs))
      else r @ escape (drop n (c # cs)))"
  by pat_completeness auto
termination escape
  by (relation "measure length") auto

definition print_string :: "string \<Rightarrow> string" where
  "print_string s = quote # escape s @ [quote]"

text \<open>The four hexadecimal digits of an escape.\<close>

definition hex4 :: "string \<Rightarrow> nat option" where
  "hex4 s =
     (case s of
        a # b # c # d # _ \<Rightarrow>
          (case (hex_value a, hex_value b, hex_value c, hex_value d) of
             (Some w, Some x, Some y, Some z) \<Rightarrow> Some (w * 4096 + x * 256 + y * 16 + z)
           | _ \<Rightarrow> None)
      | _ \<Rightarrow> None)"

definition short_escape :: "char \<Rightarrow> char option" where
  "short_escape e =
     (if e = quote \<or> e = backslash \<or> e = CHR ''/'' then Some e
      else if e = CHR ''b'' then Some CHR 0x08
      else if e = CHR ''f'' then Some CHR 0x0C
      else if e = CHR ''n'' then Some CHR 0x0A
      else if e = CHR ''r'' then Some CHR 0x0D
      else if e = CHR ''t'' then Some CHR 0x09
      else None)"

text \<open>A surrogate stands for a rune only as the first of a pair: then its second half is taken too.\<close>

definition surrogate_pair :: "nat \<Rightarrow> string \<Rightarrow> nat option" where
  "surrogate_pair r s =
     (case s of
        a # b # rest \<Rightarrow>
          if a = backslash \<and> b = CHR ''u'' then
            (case hex4 rest of
               None \<Rightarrow> None
             | Some r' \<Rightarrow>
                 if 55296 \<le> r \<and> r < 56320 \<and> 56320 \<le> r' \<and> r' < 57344
                 then Some (65536 + (r - 55296) * 1024 + (r' - 56320)) else None)
          else None
      | _ \<Rightarrow> None)"

text \<open>The rune of a unicode escape and the number of bytes it takes after the letter.\<close>

definition unicode_escape :: "string \<Rightarrow> (string \<times> nat) option" where
  "unicode_escape s =
     (case hex4 s of
        None \<Rightarrow> None
      | Some r \<Rightarrow>
          if 55296 \<le> r \<and> r < 57344 then
            (case surrogate_pair r (drop 4 s) of
               None \<Rightarrow> Some (replacement, 4)
             | Some p \<Rightarrow> Some (utf8_encode p, 10))
          else Some (utf8_encode r, 4))"

definition prepend :: "string \<Rightarrow> (string \<times> string) option \<Rightarrow> (string \<times> string) option" where
  "prepend x r = map_option (\<lambda>(s, rest). (x @ s, rest)) r"

text \<open>What follows an opening quote: the string and what comes after its closing quote.\<close>

function parse_string :: "string \<Rightarrow> (string \<times> string) option" where
  "parse_string [] = None"
| "parse_string (c # cs) =
     (if c = quote then Some ([], cs)
      else if c = backslash then
        (case cs of
           [] \<Rightarrow> None
         | e # es \<Rightarrow>
             if e = CHR ''u'' then
               (case unicode_escape es of None \<Rightarrow> None | Some (x, n) \<Rightarrow> prepend x (parse_string (drop n es)))
             else (case short_escape e of None \<Rightarrow> None | Some x \<Rightarrow> prepend [x] (parse_string es)))
      else if byte c < 32 then None
      else
        (let n = rune_len (c # cs) in
         if n = 0 then prepend replacement (parse_string cs)
         else prepend (take n (c # cs)) (parse_string (drop n (c # cs)))))"
  by pat_completeness auto
termination parse_string
  by (relation "measure length") auto

subsection \<open>A string is read back\<close>

lemma prepend_Some [simp]: "prepend x (Some (s, rest)) = Some (x @ s, rest)"
  by (simp add: prepend_def)

lemma prepend_prepend [simp]: "prepend x (prepend y r) = prepend (x @ y) r"
  by (cases r) (auto simp: prepend_def)

lemma prepend_SomeD: "prepend x r = Some (y, rest) \<Longrightarrow> \<exists>z. r = Some (z, rest) \<and> y = x @ z"
  by (cases r) (auto simp: prepend_def)

lemma special_chars [simp]:
  "quote \<noteq> backslash" "backslash \<noteq> quote" "byte quote = 34" "byte backslash = 92"
  "CHR ''u'' \<noteq> backslash" "CHR ''u'' \<noteq> quote" "quote \<noteq> CHR ''u''" "backslash \<noteq> CHR ''u''"
  by (simp_all add: quote_def backslash_def)

lemma unicode_escape_ascii:
  assumes "n < 128"
  shows "unicode_escape (CHR ''0'' # CHR ''0'' # hex_digit (n div 16) # hex_digit (n mod 16) # s) = Some ([char_of n], 4)"
proof -
  have "hex_value (hex_digit (n div 16)) = Some (n div 16)" "hex_value (hex_digit (n mod 16)) = Some (n mod 16)"
    using assms by (auto intro: hex_digit_value)
  moreover have "hex_value CHR ''0'' = Some 0"
    by (simp add: hex_value_def is_digit_def digit_value_def)
  ultimately have "hex4 (CHR ''0'' # CHR ''0'' # hex_digit (n div 16) # hex_digit (n mod 16) # s) = Some n"
    by (simp add: hex4_def)
  with assms show ?thesis
    by (simp add: unicode_escape_def utf8_encode_def)
qed

lemma escape_short:
  assumes "c \<in> {CHR 0x08, CHR 0x0C, CHR 0x0A, CHR 0x0D, CHR 0x09}"
  shows "\<exists>x. \<not> (c = quote \<or> c = backslash) \<and> escape_ascii c = [backslash, x] \<and> short_escape x = Some c \<and> x \<noteq> CHR ''u''"
  using assms
  by (elim insertE emptyE) (simp_all add: escape_ascii_def short_escape_def quote_def backslash_def)

lemma escape_ascii_cases:
  obtains (special) "c = quote \<or> c = backslash"
    | (short) x where "\<not> (c = quote \<or> c = backslash)" "escape_ascii c = [backslash, x]" "short_escape x = Some c" "x \<noteq> CHR ''u''"
    | (uni) "escape_ascii c = [backslash, CHR ''u'', CHR ''0'', CHR ''0'', hex_digit (byte c div 16), hex_digit (byte c mod 16)]"
    | (plain) "\<not> (c = quote \<or> c = backslash)" "32 \<le> byte c" "escape_ascii c = [c]"
proof (cases "c = quote \<or> c = backslash \<or> c \<in> {CHR 0x08, CHR 0x0C, CHR 0x0A, CHR 0x0D, CHR 0x09}")
  case True
  then show thesis
    using special escape_short [of c] short by blast
next
  case False
  let ?u = "byte c < 32 \<or> c \<in> {CHR ''<'', CHR ''>'', CHR ''&''}"
  from False have e: "escape_ascii c =
      (if ?u then [backslash, CHR ''u'', CHR ''0'', CHR ''0'', hex_digit (byte c div 16), hex_digit (byte c mod 16)]
       else [c])"
    by (simp only: escape_ascii_def if_False insert_iff de_Morgan_disj) simp
  show thesis
  proof (cases ?u)
    case True
    with e show thesis
      by (simp only: if_True) (rule uni)
  next
    case plain_char: False
    with e False show thesis
      by (intro plain) (simp_all only: if_False, simp_all)
  qed
qed

lemma parse_escape_ascii:
  assumes "byte c < 128"
  shows "parse_string (escape_ascii c @ s) = prepend [c] (parse_string s)"
proof (cases rule: escape_ascii_cases [of c])
  case special
  then show ?thesis
    by (auto simp: escape_ascii_def short_escape_def)
next
  case uni
  then show ?thesis
    using unicode_escape_ascii [OF assms] by simp
next
  case plain
  then show ?thesis
    using assms by (simp add: Let_def)
qed simp

lemma byte_char: "byte c = n \<longleftrightarrow> c = char_of n \<and> n < 256"
  using nat_of_char_less_256 [of c] by auto

lemma parse_rune:
  assumes "rune_len (c # cs) = Suc n" and "\<not> byte c < 128"
  shows "parse_string (take (Suc n) (c # cs) @ t) = prepend (take (Suc n) (c # cs)) (parse_string t)"
proof -
  have "c \<noteq> quote" "c \<noteq> backslash" "\<not> byte c < 32"
    using assms(2) by (auto simp: quote_def backslash_def)
  moreover have "rune_len (c # take n cs @ t) = Suc n"
    using rune_len_take [OF assms(1), of t] by simp
  moreover have "length (take n cs) = n"
    using rune_len_length [OF assms(1)] by simp
  ultimately show ?thesis
    by (simp add: Let_def del: rune_len.simps)
qed

lemma parse_separator:
  assumes "separator r"
  shows "parse_string (backslash # CHR ''u'' # CHR ''2'' # CHR ''0'' # CHR ''2'' # hex_digit (byte (last r) mod 16) # s) =
    prepend r (parse_string s)"
proof -
  from assms consider "map byte r = [226, 128, 168]" | "map byte r = [226, 128, 169]"
    unfolding separator_def by blast
  then have "\<exists>k. (k = 8 \<or> k = 9) \<and> byte (last r) mod 16 = k \<and> r = utf8_encode (8224 + k)"
  proof cases
    case 1
    then have "r = [char_of (226 :: nat), char_of (128 :: nat), char_of (168 :: nat)]"
      by (auto simp: map_eq_Cons_conv byte_char)
    with 1 show ?thesis
      by (intro exI [of _ 8]) (auto simp: utf8_encode_def)
  next
    case 2
    then have "r = [char_of (226 :: nat), char_of (128 :: nat), char_of (169 :: nat)]"
      by (auto simp: map_eq_Cons_conv byte_char)
    with 2 show ?thesis
      by (intro exI [of _ 9]) (auto simp: utf8_encode_def)
  qed
  then obtain k where k: "k = 8 \<or> k = 9" "byte (last r) mod 16 = k" "r = utf8_encode (8224 + k)"
    by blast
  have "hex_value (hex_digit k) = Some k"
    using k(1) by (auto intro: hex_digit_value)
  moreover have "hex_value CHR ''2'' = Some 2" "hex_value CHR ''0'' = Some 0"
    by (simp_all add: hex_value_def is_digit_def digit_value_def)
  ultimately have "hex4 (CHR ''2'' # CHR ''0'' # CHR ''2'' # hex_digit k # s) = Some (8224 + k)"
    by (simp add: hex4_def)
  then have "unicode_escape (CHR ''2'' # CHR ''0'' # CHR ''2'' # hex_digit k # s) = Some (utf8_encode (8224 + k), 4)"
    using k(1) by (auto simp: unicode_escape_def)
  then show ?thesis
    using k(2,3) by simp
qed

lemma parse_escape: "valid_utf8 s \<Longrightarrow> parse_string (escape s @ quote # rest) = Some (s, rest)"
proof (induction s rule: escape.induct)
  case (2 c cs)
  let ?n = "rune_len (c # cs)"
  from 2(5) have valid: "?n \<noteq> 0" "valid_utf8 (drop ?n (c # cs))"
    by (simp_all add: valid_utf8.simps [of "c # cs"] del: rune_len.simps split: if_splits)
  then obtain n where n: "?n = Suc n"
    by (metis not0_implies_Suc)
  show ?case
  proof (cases "byte c < 128")
    case True
    with valid(2) have "valid_utf8 cs"
      by simp
    with True 2(1) parse_escape_ascii [OF True] show ?thesis
      by (simp add: Let_def del: parse_string.simps)
  next
    case False
    show ?thesis
    proof (cases "separator (take ?n (c # cs))")
      case True
      with 2(3) False valid parse_separator [OF True] n show ?thesis
        by (simp add: Let_def del: parse_string.simps rune_len.simps)
    next
      case plain: False
      with 2(4) False valid parse_rune [OF n False] n show ?thesis
        by (simp add: Let_def del: parse_string.simps rune_len.simps)
    qed
  qed
qed simp

section \<open>Numbers\<close>

definition print_int :: "int \<Rightarrow> string" where
  "print_int i = (if i < 0 then CHR ''-'' # dec (nat (- i)) else dec (nat i))"

definition number_char :: "char \<Rightarrow> bool" where
  "number_char c \<longleftrightarrow> is_digit c \<or> c \<in> {CHR ''-'', CHR ''+'', CHR ''.'', CHR ''e'', CHR ''E''}"

text \<open>The grammar of numbers: no leading zeros, then an optional fraction and an optional exponent.\<close>

definition strip_minus :: "string \<Rightarrow> bool \<times> string" where
  "strip_minus s = (case s of c # cs \<Rightarrow> if c = CHR ''-'' then (True, cs) else (False, s) | [] \<Rightarrow> (False, []))"

definition int_part :: "string \<Rightarrow> bool" where
  "int_part s \<longleftrightarrow> list_all is_digit s \<and> s \<noteq> [] \<and> (s = [CHR ''0''] \<or> hd s \<noteq> CHR ''0'')"

definition exponent :: "string \<Rightarrow> bool" where
  "exponent s =
     (case s of
        [] \<Rightarrow> True
      | c # cs \<Rightarrow>
          (let ds = (case cs of [] \<Rightarrow> [] | d # ds \<Rightarrow> if d = CHR ''+'' \<or> d = CHR ''-'' then ds else cs)
           in (c = CHR ''e'' \<or> c = CHR ''E'') \<and> ds \<noteq> [] \<and> list_all is_digit ds))"

definition fraction :: "string \<Rightarrow> bool" where
  "fraction s =
     (case s of
        [] \<Rightarrow> True
      | c # cs \<Rightarrow>
          if c = CHR ''.'' then takeWhile is_digit cs \<noteq> [] \<and> exponent (dropWhile is_digit cs) else exponent s)"

definition valid_number :: "string \<Rightarrow> bool" where
  "valid_number s =
     (let u = snd (strip_minus s) in int_part (takeWhile is_digit u) \<and> fraction (dropWhile is_digit u))"

definition nat_of_digits :: "string \<Rightarrow> nat" where
  "nat_of_digits s = foldl (\<lambda>n c. 10 * n + digit_value c) 0 s"

definition number_value :: "string \<Rightarrow> json" where
  "number_value s =
     (let (neg, u) = strip_minus s in
      if list_all is_digit u then JInt (if neg then - int (nat_of_digits u) else int (nat_of_digits u)) else JNumber s)"

definition parse_number :: "string \<Rightarrow> (json \<times> string) option" where
  "parse_number s =
     (let lit = takeWhile number_char s in
      if valid_number lit then Some (number_value lit, dropWhile number_char s) else None)"

lemma dec_number: "list_all is_digit (dec n) \<and> dec n \<noteq> [] \<and> nat_of_digits (dec n) = n \<and> (n = 0 \<or> hd (dec n) \<noteq> CHR ''0'')"
proof (induction n rule: dec.induct)
  case (1 n)
  show ?case
  proof (cases "n < 10")
    case True
    have "digit n \<noteq> CHR ''0''" if "n \<noteq> 0"
    proof
      assume "digit n = CHR ''0''"
      with of_char_digit [OF True] have "48 + n = byte CHR ''0''"
        by metis
      with that show False
        by simp
    qed
    with True show ?thesis
      by (cases "n = 0") (simp_all add: dec_1 nat_of_digits_def)
  next
    case False
    with 1 have "list_all is_digit (dec (n div 10))" "dec (n div 10) \<noteq> []" "nat_of_digits (dec (n div 10)) = n div 10"
        "hd (dec (n div 10)) \<noteq> CHR ''0''"
      by auto
    moreover have "10 * (n div 10) + n mod 10 = n"
      by simp
    ultimately show ?thesis
      using False by (simp add: dec.simps [of n] nat_of_digits_def hd_append)
  qed
qed

lemma int_part_dec: "int_part (dec n)"
  using dec_number [of n] by (cases "n = 0") (auto simp: int_part_def dec_1 digit_def)

text \<open>What may follow a value: nothing, or what separates and closes.\<close>

definition stops :: "string \<Rightarrow> bool" where
  "stops rest \<longleftrightarrow> rest = [] \<or> hd rest = CHR '','' \<or> hd rest = CHR '']'' \<or> hd rest = CHR ''}''"

lemma stops_number: "stops rest \<Longrightarrow> takeWhile number_char rest = [] \<and> dropWhile number_char rest = rest"
  by (cases rest) (auto simp: stops_def number_char_def is_digit_def)

lemma strip_minus_dec: "strip_minus (dec n) = (False, dec n)"
proof -
  from dec_number [of n] obtain c cs where c: "dec n = c # cs" "is_digit c"
    by (cases "dec n") auto
  then have "c \<noteq> CHR ''-''"
    by (auto simp: is_digit_def)
  with c(1) show ?thesis
    by (simp add: strip_minus_def)
qed

lemma strip_minus_print_int: "strip_minus (print_int i) = (i < 0, dec (nat \<bar>i\<bar>))"
  using strip_minus_dec by (auto simp: print_int_def strip_minus_def)

lemma parse_print_int:
  assumes "stops rest"
  shows "parse_number (print_int i @ rest) = Some (JInt i, rest)"
proof -
  have digits: "takeWhile is_digit (dec n) = dec n" "dropWhile is_digit (dec n) = []" for n
    using dec_number [of n] by (simp_all add: takeWhile_eq_all_conv list_all_iff)
  have all: "\<forall>c \<in> set (print_int i). number_char c"
    using dec_number [of "nat i"] dec_number [of "nat (- i)"]
    by (auto simp: print_int_def number_char_def list_all_iff)
  then have "takeWhile number_char (print_int i @ rest) = print_int i" "dropWhile number_char (print_int i @ rest) = rest"
    using stops_number [OF assms] by (simp_all add: takeWhile_append dropWhile_append)
  moreover have "valid_number (print_int i)"
    by (simp add: valid_number_def strip_minus_print_int digits int_part_dec fraction_def)
  moreover have "number_value (print_int i) = JInt i"
    using dec_number [of "nat i"] dec_number [of "nat (- i)"] by (simp add: number_value_def strip_minus_print_int)
  ultimately show ?thesis
    by (simp add: parse_number_def)
qed

section \<open>Values\<close>

fun print_json :: "json \<Rightarrow> string" where
  "print_json JNull = ''null''"
| "print_json (JBool b) = (if b then ''true'' else ''false'')"
| "print_json (JInt i) = print_int i"
| "print_json (JNumber s) = s"
| "print_json (JString s) = print_string s"
| "print_json (JArray js) = CHR ''['' # join '','' (map print_json js) @ '']''"
| "print_json (JObject ms) =
     CHR ''{'' # join '','' (map (\<lambda>(k, j). print_string k @ CHR '':'' # print_json j) ms) @ ''}''"

definition whitespace :: "char \<Rightarrow> bool" where
  "whitespace c \<longleftrightarrow> c \<in> {CHR 0x20, CHR 0x09, CHR 0x0A, CHR 0x0D}"

definition skip :: "string \<Rightarrow> string" where
  "skip s = dropWhile whitespace s"

definition literal :: "string \<Rightarrow> json \<Rightarrow> string \<Rightarrow> (json \<times> string) option" where
  "literal w j s = (if take (length w) s = w then Some (j, drop (length w) s) else None)"

text \<open>A value; the elements of an array and the members of an object that has at least one.\<close>

fun parse_value :: "nat \<Rightarrow> string \<Rightarrow> (json \<times> string) option"
  and parse_elements :: "nat \<Rightarrow> string \<Rightarrow> (json list \<times> string) option"
  and parse_members :: "nat \<Rightarrow> string \<Rightarrow> (members \<times> string) option" where
  "parse_value 0 s = None"
| "parse_value (Suc n) s =
     (case skip s of
        [] \<Rightarrow> None
      | c # cs \<Rightarrow>
          if c = quote then map_option (\<lambda>(x, rest). (JString x, rest)) (parse_string cs)
          else if c = CHR ''['' then
            (case skip cs of
               [] \<Rightarrow> None
             | d # ds \<Rightarrow>
                 if d = CHR '']'' then Some (JArray [], ds)
                 else map_option (\<lambda>(js, rest). (JArray js, rest)) (parse_elements n cs))
          else if c = CHR ''{'' then
            (case skip cs of
               [] \<Rightarrow> None
             | d # ds \<Rightarrow>
                 if d = CHR ''}'' then Some (JObject [], ds)
                 else map_option (\<lambda>(ms, rest). (JObject ms, rest)) (parse_members n cs))
          else if c = CHR ''t'' then literal ''rue'' (JBool True) cs
          else if c = CHR ''f'' then literal ''alse'' (JBool False) cs
          else if c = CHR ''n'' then literal ''ull'' JNull cs
          else parse_number (c # cs))"
| "parse_elements 0 s = None"
| "parse_elements (Suc n) s =
     (case parse_value n s of
        None \<Rightarrow> None
      | Some (j, r) \<Rightarrow>
          (case skip r of
             [] \<Rightarrow> None
           | d # ds \<Rightarrow>
               if d = CHR '','' then map_option (\<lambda>(js, rest). (j # js, rest)) (parse_elements n ds)
               else if d = CHR '']'' then Some ([j], ds)
               else None))"
| "parse_members 0 s = None"
| "parse_members (Suc n) s =
     (case skip s of
        [] \<Rightarrow> None
      | q # qs \<Rightarrow>
          if q \<noteq> quote then None
          else
            (case parse_string qs of
               None \<Rightarrow> None
             | Some (k, r) \<Rightarrow>
                 (case skip r of
                    [] \<Rightarrow> None
                  | d # ds \<Rightarrow>
                      if d \<noteq> CHR '':'' then None
                      else
                        (case parse_value n ds of
                           None \<Rightarrow> None
                         | Some (j, r') \<Rightarrow>
                             (case skip r' of
                                [] \<Rightarrow> None
                              | e # es \<Rightarrow>
                                  if e = CHR '','' then map_option (\<lambda>(ms, rest). ((k, j) # ms, rest)) (parse_members n es)
                                  else if e = CHR ''}'' then Some ([(k, j)], es)
                                  else None)))))"

fun nesting :: "json \<Rightarrow> nat" where
  "nesting (JArray js) = Suc (fold max (map nesting js) 0)"
| "nesting (JObject ms) = Suc (fold max (map (\<lambda>(k, j). nesting j) ms) 0)"
| "nesting _ = 0"

definition json_syntax_error :: liberr where
  "json_syntax_error = ''json: invalid syntax''"

definition parse_json :: "string \<Rightarrow> liberr + json" where
  "parse_json s =
     (case parse_value (Suc (length s)) s of
        None \<Rightarrow> Inl json_syntax_error
      | Some (j, rest) \<Rightarrow> if skip rest = [] \<and> nesting j \<le> 10000 then Inr j else Inl json_syntax_error)"

section \<open>A value is read back\<close>

text \<open>Texts that survive: strings that are UTF-8, and numbers that are integers.\<close>

fun text_ok :: "json \<Rightarrow> bool" where
  "text_ok (JNumber s) = False"
| "text_ok (JString s) = valid_utf8 s"
| "text_ok (JArray js) = list_all text_ok js"
| "text_ok (JObject ms) = list_all (\<lambda>(k, j). valid_utf8 k \<and> text_ok j) ms"
| "text_ok _ = True"

definition print_elements :: "json list \<Rightarrow> string" where
  "print_elements js = join '','' (map print_json js)"

definition print_member :: "string \<times> json \<Rightarrow> string" where
  "print_member m = print_string (fst m) @ CHR '':'' # print_json (snd m)"

definition print_members :: "members \<Rightarrow> string" where
  "print_members ms = join '','' (map print_member ms)"

lemma print_json_folded:
  "print_json (JArray js) = CHR ''['' # print_elements js @ '']''"
  "print_json (JObject ms) = CHR ''{'' # print_members ms @ ''}''"
proof -
  have "(\<lambda>(k, j). print_string k @ CHR '':'' # print_json j) = print_member"
    by (auto simp: print_member_def)
  then show "print_json (JArray js) = CHR ''['' # print_elements js @ '']''"
    "print_json (JObject ms) = CHR ''{'' # print_members ms @ ''}''"
    by (simp_all add: print_elements_def print_members_def)
qed

declare print_json.simps(6,7) [simp del] print_json_folded [simp]

lemma print_elements_simps:
  "print_elements [] = []" "print_elements [j] = print_json j"
  "js \<noteq> [] \<Longrightarrow> print_elements (j # js) = print_json j @ CHR '','' # print_elements js"
  by (simp_all add: print_elements_def join_Cons)

lemma print_members_simps:
  "print_members [] = []" "print_members [m] = print_member m"
  "ms \<noteq> [] \<Longrightarrow> print_members (m # ms) = print_member m @ CHR '','' # print_members ms"
  by (simp_all add: print_members_def join_Cons)

definition starts :: "string \<Rightarrow> bool" where
  "starts s \<longleftrightarrow> s \<noteq> [] \<and> \<not> whitespace (hd s) \<and> hd s \<noteq> CHR '']'' \<and> hd s \<noteq> CHR ''}''"

lemma print_int_head:
  "print_int i = c # cs \<Longrightarrow> c = CHR ''-'' \<or> is_digit c"
  using dec_number [of "nat i"] by (cases "dec (nat i)") (auto simp: print_int_def split: if_splits)

lemma starts_print_json: "text_ok j \<Longrightarrow> starts (print_json j)"
proof (cases j)
  case (JInt i)
  have "print_int i \<noteq> []"
    using dec_number [of "nat i"] by (simp add: print_int_def)
  then obtain c cs where c: "print_int i = c # cs"
    by (cases "print_int i") auto
  with print_int_head [OF c] show ?thesis
    by (auto simp: JInt starts_def whitespace_def is_digit_def)
qed (auto simp: starts_def whitespace_def print_string_def quote_def)

lemma starts_append: "starts s \<Longrightarrow> starts (s @ t)"
  by (auto simp: starts_def hd_append)

lemma starts_elements: "js \<noteq> [] \<Longrightarrow> list_all text_ok js \<Longrightarrow> starts (print_elements js)"
  by (cases js rule: remdups_adj.cases) (auto simp: print_elements_simps intro: starts_print_json starts_append)

lemma starts_members: "ms \<noteq> [] \<Longrightarrow> starts (print_members ms)"
  by (cases ms rule: remdups_adj.cases)
    (auto simp: print_members_simps print_member_def print_string_def starts_def whitespace_def quote_def)

lemma skip_starts: "starts s \<Longrightarrow> skip (s @ t) = s @ t"
  by (cases s) (auto simp: starts_def skip_def)

definition reads_values :: "nat \<Rightarrow> bool" where
  "reads_values n \<longleftrightarrow>
     (\<forall>j rest. text_ok j \<longrightarrow> length (print_json j) \<le> n \<longrightarrow> stops rest \<longrightarrow>
        parse_value n (print_json j @ rest) = Some (j, rest))"

definition reads_elements :: "nat \<Rightarrow> bool" where
  "reads_elements n \<longleftrightarrow>
     (\<forall>js rest. js \<noteq> [] \<longrightarrow> list_all text_ok js \<longrightarrow> length (print_elements js) < n \<longrightarrow>
        parse_elements n (print_elements js @ CHR '']'' # rest) = Some (js, rest))"

definition reads_members :: "nat \<Rightarrow> bool" where
  "reads_members n \<longleftrightarrow>
     (\<forall>ms rest. ms \<noteq> [] \<longrightarrow> list_all (\<lambda>(k, j). valid_utf8 k \<and> text_ok j) ms \<longrightarrow>
        length (print_members ms) < n \<longrightarrow>
        parse_members n (print_members ms @ CHR ''}'' # rest) = Some (ms, rest))"

lemma reads_array:
  assumes "reads_elements n" and "text_ok (JArray js)" and "length (print_json (JArray js)) \<le> Suc n"
  shows "parse_value (Suc n) (print_json (JArray js) @ rest) = Some (JArray js, rest)"
proof (cases "js = []")
  case False
  have st: "starts (print_elements js)"
    using False assms(2) by (intro starts_elements) simp_all
  then have "skip (print_elements js @ CHR '']'' # rest) = print_elements js @ CHR '']'' # rest"
    and "hd (print_elements js) \<noteq> CHR '']''" "print_elements js \<noteq> []"
    using skip_starts [OF st] by (simp_all add: starts_def)
  moreover have "parse_elements n (print_elements js @ CHR '']'' # rest) = Some (js, rest)"
    using assms False unfolding reads_elements_def print_json_folded by simp
  ultimately show ?thesis
    by (cases "print_elements js") (simp_all add: print_json_folded skip_def whitespace_def quote_def)
qed (simp add: print_elements_simps skip_def whitespace_def quote_def)

lemma reads_object:
  assumes "reads_members n" and "text_ok (JObject ms)" and "length (print_json (JObject ms)) \<le> Suc n"
  shows "parse_value (Suc n) (print_json (JObject ms) @ rest) = Some (JObject ms, rest)"
proof (cases "ms = []")
  case False
  have st: "starts (print_members ms)"
    using False by (rule starts_members)
  then have "skip (print_members ms @ CHR ''}'' # rest) = print_members ms @ CHR ''}'' # rest"
    and "hd (print_members ms) \<noteq> CHR ''}''" "print_members ms \<noteq> []"
    using skip_starts [OF st] by (simp_all add: starts_def)
  moreover have "parse_members n (print_members ms @ CHR ''}'' # rest) = Some (ms, rest)"
    using assms False unfolding reads_members_def print_json_folded by simp
  ultimately show ?thesis
    by (cases "print_members ms") (simp_all add: print_json_folded skip_def whitespace_def quote_def)
qed (simp add: print_members_simps skip_def whitespace_def quote_def)

lemma reads_int:
  assumes "stops rest"
  shows "parse_value (Suc n) (print_int i @ rest) = Some (JInt i, rest)"
proof -
  have "print_int i \<noteq> []"
    using dec_number [of "nat i"] by (simp add: print_int_def)
  then obtain c cs where c: "print_int i = c # cs"
    by (cases "print_int i") auto
  from print_int_head [OF c] have "\<not> whitespace c" "c \<notin> {quote, CHR ''['', CHR ''{'', CHR ''t'', CHR ''f'', CHR ''n''}"
    by (auto simp: whitespace_def is_digit_def quote_def)
  with parse_print_int [OF assms, of i] show ?thesis
    by (simp add: c skip_def)
qed

lemma reads_values_Suc:
  assumes "reads_elements n" and "reads_members n"
  shows "reads_values (Suc n)"
  unfolding reads_values_def
proof (intro allI impI)
  fix j rest
  assume j: "text_ok j" "length (print_json j) \<le> Suc n" and rest: "stops rest"
  show "parse_value (Suc n) (print_json j @ rest) = Some (j, rest)"
  proof (cases j)
    case (JString x)
    with j(1) show ?thesis
      by (simp add: print_string_def skip_def whitespace_def quote_def parse_escape [unfolded quote_def])
  next
    case (JArray js)
    with reads_array [OF assms(1)] j show ?thesis
      by blast
  next
    case (JObject ms)
    with reads_object [OF assms(2)] j show ?thesis
      by blast
  qed (use j reads_int [OF rest] in \<open>auto simp: skip_def whitespace_def quote_def literal_def\<close>)
qed

lemma reads_elements_Suc:
  assumes "reads_values n" and "reads_elements n"
  shows "reads_elements (Suc n)"
  unfolding reads_elements_def
proof (intro allI impI)
  fix js rest
  assume js: "js \<noteq> []" "list_all text_ok js" "length (print_elements js) < Suc n"
  then obtain j js' where j: "js = j # js'"
    by (cases js) auto
  show "parse_elements (Suc n) (print_elements js @ CHR '']'' # rest) = Some (js, rest)"
  proof (cases "js' = []")
    case True
    with j js assms(1) have "parse_value n (print_json j @ CHR '']'' # rest) = Some (j, CHR '']'' # rest)"
      unfolding reads_values_def by (simp add: print_elements_simps stops_def)
    with True j show ?thesis
      by (simp add: print_elements_simps skip_def whitespace_def)
  next
    case False
    note simps = print_elements_simps(3) [OF False]
    have "parse_value n (print_json j @ CHR '','' # print_elements js' @ CHR '']'' # rest) =
        Some (j, CHR '','' # print_elements js' @ CHR '']'' # rest)"
      using j js assms(1) unfolding reads_values_def by (simp add: simps stops_def)
    moreover have "parse_elements n (print_elements js' @ CHR '']'' # rest) = Some (js', rest)"
      using j js assms(2) False unfolding reads_elements_def by (simp add: simps)
    ultimately show ?thesis
      by (simp add: j simps skip_def whitespace_def)
  qed
qed

lemma reads_members_Suc:
  assumes "reads_values n" and "reads_members n"
  shows "reads_members (Suc n)"
  unfolding reads_members_def
proof (intro allI impI)
  fix ms rest
  assume ms: "ms \<noteq> []" "list_all (\<lambda>(k, j). valid_utf8 k \<and> text_ok j) ms" "length (print_members ms) < Suc n"
  then obtain k j ms' where m: "ms = (k, j) # ms'"
    by (cases ms) auto
  have key: "parse_string (escape k @ quote # t) = Some (k, t)" for t
    using ms(2) by (intro parse_escape) (simp add: m)
  show "parse_members (Suc n) (print_members ms @ CHR ''}'' # rest) = Some (ms, rest)"
  proof (cases "ms' = []")
    case True
    with m ms assms(1) have "parse_value n (print_json j @ CHR ''}'' # rest) = Some (j, CHR ''}'' # rest)"
      unfolding reads_values_def by (simp add: print_members_simps print_member_def stops_def)
    with True m key show ?thesis
      by (simp add: print_members_simps print_member_def print_string_def skip_def whitespace_def quote_def)
  next
    case False
    note simps = print_members_simps(3) [OF False] print_member_def print_string_def
    have "parse_value n (print_json j @ CHR '','' # print_members ms' @ CHR ''}'' # rest) =
        Some (j, CHR '','' # print_members ms' @ CHR ''}'' # rest)"
      using m ms assms(1) unfolding reads_values_def by (simp add: simps stops_def)
    moreover have "parse_members n (print_members ms' @ CHR ''}'' # rest) = Some (ms', rest)"
      using m ms assms(2) False unfolding reads_members_def by (simp add: simps)
    ultimately show ?thesis
      using key by (simp add: m simps skip_def whitespace_def quote_def)
  qed
qed

lemma reads_all: "reads_values n \<and> reads_elements n \<and> reads_members n"
proof (induction n)
  case 0
  have "print_json j \<noteq> []" if "text_ok j" for j
    using starts_print_json [OF that] by (simp add: starts_def)
  then show ?case
    by (auto simp: reads_values_def reads_elements_def reads_members_def)
qed (blast intro: reads_values_Suc reads_elements_Suc reads_members_Suc)

lemma parse_print_json:
  assumes "text_ok j" and "nesting j \<le> 10000"
  shows "parse_json (print_json j) = Inr j"
proof -
  have "parse_value (Suc (length (print_json j))) (print_json j @ []) = Some (j, [])"
    using reads_all [of "Suc (length (print_json j))"] assms(1) unfolding reads_values_def by (simp add: stops_def)
  with assms(2) show ?thesis
    by (simp add: parse_json_def skip_def)
qed

end
