(* ===== verification/JsonFuel.thy ===== *)
theory JsonFuel
  imports JsonText
begin

text \<open>
  The fuel of the parser of JSON is enough: what any fuel gives, one unit for each byte that is taken gives
  already, since an array, an object and each of their elements but one takes a byte of its own. So a text
  that \<open>parse_json\<close> refuses is refused whatever the fuel.
\<close>

definition takes :: "(nat \<Rightarrow> string \<Rightarrow> ('v \<times> string) option) \<Rightarrow> string \<Rightarrow> 'v \<Rightarrow> string \<Rightarrow> bool" where
  "takes p s v rest \<longleftrightarrow> length rest < length s \<and> (\<forall>n \<ge> length s - length rest. p n s = Some (v, rest))"

lemma skip_length: "length (skip s) \<le> length s"
  by (simp add: skip_def length_dropWhile_le)

lemma skip_Cons_le: "skip s = c # cs \<Longrightarrow> Suc (length cs) \<le> length s"
  using skip_length [of s] by simp

lemma takesI:
  assumes "length rest < length s" and "\<And>n. length s - length rest \<le> Suc n \<Longrightarrow> p (Suc n) s = Some (v, rest)"
  shows "takes p s v rest"
  unfolding takes_def
proof (intro conjI allI impI)
  fix n
  assume "length s - length rest \<le> n"
  with assms show "p n s = Some (v, rest)"
    by (cases n) simp_all
qed (rule assms(1))

lemma takesD:
  assumes "takes p s v rest"
  shows "length rest < length s" "length s - length rest \<le> n \<Longrightarrow> p n s = Some (v, rest)"
  using assms by (simp_all add: takes_def)

lemma parse_string_length: "parse_string s = Some (x, rest) \<Longrightarrow> length rest < length s"
proof (induction s arbitrary: x rule: parse_string.induct)
  case (2 c cs)
  consider (close) "c = quote" | (esc) e es where "c = backslash" "c \<noteq> quote" "cs = e # es"
    | (bad) "c \<noteq> quote" "c \<noteq> backslash" "\<not> byte c < 32" "rune_len (c # cs) = 0"
    | (rune) n where "c \<noteq> quote" "c \<noteq> backslash" "\<not> byte c < 32" "rune_len (c # cs) = Suc n"
    using 2(5) by (cases "rune_len (c # cs)") (auto split: if_splits list.splits)
  then show ?case
  proof cases
    case close
    with 2(5) show ?thesis
      by simp
  next
    case esc
    show ?thesis
    proof (cases "e = CHR ''u''")
      case True
      with 2(5) esc obtain r n z where r: "unicode_escape es = Some (r, n)" "parse_string (drop n es) = Some (z, rest)"
        by (auto split: option.splits dest!: prepend_SomeD)
      from 2(1) [OF esc(2,1,3) True r(1) refl r(2)] esc(3) show ?thesis
        by simp
    next
      case False
      with 2(5) esc obtain y z where y: "short_escape e = Some y" "parse_string es = Some (z, rest)"
        by (auto split: option.splits dest!: prepend_SomeD)
      from 2(2) [OF esc(2,1,3) False y(1,2)] esc(3) show ?thesis
        by simp
    qed
  next
    case bad
    with 2(5) obtain z where z: "parse_string cs = Some (z, rest)"
      by (auto simp del: rune_len.simps dest!: prepend_SomeD)
    from 2(3) [OF bad(1-3) refl bad(4) z] show ?thesis
      by simp
  next
    case rune
    with 2(5) obtain z where z: "parse_string (drop (Suc n) (c # cs)) = Some (z, rest)"
      by (auto simp del: rune_len.simps dest!: prepend_SomeD)
    with 2(4) [OF rune(1-3) refl, of z] rune(4) show ?thesis
      by simp
  qed
qed simp

lemma parse_number_length:
  assumes "parse_number s = Some (j, rest)"
  shows "length rest < length s"
proof -
  from assms have lit: "valid_number (takeWhile number_char s)" "rest = dropWhile number_char s"
    by (auto simp: parse_number_def Let_def split: if_splits)
  then have "takeWhile number_char s \<noteq> []"
    by (auto simp: valid_number_def strip_minus_def int_part_def)
  then have "0 < length (takeWhile number_char s)"
    by simp
  moreover have "length s = length (takeWhile number_char s) + length rest"
    by (metis length_append lit(2) takeWhile_dropWhile_id)
  ultimately show ?thesis
    by simp
qed

lemma literal_length: "literal w j s = Some (v, rest) \<Longrightarrow> length rest \<le> length s"
  by (auto simp: literal_def split: if_splits)

lemma fuel_enough_value:
  assumes elements: "\<And>s js rest. parse_elements m s = Some (js, rest) \<Longrightarrow> takes parse_elements s js rest"
    and members: "\<And>s ms rest. parse_members m s = Some (ms, rest) \<Longrightarrow> takes parse_members s ms rest"
    and parsed: "parse_value (Suc m) s = Some (j, rest)"
  shows "takes parse_value s j rest"
proof -
  from parsed obtain c cs where c: "skip s = c # cs"
    by (cases "skip s") simp_all
  note len = skip_Cons_le [OF c]
  consider (array) js d ds where "c = CHR ''[''" "skip cs = d # ds" "d \<noteq> CHR '']''" "parse_elements m cs = Some (js, rest)" "j = JArray js"
    | (object) ms d ds where "c = CHR ''{''" "skip cs = d # ds" "d \<noteq> CHR ''}''" "parse_members m cs = Some (ms, rest)" "j = JObject ms"
    | (closed) d ds where "c = CHR ''['' \<or> c = CHR ''{''" "skip cs = d # ds" "d = CHR '']'' \<or> d = CHR ''}''" "rest = ds"
      "\<And>n. parse_value (Suc n) s = Some (j, rest)"
    | (other) "c \<noteq> CHR ''[''" "c \<noteq> CHR ''{''"
    using parsed by (auto simp: c quote_def split: list.splits if_splits)
  then show ?thesis
  proof cases
    case array
    note IH = takesD [OF elements [OF array(4)]]
    show ?thesis
    proof (rule takesI)
      show "length rest < length s"
        using IH(1) len by simp
      show "parse_value (Suc n) s = Some (j, rest)" if "length s - length rest \<le> Suc n" for n
        using IH(2) [of n] IH(1) len that by (simp add: c array quote_def)
    qed
  next
    case object
    note IH = takesD [OF members [OF object(4)]]
    show ?thesis
    proof (rule takesI)
      show "length rest < length s"
        using IH(1) len by simp
      show "parse_value (Suc n) s = Some (j, rest)" if "length s - length rest \<le> Suc n" for n
        using IH(2) [of n] IH(1) len that by (simp add: c object quote_def)
    qed
  next
    case closed
    show ?thesis
      using len skip_Cons_le [OF closed(2)] closed(4) by (intro takesI closed(5)) simp
  next
    case other
    have "length rest < length s"
      using parsed other len
      by (auto simp: c split: if_splits dest: parse_string_length parse_number_length literal_length)
    moreover have "parse_value (Suc n) s = parse_value (Suc m) s" for n
      using other by (simp add: c)
    ultimately show ?thesis
      using parsed by (intro takesI) metis+
  qed
qed

lemma fuel_enough_elements:
  assumes "\<And>s j rest. parse_value m s = Some (j, rest) \<Longrightarrow> takes parse_value s j rest"
    and "\<And>s js rest. parse_elements m s = Some (js, rest) \<Longrightarrow> takes parse_elements s js rest"
    and "parse_elements (Suc m) s = Some (js, rest)"
  shows "takes parse_elements s js rest"
proof -
  from assms(3) obtain j r d ds where v: "parse_value m s = Some (j, r)" "skip r = d # ds"
    by (auto split: option.splits list.splits)
  note IH = takesD [OF assms(1) [OF v(1)]] and len = skip_Cons_le [OF v(2)]
  from assms(3) v consider (more) js' where "d = CHR '',''" "parse_elements m ds = Some (js', rest)" "js = j # js'"
    | (last) "d = CHR '']''" "rest = ds" "js = [j]"
    by (auto split: if_splits)
  then show ?thesis
  proof cases
    case more
    note IH' = takesD [OF assms(2) [OF more(2)]]
    show ?thesis
    proof (rule takesI)
      show "length rest < length s"
        using IH(1) IH'(1) len by simp
      show "parse_elements (Suc n) s = Some (js, rest)" if "length s - length rest \<le> Suc n" for n
        using IH(2) [of n] IH'(2) [of n] IH(1) IH'(1) len that v(2) by (simp add: more)
    qed
  next
    case last
    show ?thesis
    proof (rule takesI)
      show "length rest < length s"
        using IH(1) len last(2) by simp
      show "parse_elements (Suc n) s = Some (js, rest)" if "length s - length rest \<le> Suc n" for n
        using IH(2) [of n] IH(1) len that v(2) by (simp add: last)
    qed
  qed
qed

lemma fuel_enough_members:
  assumes "\<And>s j rest. parse_value m s = Some (j, rest) \<Longrightarrow> takes parse_value s j rest"
    and "\<And>s ms rest. parse_members m s = Some (ms, rest) \<Longrightarrow> takes parse_members s ms rest"
    and "parse_members (Suc m) s = Some (ms, rest)"
  shows "takes parse_members s ms rest"
proof -
  from assms(3) obtain qs k r ds j r' e es where v: "skip s = quote # qs" "parse_string qs = Some (k, r)"
      "skip r = CHR '':'' # ds" "parse_value m ds = Some (j, r')" "skip r' = e # es"
    by (auto split: option.splits list.splits if_splits)
  note IH = takesD [OF assms(1) [OF v(4)]]
  note len = skip_Cons_le [OF v(1)] parse_string_length [OF v(2)] skip_Cons_le [OF v(3)] skip_Cons_le [OF v(5)]
  from assms(3) v consider (more) ms' where "e = CHR '',''" "parse_members m es = Some (ms', rest)" "ms = (k, j) # ms'"
    | (last) "e = CHR ''}''" "rest = es" "ms = [(k, j)]"
    by (auto split: if_splits)
  then show ?thesis
  proof cases
    case more
    note IH' = takesD [OF assms(2) [OF more(2)]]
    show ?thesis
    proof (rule takesI)
      show "length rest < length s"
        using IH(1) IH'(1) len by simp
      show "parse_members (Suc n) s = Some (ms, rest)" if "length s - length rest \<le> Suc n" for n
        using IH(2) [of n] IH'(2) [of n] IH(1) IH'(1) len that v by (simp add: more)
    qed
  next
    case last
    show ?thesis
    proof (rule takesI)
      show "length rest < length s"
        using IH(1) len last(2) by simp
      show "parse_members (Suc n) s = Some (ms, rest)" if "length s - length rest \<le> Suc n" for n
        using IH(2) [of n] IH(1) len that v by (simp add: last)
    qed
  qed
qed

lemma fuel_enough:
  "(\<forall>s j rest. parse_value m s = Some (j, rest) \<longrightarrow> takes parse_value s j rest) \<and>
   (\<forall>s js rest. parse_elements m s = Some (js, rest) \<longrightarrow> takes parse_elements s js rest) \<and>
   (\<forall>s ms rest. parse_members m s = Some (ms, rest) \<longrightarrow> takes parse_members s ms rest)"
proof (induction m)
  case (Suc m)
  then have IH: "\<And>s j rest. parse_value m s = Some (j, rest) \<Longrightarrow> takes parse_value s j rest"
    "\<And>s js rest. parse_elements m s = Some (js, rest) \<Longrightarrow> takes parse_elements s js rest"
    "\<And>s ms rest. parse_members m s = Some (ms, rest) \<Longrightarrow> takes parse_members s ms rest"
    by blast+
  show ?case
  proof (intro conjI allI impI)
    show "takes parse_value s j rest" if "parse_value (Suc m) s = Some (j, rest)" for s j rest
      by (rule fuel_enough_value [OF _ _ that]; erule IH)
    show "takes parse_elements s js rest" if "parse_elements (Suc m) s = Some (js, rest)" for s js rest
      by (rule fuel_enough_elements [OF _ _ that]; erule IH)
    show "takes parse_members s ms rest" if "parse_members (Suc m) s = Some (ms, rest)" for s ms rest
      by (rule fuel_enough_members [OF _ _ that]; erule IH)
  qed
qed simp

lemma parse_value_fuel:
  assumes "length s \<le> n"
  shows "parse_value n s = Some (j, rest) \<longleftrightarrow> (\<exists>m. parse_value m s = Some (j, rest))"
proof
  assume "\<exists>m. parse_value m s = Some (j, rest)"
  then obtain m where "parse_value m s = Some (j, rest)"
    by blast
  with fuel_enough have "takes parse_value s j rest"
    by blast
  from takesD(2) [OF this] assms show "parse_value n s = Some (j, rest)"
    by simp
qed blast

lemma parse_json_iff:
  "parse_json s = Inr j \<longleftrightarrow> nesting j \<le> 10000 \<and> (\<exists>m rest. parse_value m s = Some (j, rest) \<and> skip rest = [])"
proof -
  have "parse_json s = Inr j \<longleftrightarrow>
      (\<exists>rest. parse_value (Suc (length s)) s = Some (j, rest) \<and> skip rest = [] \<and> nesting j \<le> 10000)"
    by (auto simp: parse_json_def simp del: parse_value.simps split: option.split)
  also have "\<dots> \<longleftrightarrow> nesting j \<le> 10000 \<and> (\<exists>m rest. parse_value m s = Some (j, rest) \<and> skip rest = [])"
    using parse_value_fuel [of s "Suc (length s)"] by auto
  finally show ?thesis .
qed

end
