(* ===== verification/Clients.thy ===== *)
theory Clients
  imports Complex_Main KubeTypes
begin

text \<open>
  The generated client set, \<open>pkg/client/clientset/versioned/clientset.go\<close> and
  \<open>typed/apis/v1alpha1\<close>: how a client for DeviceNetworks is made from a REST configuration. The REST
  library itself is the parameter \<open>rest_lib\<close>; its objects (HTTP clients, rate limiters, REST and
  discovery clients) are known by handles. \<open>QPS\<close>, a 32-bit float of the library, is a rational number:
  it is compared with 0 and handed on.
\<close>

section \<open>The REST library\<close>

type_synonym handle = nat

record rest_config =
  Host :: string
  UserAgent :: string
  QPS :: rat
  Burst :: int
  RateLimiter :: "handle option"
  cfg_GroupVersion :: "(string \<times> string) option"
  APIPath :: string
  NegotiatedSerializer :: "handle option"

record ListOptions =
  FieldSelector :: string

record rest_lib =
  DefaultKubernetesUserAgent :: string
  HTTPClientFor :: "rest_config \<Rightarrow> liberr + handle"
  NewTokenBucketRateLimiter :: "rat \<Rightarrow> int \<Rightarrow> handle"
  CodecFactoryForGeneratedClient :: handle
  RESTClientForConfigAndClient :: "rest_config \<Rightarrow> handle \<Rightarrow> liberr + handle"
  NewDiscoveryClientForConfigAndClient :: "rest_config \<Rightarrow> handle \<Rightarrow> liberr + handle"
  NewDiscoveryClient :: "handle \<Rightarrow> handle"
  rest_List :: "string \<Rightarrow> handle option \<Rightarrow> ListOptions \<Rightarrow> liberr + DeviceNetwork list"
  rest_Watch :: "string \<Rightarrow> handle option \<Rightarrow> ListOptions \<Rightarrow> liberr + handle"

datatype client_error = BurstRequired | ClientLibrary liberr

section \<open>The client of the group\<close>

definition SchemeGroupVersion :: "string \<times> string" where
  "SchemeGroupVersion = (''devicenetwork.io'', ''v1alpha1'')"

record DevicenetworkV1alpha1Client =
  restClient :: handle

definition setConfigDefaults :: "rest_lib \<Rightarrow> rest_config \<Rightarrow> rest_config" where
  "setConfigDefaults lib config =
     (let config1 = config\<lparr>cfg_GroupVersion := Some SchemeGroupVersion, APIPath := ''/apis'',
            NegotiatedSerializer := Some (CodecFactoryForGeneratedClient lib)\<rparr>
      in if UserAgent config1 = [] then config1\<lparr>UserAgent := DefaultKubernetesUserAgent lib\<rparr> else config1)"

definition V1alpha1_NewForConfigAndClient ::
  "rest_lib \<Rightarrow> rest_config \<Rightarrow> handle \<Rightarrow> (DevicenetworkV1alpha1Client, client_error) res" where
  "V1alpha1_NewForConfigAndClient lib c h =
     (let config = setConfigDefaults lib c in
      case RESTClientForConfigAndClient lib config h of
        Inl e \<Rightarrow> Err (ClientLibrary e)
      | Inr client \<Rightarrow> Ok \<lparr>restClient = client\<rparr>)"

definition V1alpha1_NewForConfig ::
  "rest_lib \<Rightarrow> rest_config \<Rightarrow> (DevicenetworkV1alpha1Client, client_error) res" where
  "V1alpha1_NewForConfig lib c =
     (let config = setConfigDefaults lib c in
      case HTTPClientFor lib config of
        Inl e \<Rightarrow> Err (ClientLibrary e)
      | Inr httpClient \<Rightarrow> V1alpha1_NewForConfigAndClient lib config httpClient)"

definition V1alpha1_NewForConfigOrDie ::
  "rest_lib \<Rightarrow> rest_config \<Rightarrow> (DevicenetworkV1alpha1Client, client_error) res" where
  "V1alpha1_NewForConfigOrDie lib c =
     (case V1alpha1_NewForConfig lib c of Err e \<Rightarrow> Panic | r \<Rightarrow> r)"

definition V1alpha1_New :: "handle \<Rightarrow> DevicenetworkV1alpha1Client" where
  "V1alpha1_New c = \<lparr>restClient = c\<rparr>"

definition RESTClient :: "DevicenetworkV1alpha1Client option \<Rightarrow> handle option" where
  "RESTClient c = (case c of None \<Rightarrow> None | Some c \<Rightarrow> Some (restClient c))"

text \<open>What the informers use of the typed client, requests for the resource \<open>devicenetworks\<close>.\<close>

record DeviceNetworkInterface =
  dni_List :: "ListOptions \<Rightarrow> liberr + DeviceNetwork list"
  dni_Watch :: "ListOptions \<Rightarrow> liberr + handle"

definition newDeviceNetworks :: "rest_lib \<Rightarrow> DevicenetworkV1alpha1Client option \<Rightarrow> DeviceNetworkInterface" where
  "newDeviceNetworks lib c =
     \<lparr>dni_List = rest_List lib ''devicenetworks'' (RESTClient c),
      dni_Watch = rest_Watch lib ''devicenetworks'' (RESTClient c)\<rparr>"

section \<open>The client set\<close>

record Clientset =
  DiscoveryClient :: handle
  devicenetworkV1alpha1 :: DevicenetworkV1alpha1Client

definition DevicenetworkV1alpha1 :: "Clientset \<Rightarrow> DevicenetworkV1alpha1Client" where
  "DevicenetworkV1alpha1 c = devicenetworkV1alpha1 c"

definition Discovery :: "Clientset option \<Rightarrow> handle option" where
  "Discovery c = (case c of None \<Rightarrow> None | Some c \<Rightarrow> Some (DiscoveryClient c))"

definition NewForConfigAndClient :: "rest_lib \<Rightarrow> rest_config \<Rightarrow> handle \<Rightarrow> (Clientset, client_error) res" where
  "NewForConfigAndClient lib c httpClient =
     (if RateLimiter c = None \<and> QPS c > 0 \<and> Burst c \<le> 0 then Err BurstRequired
      else
        (let configShallowCopy =
               (if RateLimiter c = None \<and> QPS c > 0
                then c\<lparr>RateLimiter := Some (NewTokenBucketRateLimiter lib (QPS c) (Burst c))\<rparr> else c)
         in case V1alpha1_NewForConfigAndClient lib configShallowCopy httpClient of
              Ok v1 \<Rightarrow>
                (case NewDiscoveryClientForConfigAndClient lib configShallowCopy httpClient of
                   Inl e \<Rightarrow> Err (ClientLibrary e)
                 | Inr d \<Rightarrow> Ok \<lparr>DiscoveryClient = d, devicenetworkV1alpha1 = v1\<rparr>)
            | Err e \<Rightarrow> Err e
            | Panic \<Rightarrow> Panic
            | Diverge \<Rightarrow> Diverge))"

definition NewForConfig :: "rest_lib \<Rightarrow> rest_config \<Rightarrow> (Clientset, client_error) res" where
  "NewForConfig lib c =
     (let configShallowCopy =
            (if UserAgent c = [] then c\<lparr>UserAgent := DefaultKubernetesUserAgent lib\<rparr> else c)
      in case HTTPClientFor lib configShallowCopy of
           Inl e \<Rightarrow> Err (ClientLibrary e)
         | Inr httpClient \<Rightarrow> NewForConfigAndClient lib configShallowCopy httpClient)"

definition NewForConfigOrDie :: "rest_lib \<Rightarrow> rest_config \<Rightarrow> (Clientset, client_error) res" where
  "NewForConfigOrDie lib c = (case NewForConfig lib c of Err e \<Rightarrow> Panic | r \<Rightarrow> r)"

definition Clientset_New :: "rest_lib \<Rightarrow> handle \<Rightarrow> Clientset" where
  "Clientset_New lib c = \<lparr>DiscoveryClient = NewDiscoveryClient lib c, devicenetworkV1alpha1 = V1alpha1_New c\<rparr>"

section \<open>What the constructors give\<close>

lemma setConfigDefaults_idem: "setConfigDefaults lib (setConfigDefaults lib c) = setConfigDefaults lib c"
  by (simp add: setConfigDefaults_def Let_def)

text \<open>
  The configuration the clients of a set are made from: with a user agent, and with a rate limiter when
  the caller asks for a rate.
\<close>

definition client_config :: "rest_lib \<Rightarrow> rest_config \<Rightarrow> rest_config" where
  "client_config lib c =
     c\<lparr>UserAgent := (if UserAgent c = [] then DefaultKubernetesUserAgent lib else UserAgent c),
       RateLimiter := (if RateLimiter c = None \<and> QPS c > 0
         then Some (NewTokenBucketRateLimiter lib (QPS c) (Burst c)) else RateLimiter c)\<rparr>"

lemma client_config_two_steps:
  "(let c1 = if UserAgent c = [] then c\<lparr>UserAgent := DefaultKubernetesUserAgent lib\<rparr> else c in
    if RateLimiter c1 = None \<and> QPS c1 > 0
    then c1\<lparr>RateLimiter := Some (NewTokenBucketRateLimiter lib (QPS c1) (Burst c1))\<rparr> else c1) = client_config lib c"
  by (cases c) (auto simp: client_config_def Let_def)

lemma NewForConfig_cases:
  assumes "NewForConfig lib c = out"
  obtains (ok) http r d where "out = Ok \<lparr>DiscoveryClient = d, devicenetworkV1alpha1 = \<lparr>restClient = r\<rparr>\<rparr>"
      "RESTClientForConfigAndClient lib (setConfigDefaults lib (client_config lib c)) http = Inr r"
      "NewDiscoveryClientForConfigAndClient lib (client_config lib c) http = Inr d"
  | (burst) "out = Err BurstRequired" "RateLimiter c = None" "QPS c > 0" "Burst c \<le> 0"
  | (library) e where "out = Err (ClientLibrary e)"
proof -
  let ?c = "if UserAgent c = [] then c\<lparr>UserAgent := DefaultKubernetesUserAgent lib\<rparr> else c"
  have same: "RateLimiter ?c = RateLimiter c" "QPS ?c = QPS c" "Burst ?c = Burst c"
    by simp_all
  show thesis
  proof (cases "HTTPClientFor lib ?c")
    case (Inl e)
    with assms show thesis
      by (intro library [of e]) (simp add: NewForConfig_def Let_def)
  next
    case (Inr http)
    with assms have out: "NewForConfigAndClient lib ?c http = out"
      by (simp add: NewForConfig_def Let_def)
    show thesis
    proof (cases "RateLimiter c = None \<and> QPS c > 0 \<and> Burst c \<le> 0")
      case True
      with out same burst show thesis
        by (simp add: NewForConfigAndClient_def)
    next
      case False
      have "(if RateLimiter ?c = None \<and> QPS ?c > 0
          then ?c\<lparr>RateLimiter := Some (NewTokenBucketRateLimiter lib (QPS ?c) (Burst ?c))\<rparr> else ?c) = client_config lib c"
        using client_config_two_steps [of c lib] by (simp add: Let_def)
      with out False same have
        "(case V1alpha1_NewForConfigAndClient lib (client_config lib c) http of
            Ok v1 \<Rightarrow> (case NewDiscoveryClientForConfigAndClient lib (client_config lib c) http of
                Inl e \<Rightarrow> Err (ClientLibrary e) | Inr d \<Rightarrow> Ok \<lparr>DiscoveryClient = d, devicenetworkV1alpha1 = v1\<rparr>)
          | Err e \<Rightarrow> Err e | Panic \<Rightarrow> Panic | Diverge \<Rightarrow> Diverge) = out"
        by (simp only: NewForConfigAndClient_def Let_def if_False)
      then show thesis
        using ok library by (auto simp: V1alpha1_NewForConfigAndClient_def Let_def split: sum.splits)
    qed
  qed
qed

end
