(* ===== verification/Registration.thy ===== *)
theory Registration
  imports Clients
begin

text \<open>
  The registration of the API with a scheme, \<open>apis/v1alpha1/zz_generated.register.go\<close> and the packages
  \<open>scheme\<close> and \<open>fake\<close> of \<open>pkg/client/clientset/versioned\<close>: what the variables and \<open>init\<close> functions of
  these packages do when the program starts, and the fake client set built on the result. Schemes, their
  builders and the object tracker are the libraries' (\<open>scheme_lib\<close>, \<open>fake_lib\<close>); a builder is a list of
  functions, as the composite literals show.
\<close>

section \<open>The scheme library\<close>

type_synonym gv = "string \<times> string"
type_synonym 's scheme_fun = "'s \<Rightarrow> liberr option \<times> 's"
type_synonym 's builder = "'s scheme_fun list"

record 's scheme_lib =
  NewScheme :: 's
  AddKnownTypes :: "gv \<Rightarrow> string list \<Rightarrow> 's \<Rightarrow> 's"
  AddToGroupVersion :: "gv \<Rightarrow> 's \<Rightarrow> 's"
  builder_Register :: "'s builder \<Rightarrow> 's scheme_fun list \<Rightarrow> 's builder"
  builder_AddToScheme :: "'s builder \<Rightarrow> 's scheme_fun"

text \<open>
  What the library documents: \<open>Register\<close> adds functions to the list, \<open>AddToScheme\<close> applies them in order
  and stops at the first error; \<open>AddKnownTypes\<close> makes the kinds known in the version, and nothing that is
  added takes a kind away. The kinds a scheme knows are observed by \<open>known\<close>.
\<close>

definition scheme_lib_ok :: "'s scheme_lib \<Rightarrow> ('s \<Rightarrow> gv \<Rightarrow> string set) \<Rightarrow> bool" where
  "scheme_lib_ok lib known \<longleftrightarrow>
     (\<forall>b fs. builder_Register lib b fs = b @ fs) \<and>
     (\<forall>s. builder_AddToScheme lib [] s = (None, s)) \<and>
     (\<forall>f b s. builder_AddToScheme lib (f # b) s =
        (case f s of (Some e, s') \<Rightarrow> (Some e, s') | (None, s') \<Rightarrow> builder_AddToScheme lib b s')) \<and>
     (\<forall>v ts s. set ts \<union> known s v \<subseteq> known (AddKnownTypes lib v ts s) v) \<and>
     (\<forall>v v' ts s. known s v' \<subseteq> known (AddKnownTypes lib v ts s) v') \<and>
     (\<forall>v v' s. known s v' \<subseteq> known (AddToGroupVersion lib v s) v')"

section \<open>The registration of the API\<close>

definition GroupVersion :: gv where
  "GroupVersion = (''devicenetwork.io'', ''v1alpha1'')"

definition Resource :: "string \<Rightarrow> string \<times> string" where
  "Resource resource = (fst SchemeGroupVersion, resource)"

definition addKnownTypes :: "'s scheme_lib \<Rightarrow> 's scheme_fun" where
  "addKnownTypes lib scheme =
     (let s1 = AddKnownTypes lib SchemeGroupVersion [''DeviceNetwork'', ''DeviceNetworkList''] scheme
      in (None, AddToGroupVersion lib SchemeGroupVersion s1))"

text \<open>
  The package's builder: nil when its variables are initialised, with \<open>addKnownTypes\<close> after \<open>init\<close>.
  \<open>AddToScheme\<close> and \<open>Install\<close> are method values bound to the address of the builder before \<open>init\<close>, so they
  use what it holds when they are called.
\<close>

record 's v1alpha1_package =
  SchemeBuilder :: "'s builder"

definition v1alpha1_init :: "'s scheme_lib \<Rightarrow> 's v1alpha1_package \<Rightarrow> 's v1alpha1_package" where
  "v1alpha1_init lib p = p\<lparr>SchemeBuilder := builder_Register lib (SchemeBuilder p) [addKnownTypes lib]\<rparr>"

definition v1alpha1_AddToScheme :: "'s scheme_lib \<Rightarrow> 's v1alpha1_package \<Rightarrow> 's scheme_fun" where
  "v1alpha1_AddToScheme lib p = builder_AddToScheme lib (SchemeBuilder p)"

definition v1alpha1_loaded :: "'s scheme_lib \<Rightarrow> 's v1alpha1_package" where
  "v1alpha1_loaded lib = v1alpha1_init lib \<lparr>SchemeBuilder = []\<rparr>"

section \<open>The schemes of the client set and of its fake\<close>

text \<open>Both packages have the same variables and \<open>init\<close>; a failing registration panics.\<close>

definition scheme_AddToScheme :: "'s scheme_lib \<Rightarrow> 's v1alpha1_package \<Rightarrow> 's scheme_fun" where
  "scheme_AddToScheme lib p = builder_AddToScheme lib [v1alpha1_AddToScheme lib p]"

definition scheme_init :: "'s scheme_lib \<Rightarrow> 's v1alpha1_package \<Rightarrow> ('s, liberr) res" where
  "scheme_init lib p =
     (let s1 = AddToGroupVersion lib ('''', ''v1'') (NewScheme lib)
      in case scheme_AddToScheme lib p s1 of (Some e, s) \<Rightarrow> Panic | (None, s) \<Rightarrow> Ok s)"

definition fake_AddToScheme :: "'s scheme_lib \<Rightarrow> 's v1alpha1_package \<Rightarrow> 's scheme_fun" where
  "fake_AddToScheme lib p = builder_AddToScheme lib [v1alpha1_AddToScheme lib p]"

definition fake_init :: "'s scheme_lib \<Rightarrow> 's v1alpha1_package \<Rightarrow> ('s, liberr) res" where
  "fake_init lib p =
     (let s1 = AddToGroupVersion lib ('''', ''v1'') (NewScheme lib)
      in case fake_AddToScheme lib p s1 of (Some e, s) \<Rightarrow> Panic | (None, s) \<Rightarrow> Ok s)"

text \<open>
  Loading the packages never panics, and every scheme the API is added to, before or after other
  registrations, knows its two kinds.
\<close>

lemma v1alpha1_AddToScheme_loaded:
  assumes "scheme_lib_ok lib known"
  shows "v1alpha1_AddToScheme lib (v1alpha1_loaded lib) s = addKnownTypes lib s"
  using assms
  by (simp add: v1alpha1_AddToScheme_def v1alpha1_loaded_def v1alpha1_init_def scheme_lib_ok_def addKnownTypes_def Let_def)

lemma addKnownTypes_known:
  assumes "scheme_lib_ok lib known"
  obtains s' where "addKnownTypes lib s = (None, s')" "{''DeviceNetwork'', ''DeviceNetworkList''} \<subseteq> known s' SchemeGroupVersion"
    "\<And>v. known s v \<subseteq> known s' v"
proof -
  let ?s1 = "AddKnownTypes lib SchemeGroupVersion [''DeviceNetwork'', ''DeviceNetworkList''] s"
  let ?s2 = "AddToGroupVersion lib SchemeGroupVersion ?s1"
  have kinds: "set [''DeviceNetwork'', ''DeviceNetworkList''] \<subseteq> known ?s1 SchemeGroupVersion"
    and keep: "\<And>v. known s v \<subseteq> known ?s1 v" "\<And>v. known ?s1 v \<subseteq> known ?s2 v"
    using assms unfolding scheme_lib_ok_def by blast+
  show thesis
  proof (rule that [of ?s2])
    show "{''DeviceNetwork'', ''DeviceNetworkList''} \<subseteq> known ?s2 SchemeGroupVersion"
      using order_trans [OF kinds keep(2)] by simp
    show "known s v \<subseteq> known ?s2 v" for v
      by (rule order_trans [OF keep])
  qed (simp add: addKnownTypes_def Let_def)
qed

lemma init_knows_api:
  assumes "scheme_lib_ok lib known"
  shows "\<exists>s. scheme_init lib (v1alpha1_loaded lib) = Ok s \<and>
    {''DeviceNetwork'', ''DeviceNetworkList''} \<subseteq> known s SchemeGroupVersion"
    and "fake_init lib (v1alpha1_loaded lib) = scheme_init lib (v1alpha1_loaded lib)"
proof -
  obtain s' where s': "addKnownTypes lib (AddToGroupVersion lib ('''', ''v1'') (NewScheme lib)) = (None, s')"
    "{''DeviceNetwork'', ''DeviceNetworkList''} \<subseteq> known s' SchemeGroupVersion"
    by (rule addKnownTypes_known [OF assms])
  have "builder_AddToScheme lib [v1alpha1_AddToScheme lib (v1alpha1_loaded lib)]
      (AddToGroupVersion lib ('''', ''v1'') (NewScheme lib)) = (None, s')"
    using assms by (simp add: scheme_lib_ok_def v1alpha1_AddToScheme_loaded [OF assms] s'(1))
  with s'(2) show "\<exists>s. scheme_init lib (v1alpha1_loaded lib) = Ok s \<and>
      {''DeviceNetwork'', ''DeviceNetworkList''} \<subseteq> known s SchemeGroupVersion"
    by (simp add: scheme_init_def scheme_AddToScheme_def)
qed (simp add: fake_init_def scheme_init_def fake_AddToScheme_def scheme_AddToScheme_def)

text \<open>A scheme as the list of its kinds, and what the packages put into it with and without \<open>init\<close>.\<close>

fun run_builder :: "'s builder \<Rightarrow> 's scheme_fun" where
  "run_builder [] s = (None, s)"
| "run_builder (f # b) s = (case f s of (Some e, s') \<Rightarrow> (Some e, s') | (None, s') \<Rightarrow> run_builder b s')"

definition demo_scheme_lib :: "(gv \<times> string) list scheme_lib" where
  "demo_scheme_lib =
     \<lparr>NewScheme = [], AddKnownTypes = (\<lambda>v ts s. map (Pair v) ts @ s),
      AddToGroupVersion = (\<lambda>v s. (v, ''ListOptions'') # s),
      builder_Register = (\<lambda>b fs. b @ fs), builder_AddToScheme = run_builder\<rparr>"

lemma demo_scheme_lib_ok: "scheme_lib_ok demo_scheme_lib (\<lambda>s v. {k. (v, k) \<in> set s})"
  by (auto simp: scheme_lib_ok_def demo_scheme_lib_def split: prod.split option.split)

lemma demo_scheme:
  "scheme_init demo_scheme_lib (v1alpha1_loaded demo_scheme_lib) =
     Ok [(SchemeGroupVersion, ''ListOptions''), (SchemeGroupVersion, ''DeviceNetwork''),
         (SchemeGroupVersion, ''DeviceNetworkList''), (('''', ''v1''), ''ListOptions'')]"
  "scheme_init demo_scheme_lib \<lparr>SchemeBuilder = []\<rparr> = Ok [(('''', ''v1''), ''ListOptions'')]"
  by (simp_all add: scheme_init_def scheme_AddToScheme_def v1alpha1_AddToScheme_def v1alpha1_loaded_def v1alpha1_init_def
      addKnownTypes_def demo_scheme_lib_def Let_def)

section \<open>The fake client set\<close>

type_synonym gvr = "gv \<times> string"

text \<open>An action a fake client records; a watch carries the options it was called with.\<close>

datatype action =
    WatchAction (GetResource: gvr) (GetNamespace: string) (act_ListOptions: ListOptions)
  | OtherAction (GetResource: gvr) (GetNamespace: string)

text \<open>The object tracker of \<open>client-go/testing\<close>, of which objects are added and watches are made.\<close>

record ('s, 'o, 'obj) fake_lib =
  NewObjectTracker :: "'s \<Rightarrow> 'o"
  tracker_Add :: "'obj \<Rightarrow> 'o \<Rightarrow> liberr + 'o"
  tracker_Watch :: "gvr \<Rightarrow> string \<Rightarrow> ListOptions \<Rightarrow> 'o \<Rightarrow> liberr + handle"

text \<open>Whether a reactor has handled an action, the watch it returns and its error.\<close>

type_synonym 'o watch_reactor = "action \<Rightarrow> 'o \<Rightarrow> bool \<times> handle option \<times> liberr option"

text \<open>The reactors of the fake in the order they are tried; \<open>ObjectReaction\<close> is the library's.\<close>

datatype reactor = ObjectReaction

record 'o fake_Clientset =
  reactors :: "(string \<times> string \<times> reactor) list"
  watch_reactors :: "(string \<times> 'o watch_reactor) list"
  tracker :: 'o

fun add_objects :: "('s, 'o, 'obj) fake_lib \<Rightarrow> 'obj list \<Rightarrow> 'o \<Rightarrow> ('o, liberr) res" where
  "add_objects lib [] t = Ok t"
| "add_objects lib (obj # objects) t =
     (case tracker_Add lib obj t of Inl e \<Rightarrow> Panic | Inr t' \<Rightarrow> add_objects lib objects t')"

definition watch_reaction :: "('s, 'o, 'obj) fake_lib \<Rightarrow> 'o watch_reactor" where
  "watch_reaction lib action t =
     (let opts = (case action of WatchAction gvr ns lo \<Rightarrow> lo | OtherAction gvr ns \<Rightarrow> \<lparr>FieldSelector = []\<rparr>)
      in case tracker_Watch lib (GetResource action) (GetNamespace action) opts t of
           Inl e \<Rightarrow> (False, None, Some e)
         | Inr watch \<Rightarrow> (True, Some watch, None))"

definition NewSimpleClientset ::
  "('s, 'o, 'obj) fake_lib \<Rightarrow> 's \<Rightarrow> 'obj list \<Rightarrow> ('o fake_Clientset, liberr) res" where
  "NewSimpleClientset lib scheme objects =
     (case add_objects lib objects (NewObjectTracker lib scheme) of
        Ok t \<Rightarrow> Ok \<lparr>reactors = [(''*'', ''*'', ObjectReaction)], watch_reactors = [(''*'', watch_reaction lib)],
                    tracker = t\<rparr>
      | Err e \<Rightarrow> Err e
      | Panic \<Rightarrow> Panic
      | Diverge \<Rightarrow> Diverge)"

definition fake_Tracker :: "'o fake_Clientset \<Rightarrow> 'o" where
  "fake_Tracker c = tracker c"

definition IsWatchListSemanticsUnSupported :: "'o fake_Clientset \<Rightarrow> bool" where
  "IsWatchListSemanticsUnSupported c \<longleftrightarrow> True"

text \<open>
  The typed fake client: which resource and kind its generic client asks for. Its REST client is a nil
  pointer in an interface, so not a nil interface.
\<close>

record fakeDeviceNetworks =
  fdn_Namespace :: string
  fdn_Resource :: gvr
  fdn_Kind :: "gv \<times> string"

definition newFakeDeviceNetworks :: fakeDeviceNetworks where
  "newFakeDeviceNetworks =
     \<lparr>fdn_Namespace = '''', fdn_Resource = (SchemeGroupVersion, ''devicenetworks''),
      fdn_Kind = (SchemeGroupVersion, ''DeviceNetwork'')\<rparr>"

definition fake_RESTClient :: "handle option option" where
  "fake_RESTClient = Some None"

text \<open>A fake client set has every object it is given, or it panics on the first that the tracker refuses.\<close>

fun all_added :: "('s, 'o, 'obj) fake_lib \<Rightarrow> 'obj list \<Rightarrow> 'o \<Rightarrow> 'o \<Rightarrow> bool" where
  "all_added lib [] t t' \<longleftrightarrow> t' = t"
| "all_added lib (obj # objects) t t' \<longleftrightarrow> (\<exists>t1. tracker_Add lib obj t = Inr t1 \<and> all_added lib objects t1 t')"

lemma add_objects_iff:
  "add_objects lib objects t = Ok t' \<longleftrightarrow> all_added lib objects t t'"
  "add_objects lib objects t = Panic \<longleftrightarrow> (\<nexists>t'. all_added lib objects t t')"
  by (induction objects arbitrary: t) (auto split: sum.splits)

lemma NewSimpleClientset_cases:
  assumes "NewSimpleClientset lib scheme objects = out"
  obtains (made) t where "all_added lib objects (NewObjectTracker lib scheme) t"
      "out = Ok \<lparr>reactors = [(''*'', ''*'', ObjectReaction)], watch_reactors = [(''*'', watch_reaction lib)], tracker = t\<rparr>"
  | (panic) "\<nexists>t. all_added lib objects (NewObjectTracker lib scheme) t" "out = Panic"
proof (cases "\<exists>t. all_added lib objects (NewObjectTracker lib scheme) t")
  case True
  then obtain t where "all_added lib objects (NewObjectTracker lib scheme) t"
    by blast
  with add_objects_iff(1) [THEN iffD2, OF this] assms made show thesis
    by (auto simp: NewSimpleClientset_def)
next
  case False
  with add_objects_iff(2) [THEN iffD2, OF this] assms panic show thesis
    by (auto simp: NewSimpleClientset_def)
qed

text \<open>A watch is handled exactly when the tracker makes one, and with the options of the action.\<close>

lemma watch_reaction_handled:
  "fst (watch_reaction lib (WatchAction gvr ns opts) t) \<longleftrightarrow> (\<exists>w. tracker_Watch lib gvr ns opts t = Inr w)"
  by (auto simp: watch_reaction_def split: sum.split)

end
