(* ===== verification/Kernel.thy ===== *)
theory Kernel
  imports KubeTypes
begin

text \<open>
  The kernel as the code sees it: the calls of \<open>vishvananda/netlink\<close>, \<open>vishvananda/netns\<close> and
  \<open>os.ReadDir\<close>. None of it is part of the repository, so it is a parameter: the kernel is any
  function that answers a call from the calls made before it, and a function of the model takes
  the list of past calls and returns it extended. A theorem about the list is a theorem about
  which calls the code makes, in which order, whatever the kernel answers.
\<close>

record Link =
  link_Name :: string
  link_Index :: int
  link_ParentIndex :: int
  link_MasterIndex :: int
  link_EncapType :: string
  link_Type :: string

datatype NetlinkMacvlanMode =
    MACVLAN_MODE_PRIVATE
  | MACVLAN_MODE_VEPA
  | MACVLAN_MODE_BRIDGE
  | MACVLAN_MODE_PASSTHRU
  | MACVLAN_MODE_SOURCE

record MacvlanLink =
  ml_Name :: string
  ml_ParentIndex :: int
  ml_Namespace :: int
  ml_Mode :: NetlinkMacvlanMode

type_synonym RdmaLink = nat

datatype kop =
    NetnsGetFromPath string
  | NsHandleClose int
  | ReadDir "string list"
  | RdmaLinkByName string
  | RdmaLinkSetNsFd RdmaLink "32 word"
  | LinkByName string
  | LinkSetNsFd Link int
  | LinkAdd MacvlanLink

type_synonym khist = "kop list"

datatype dir_result = Entries "string list" | NotExist | ReadError liberr

datatype link_error = LinkNotFoundError | OtherLinkError liberr

record kernel =
  k_GetFromPath :: "khist \<Rightarrow> string \<Rightarrow> liberr + int"
  k_ReadDir :: "khist \<Rightarrow> string list \<Rightarrow> dir_result"
  k_RdmaLinkByName :: "khist \<Rightarrow> string \<Rightarrow> liberr + RdmaLink"
  k_RdmaLinkSetNsFd :: "khist \<Rightarrow> RdmaLink \<Rightarrow> 32 word \<Rightarrow> liberr option"
  k_LinkByName :: "khist \<Rightarrow> string \<Rightarrow> link_error + Link"
  k_LinkSetNsFd :: "khist \<Rightarrow> Link \<Rightarrow> int \<Rightarrow> liberr option"
  k_LinkAdd :: "khist \<Rightarrow> MacvlanLink \<Rightarrow> liberr option"

section \<open>RDMA devices of an interface: pkg/host/rdma.go\<close>

text \<open>
  \<open>filepath.Join\<close> of path elements is the list of the elements. The directory is read by the
  given function, so that the callers can pass the kernel's answer at their point in time.
\<close>

definition DefaultSysfsNetRoot :: string where
  "DefaultSysfsNetRoot = ''/sys/class/net''"

datatype rdma_error = FailedToReadRDMADevices "string list" liberr

definition ib_root :: "string \<Rightarrow> string \<Rightarrow> string list" where
  "ib_root sysfsNetRoot ifName = [sysfsNetRoot, ifName, ''device'', ''infiniband'']"

definition RDMADevicesForNetdev ::
  "(string list \<Rightarrow> dir_result) \<Rightarrow> string \<Rightarrow> string \<Rightarrow> (string list, rdma_error) res" where
  "RDMADevicesForNetdev readDir sysfsNetRoot ifName =
     (let ibRoot = ib_root sysfsNetRoot ifName in
      case readDir ibRoot of
        NotExist \<Rightarrow> Ok []
      | ReadError e \<Rightarrow> Err (FailedToReadRDMADevices ibRoot e)
      | Entries entries \<Rightarrow> Ok entries)"

definition isRDMACapable :: "(string list \<Rightarrow> dir_result) \<Rightarrow> string \<Rightarrow> string \<Rightarrow> bool" where
  "isRDMACapable readDir sysfsNetRoot ifName =
     (case RDMADevicesForNetdev readDir sysfsNetRoot ifName of
        Ok devices \<Rightarrow> length devices > 0
      | _ \<Rightarrow> False)"

lemma isRDMACapable_iff:
  "isRDMACapable readDir root ifName \<longleftrightarrow>
     (\<exists>d ds. readDir (ib_root root ifName) = Entries (d # ds))"
  by (auto simp: isRDMACapable_def RDMADevicesForNetdev_def Let_def neq_Nil_conv
      split: dir_result.splits)

end
