(* ===== verification/Configurator.thy ===== *)
theory Configurator
  imports Kernel Common
begin

text \<open>
  The interface \<open>Configurator\<close> of \<open>pkg/configurators/common.go\<close> as a record of its methods,
  what the two implementations share, and the contract its clients (the reconciler, the
  driver) rely on, as the locale \<open>configurator_contract\<close>.
\<close>

datatype configurator_error =
    HostDeviceNil
  | DeviceConfigurationNil
  | StatusNil
  | StatusDataNil
  | FailedToAllocateCommon common_error
  | FailedToUnmarshal liberr
  | NoDeviceInformation
  | NoDeviceConfigurationInformation
  | NotMacvlanConfiguration
  | NotHostDeviceConfiguration
  | FailedToGetNetns string liberr
  | InvalidMacvlanMode string
  | FailedToAddMacvlan liberr
  | RDMADiscovery rdma_error
  | FailedToGetRdmaLink string liberr
  | FailedToMoveRdmaLink string liberr
  | FailedToGetLink string link_error
  | FailedToMoveLink string liberr

record Configurator =
  IsSupported :: "HostDevice option \<Rightarrow> DeviceConfiguration option \<Rightarrow> (bool, configurator_error) res"
  ExposedDevice :: "HostDevice option \<Rightarrow> KubeDevice option \<Rightarrow> (KubeDevice option, configurator_error) res"
  Allocate :: "HostDevice option \<Rightarrow> DeviceConfiguration option \<Rightarrow>
    NetworkInterfaceConfiguration option \<Rightarrow> AllocatedDeviceStatus option \<Rightarrow> rand \<Rightarrow>
    (AllocatedDeviceStatus option, configurator_error) res \<times> rand"
  Configure :: "string \<Rightarrow> AllocatedDeviceStatus option \<Rightarrow> khist \<Rightarrow>
    (AllocatedDeviceStatus option, configurator_error) res \<times> khist"
  Release :: "string \<Rightarrow> AllocatedDeviceStatus option \<Rightarrow>
    (AllocatedDeviceStatus option, configurator_error) res"

datatype CommonConfigurator = CommonConfigurator

section \<open>Shared by the implementations\<close>

text \<open>The copy of the given device, or a new one, with its maps made.\<close>

definition exposed_base :: "KubeDevice option \<Rightarrow> KubeDevice" where
  "exposed_base device =
     (case device of
        Some d \<Rightarrow>
          d\<lparr>Attributes := Some (case Attributes d of None \<Rightarrow> Map.empty | Some m \<Rightarrow> m),
            Capacity := Some (case Capacity d of None \<Rightarrow> Map.empty | Some m \<Rightarrow> m)\<rparr>
      | None \<Rightarrow>
          empty_KubeDevice\<lparr>Attributes := Some Map.empty, Capacity := Some Map.empty\<rparr>)"

definition mutual_exclusion :: string where
  "mutual_exclusion = ''mutual-exclusion''"

definition consumption :: "string \<Rightarrow> Quantity \<Rightarrow> DeviceCounterConsumption" where
  "consumption counterSet q =
     \<lparr>consumed_CounterSet = counterSet,
      consumed_Counters = [mutual_exclusion \<mapsto> \<lparr>counter_Value = q\<rparr>]\<rparr>"

text \<open>
  The tail both \<open>Allocate\<close> methods have: the network data is replaced, then the common
  configurator, when there is one, fills it.
\<close>

definition allocate_common ::
  "CommonConfigurator option \<Rightarrow> HostDevice option \<Rightarrow>
   NetworkInterfaceConfiguration option \<Rightarrow> AllocatedDeviceStatus \<Rightarrow> rand \<Rightarrow>
   (AllocatedDeviceStatus option, configurator_error) res \<times> rand" where
  "allocate_common common hostDevice networkInterfaceConfiguration statusRes r =
     (case common of
        None \<Rightarrow> (Ok (Some statusRes), r)
      | Some _ \<Rightarrow>
          (case Common_Allocate hostDevice networkInterfaceConfiguration (Some statusRes) r of
             ((Ok statusRes', _), r') \<Rightarrow> (Ok (Some statusRes'), r')
           | ((Err e, _), r') \<Rightarrow> (Err (FailedToAllocateCommon e), r')
           | ((Panic, _), r') \<Rightarrow> (Panic, r')
           | ((Diverge, _), r') \<Rightarrow> (Diverge, r')))"

text \<open>
  Opening the pod's network namespace, with the deferred close: it runs on every way out of
  the body, a panic included, and a failing close is only logged.
\<close>

definition with_netns ::
  "kernel \<Rightarrow> string \<Rightarrow> (int \<Rightarrow> khist \<Rightarrow> ('a, configurator_error) res \<times> khist) \<Rightarrow> khist \<Rightarrow>
   ('a, configurator_error) res \<times> khist" where
  "with_netns k podNetworkNamespace body h =
     (let h1 = h @ [NetnsGetFromPath podNetworkNamespace] in
      case k_GetFromPath k h podNetworkNamespace of
        Inl e \<Rightarrow> (Err (FailedToGetNetns podNetworkNamespace e), h1)
      | Inr nsHandle \<Rightarrow> (let (out, h2) = body nsHandle h1 in (out, h2 @ [NsHandleClose nsHandle])))"

lemma exposed_base_None [simp]:
  "Attributes (exposed_base None) = Some Map.empty" "Capacity (exposed_base None) = Some Map.empty"
  "ConsumesCounters (exposed_base None) = []"
  by (simp_all add: exposed_base_def empty_KubeDevice_def)

lemma allocate_common_Ok:
  assumes "ads_NetworkData st = Some nd" and "IPs nd = []"
    and "fst (allocate_common (Some c) host (Some nic) st r) = Ok out"
  shows "\<exists>ips. list_all2 address_of_cidr (random_cidrs (nic_IPAM nic)) ips \<and>
    out = Some (st\<lparr>ads_NetworkData := Some (nd\<lparr>IPs := ips\<rparr>)\<rparr>)"
proof -
  from assms obtain st' r' where
    "allocate_ipams (nic_IPAM nic) st r = (Ok st', r')" and "out = Some st'"
    by (auto simp: allocate_common_def Common_Allocate_def Let_def split: split_results)
  with allocate_ipams_Ok [OF this(1) assms(1)] assms(2) show ?thesis
    by auto
qed

text \<open>Whatever the common configurator does, it only writes the network data.\<close>

definition same_identity :: "AllocatedDeviceStatus \<Rightarrow> AllocatedDeviceStatus \<Rightarrow> bool" where
  "same_identity a b \<longleftrightarrow>
     ads_Driver a = ads_Driver b \<and> ads_Pool a = ads_Pool b \<and> ads_Device a = ads_Device b \<and>
     ads_ShareID a = ads_ShareID b \<and> ads_Data a = ads_Data b"

lemma same_identity_refl [simp]: "same_identity a a"
  by (simp add: same_identity_def)

lemma allocate_ipams_frame:
  "fst (allocate_ipams ipams st r) = Ok st' \<Longrightarrow> ads_NetworkData st = Some nd \<Longrightarrow>
   same_identity st' st \<and> (\<exists>nd'. ads_NetworkData st' = Some nd' \<and>
     nd_InterfaceName nd' = nd_InterfaceName nd)"
proof (induction ipams st r arbitrary: nd rule: allocate_ipams.induct)
  case (3 ipam rest st r)
  show ?case
  proof (cases "Provider ipam = IPAMProviderRandom")
    case True
    with 3(3,4) obtain x a net ip r1 where
      x: "Random ipam = Some x" "CIDR x \<noteq> []" "ParseCIDR (CIDR x) = Inr (a, net)"
        "generateRandomIP net r = (Ok ip, r1)"
      by (auto split: option.splits if_splits sum.splits prod.splits res.splits)
    define ones where "ones = fst (mask_Size (net_Mask net))"
    obtain bits where "mask_Size (net_Mask net) = (ones, bits)"
      by (cases "mask_Size (net_Mask net)") (simp add: ones_def)
    with x True 3(3,4) 3(1) show ?thesis
      by (fastforce simp: same_identity_def)
  next
    case False
    with 3(2-4) show ?thesis
      by simp
  qed
qed simp_all

lemma allocate_common_frame:
  assumes "fst (allocate_common common host nic st r) = Ok out" and "ads_NetworkData st = Some nd"
  shows "\<exists>st' nd'. out = Some st' \<and> same_identity st' st \<and> ads_NetworkData st' = Some nd' \<and>
    nd_InterfaceName nd' = nd_InterfaceName nd"
proof (cases common)
  case None
  with assms show ?thesis
    by (auto simp: allocate_common_def)
next
  case (Some c)
  show ?thesis
  proof (cases "IPs nd = []")
    case False
    with Some assms show ?thesis
      by (auto simp: allocate_common_def Common_Allocate_def split: option.splits)
  next
    case True
    with Some assms obtain config :: NetworkInterfaceConfiguration and st' r' where "out = Some st'"
      and "allocate_ipams (nic_IPAM config) st r = (Ok st', r')"
      by (auto simp: allocate_common_def Common_Allocate_def Let_def split: split_results)
    with allocate_ipams_frame [of "nic_IPAM config" st r st' nd] assms(2) show ?thesis
      by auto
  qed
qed

section \<open>The contract\<close>

text \<open>
  A configurator supports devices for configurations of its own type only and never fails to
  say so; what it exposes of a host device draws on that device's counter set and nothing
  else; and an allocation keeps the identity and the data of the status it fills.
\<close>

locale configurator_contract =
  fixes c :: Configurator
    and ty :: DeviceType
    and share :: Quantity
  assumes supported_answers: "\<exists>b. IsSupported c (Some host) (Some dc) = Ok b"
    and supported_type: "IsSupported c (Some host) (Some dc) = Ok True \<Longrightarrow> GetDeviceType dc = ty"
    and exposed: "\<exists>d. ExposedDevice c (Some host) None = Ok (Some d) \<and>
      Attributes d = Some Map.empty \<and> ConsumesCounters d = [consumption (hd_Name host) share]"
    and allocate_frame: "fst (Allocate c hdo dco nico (Some st) r) = Ok out \<Longrightarrow>
      \<exists>st'. out = Some st' \<and> same_identity st' st \<and> ads_NetworkData st' \<noteq> None"
begin

lemma not_supported_of_other_type:
  assumes "GetDeviceType dc \<noteq> ty"
  shows "IsSupported c (Some host) (Some dc) = Ok False"
proof -
  obtain b where b: "IsSupported c (Some host) (Some dc) = Ok b"
    using supported_answers by blast
  then show ?thesis
    using supported_type assms by (cases b) auto
qed

lemma exposed_consumes_only_host_device:
  assumes "ExposedDevice c (Some host) None = Ok (Some d)" and "x \<in> set (ConsumesCounters d)"
  shows "consumed_CounterSet x = hd_Name host"
  using exposed [of host] assms by (auto simp: consumption_def)

lemma exposed_never_fails: "is_ok (ExposedDevice c (Some host) None)"
  using exposed [of host] by auto

end

text \<open>
  A map of configurators by device type, each of which honours the contract for its type:
  what the reconciler, the driver and the NRI plugin are given. \<open>share\<close> is the part of a
  device's counter that one allocation of the type takes.
\<close>

locale configurator_registry =
  fixes configurators :: "DeviceType \<rightharpoonup> Configurator"
    and share :: "DeviceType \<Rightarrow> Quantity"
  assumes registered: "configurators ty = Some c \<Longrightarrow> configurator_contract c ty (share ty)"
begin

lemma registered_exposed:
  assumes "configurators ty = Some c" and "ExposedDevice c (Some host) None = Ok dev"
  shows "\<exists>d. dev = Some d \<and> Attributes d = Some Map.empty \<and>
    ConsumesCounters d = [consumption (hd_Name host) (share ty)]"
  using configurator_contract.exposed [OF registered [OF assms(1)], of host] assms(2) by auto

lemma registered_supported_type:
  assumes "configurators ty = Some c" and "IsSupported c (Some host) (Some dc) = Ok True"
  shows "GetDeviceType dc = ty"
  using configurator_contract.supported_type [OF registered [OF assms(1)] assms(2)] .

lemma registered_allocate_frame:
  assumes "configurators ty = Some c" and "fst (Allocate c hdo dco nico (Some st) r) = Ok out"
  shows "\<exists>st'. out = Some st' \<and> same_identity st' st \<and> ads_NetworkData st' \<noteq> None"
  using configurator_contract.allocate_frame [OF registered [OF assms(1)] assms(2)] .

end

end
