(* ===== verification/Macvlan.thy ===== *)
theory Macvlan
  imports Configurator
begin

text \<open>
  The macvlan configurator, \<open>pkg/configurators/macvlan.go\<close>: a new macvlan interface on top of
  the host device, created in the pod's network namespace.
\<close>

record MacvlanConfigurator =
  mcvln_CommonConfigurator :: "CommonConfigurator option"

definition macvlanModeMap :: "MacvlanMode \<rightharpoonup> NetlinkMacvlanMode" where
  "macvlanModeMap =
     [MacvlanModeBridge \<mapsto> MACVLAN_MODE_BRIDGE,
      MacvlanModePrivate \<mapsto> MACVLAN_MODE_PRIVATE,
      MacvlanModeVepa \<mapsto> MACVLAN_MODE_VEPA,
      MacvlanModePassthru \<mapsto> MACVLAN_MODE_PASSTHRU,
      MacvlanModeSource \<mapsto> MACVLAN_MODE_SOURCE]"

definition Macvlan_IsSupported ::
  "HostDevice option \<Rightarrow> DeviceConfiguration option \<Rightarrow> (bool, configurator_error) res" where
  "Macvlan_IsSupported hostDevice deviceConfiguration =
     (case hostDevice of
        None \<Rightarrow> Err HostDeviceNil
      | Some host \<Rightarrow>
          (case deviceConfiguration of
             None \<Rightarrow> Err DeviceConfigurationNil
           | Some dc \<Rightarrow>
               if GetDeviceType dc \<noteq> DeviceTypeMacvlan then Ok False
               else (case Mode (GetMacvlan dc) of
                       None \<Rightarrow> Panic
                     | Some mode \<Rightarrow>
                         if macvlanModeMap mode = None then Ok False
                         else if LinkLayerType (hd_Spec host) \<noteq> ''ether'' then Ok False
                         else if MasterIndex (hd_Spec host) \<noteq> 0 then Ok False
                         else Ok True)))"

definition Macvlan_ExposedDevice ::
  "HostDevice option \<Rightarrow> KubeDevice option \<Rightarrow> (KubeDevice option, configurator_error) res" where
  "Macvlan_ExposedDevice hostDevice device =
     (let deviceRes = exposed_base device in
      case hostDevice of
        None \<Rightarrow> Err HostDeviceNil
      | Some host \<Rightarrow>
          (let one = MustParse ''1'';
               maxVirtualDevices = MustParse (dec MaxVirtualDevices)
           in Ok (Some (deviceRes
                \<lparr>AllowMultipleAllocations := Some True,
                 Capacity := map_option (\<lambda>m. m(NetworkInterfaceCapacityMaxVirtualInterfaces \<mapsto>
                     \<lparr>capacity_Value = maxVirtualDevices,
                      RequestPolicy = Some \<lparr>policy_Default = Some one, ValidValues = [one]\<rparr>\<rparr>))
                   (Capacity deviceRes),
                 ConsumesCounters := ConsumesCounters deviceRes @ [consumption (hd_Name host) one]\<rparr>))))"

definition Macvlan_Allocate ::
  "MacvlanConfigurator \<Rightarrow> HostDevice option \<Rightarrow> DeviceConfiguration option \<Rightarrow>
   NetworkInterfaceConfiguration option \<Rightarrow> AllocatedDeviceStatus option \<Rightarrow> rand \<Rightarrow>
   (AllocatedDeviceStatus option, configurator_error) res \<times> rand" where
  "Macvlan_Allocate mcvln hostDevice deviceConfiguration networkInterfaceConfiguration
       allocatedDeviceStatus r =
     (case allocatedDeviceStatus of
        None \<Rightarrow> (Err StatusNil, r)
      | Some status \<Rightarrow>
          (let (name, r1) = randomName r;
               statusRes = status\<lparr>ads_NetworkData :=
                 Some (empty_NetworkDeviceData\<lparr>nd_InterfaceName := name\<rparr>)\<rparr>
           in allocate_common (mcvln_CommonConfigurator mcvln) hostDevice
                networkInterfaceConfiguration statusRes r1))"

text \<open>
  \<open>Configure\<close>. The raw data is read through \<open>allocatedDeviceStatus.Data\<close> without a nil check,
  and the interface name through \<open>NetworkData\<close>; a nil byte slice decodes like an empty one.
\<close>

definition raw_bytes :: "RawExtension \<Rightarrow> string" where
  "raw_bytes ext = (case Raw ext of None \<Rightarrow> '''' | Some b \<Rightarrow> b)"

definition macvlan_body ::
  "kernel \<Rightarrow> AllocatedDeviceStatus \<Rightarrow> HostDevice \<Rightarrow> DeviceConfiguration \<Rightarrow> int \<Rightarrow> khist \<Rightarrow>
   (AllocatedDeviceStatus option, configurator_error) res \<times> khist" where
  "macvlan_body k status device dc nsHandle h =
     (case Mode (GetMacvlan dc) of
        None \<Rightarrow> (Panic, h)
      | Some mode' \<Rightarrow>
          (case macvlanModeMap mode' of
             None \<Rightarrow> (Err (InvalidMacvlanMode mode'), h)
           | Some mode \<Rightarrow>
               (case ads_NetworkData status of
                  None \<Rightarrow> (Panic, h)
                | Some nd \<Rightarrow>
                    (let macvlan =
                           \<lparr>ml_Name = nd_InterfaceName nd,
                            ml_ParentIndex = InterfaceIndex (hd_Spec device),
                            ml_Namespace = nsHandle,
                            ml_Mode = mode\<rparr>;
                         h1 = h @ [LinkAdd macvlan]
                     in case k_LinkAdd k h macvlan of
                          Some e \<Rightarrow> (Err (FailedToAddMacvlan e), h1)
                        | None \<Rightarrow> (Ok (Some status), h1)))))"

definition Macvlan_Configure ::
  "json_lib \<Rightarrow> kernel \<Rightarrow> string \<Rightarrow> AllocatedDeviceStatus option \<Rightarrow> khist \<Rightarrow>
   (AllocatedDeviceStatus option, configurator_error) res \<times> khist" where
  "Macvlan_Configure json k podNetworkNamespace allocatedDeviceStatus h =
     (case allocatedDeviceStatus of
        None \<Rightarrow> (Err StatusNil, h)
      | Some status \<Rightarrow>
          (case ads_Data status of
             None \<Rightarrow> (Panic, h)
           | Some ext \<Rightarrow>
               (case Unmarshal json (raw_bytes ext) of
                  Inl e \<Rightarrow> (Err (FailedToUnmarshal e), h)
                | Inr sd \<Rightarrow>
                    (case sd_Device sd of
                       None \<Rightarrow> (Err NoDeviceInformation, h)
                     | Some device \<Rightarrow>
                         (case sd_DeviceConfiguration sd of
                            None \<Rightarrow> (Err NoDeviceConfigurationInformation, h)
                          | Some dc \<Rightarrow>
                              if GetDeviceType dc \<noteq> DeviceTypeMacvlan
                              then (Err NotMacvlanConfiguration, h)
                              else with_netns k podNetworkNamespace
                                     (macvlan_body k status device dc) h)))))"

definition Macvlan_Release ::
  "string \<Rightarrow> AllocatedDeviceStatus option \<Rightarrow>
   (AllocatedDeviceStatus option, configurator_error) res" where
  "Macvlan_Release podNetworkNamespace allocatedDeviceStatus = Ok allocatedDeviceStatus"

definition Macvlan_Configurator ::
  "json_lib \<Rightarrow> kernel \<Rightarrow> MacvlanConfigurator \<Rightarrow> Configurator" where
  "Macvlan_Configurator json k mcvln =
     \<lparr>IsSupported = Macvlan_IsSupported,
      ExposedDevice = Macvlan_ExposedDevice,
      Allocate = Macvlan_Allocate mcvln,
      Configure = Macvlan_Configure json k,
      Release = Macvlan_Release\<rparr>"

section \<open>Support\<close>

lemma macvlanModeMap_dom:
  "dom macvlanModeMap = {''private'', ''vepa'', ''bridge'', ''passthru'', ''source''}"
  by (auto simp: macvlanModeMap_def macvlan_mode_defs)

lemma Macvlan_IsSupported_iff:
  "Macvlan_IsSupported (Some host) (Some dc) = Ok True \<longleftrightarrow>
     GetDeviceType dc = DeviceTypeMacvlan \<and> (\<exists>mode \<in> dom macvlanModeMap. Mode (GetMacvlan dc) = Some mode) \<and>
     LinkLayerType (hd_Spec host) = ''ether'' \<and> MasterIndex (hd_Spec host) = 0"
  using GetMacvlan_Mode [of dc] by (auto simp: Macvlan_IsSupported_def split: if_splits)

lemma Macvlan_IsSupported_answers: "\<exists>b. Macvlan_IsSupported (Some host) (Some dc) = Ok b"
  using GetMacvlan_Mode [of dc] by (auto simp: Macvlan_IsSupported_def)

lemma Macvlan_ExposedDevice_new:
  "\<exists>d. Macvlan_ExposedDevice (Some host) None = Ok (Some d) \<and> Attributes d = Some Map.empty \<and>
     ConsumesCounters d = [consumption (hd_Name host) (MustParse ''1'')] \<and>
     AllowMultipleAllocations d = Some True"
  by (simp add: Macvlan_ExposedDevice_def Let_def)

lemma Macvlan_Allocate_frame:
  assumes "fst (Macvlan_Allocate m host dc nic (Some st) r) = Ok out"
  shows "\<exists>st' nd'. out = Some st' \<and> same_identity st' st \<and> ads_NetworkData st' = Some nd' \<and>
    nd_InterfaceName nd' = fst (randomName r)"
  using assms
  by (auto simp: Macvlan_Allocate_def Let_def case_prod_beta same_identity_def
      dest!: allocate_common_frame)

interpretation macvlan: configurator_contract
  "Macvlan_Configurator json k m" DeviceTypeMacvlan "MustParse ''1''"
proof unfold_locales
  fix host dc
  show "\<exists>b. IsSupported (Macvlan_Configurator json k m) (Some host) (Some dc) = Ok b"
    by (simp add: Macvlan_Configurator_def Macvlan_IsSupported_answers)
next
  fix host dc
  show "IsSupported (Macvlan_Configurator json k m) (Some host) (Some dc) = Ok True \<Longrightarrow>
      GetDeviceType dc = DeviceTypeMacvlan"
    by (simp add: Macvlan_Configurator_def Macvlan_IsSupported_iff)
next
  fix host
  show "\<exists>d. ExposedDevice (Macvlan_Configurator json k m) (Some host) None = Ok (Some d) \<and>
      Attributes d = Some Map.empty \<and>
      ConsumesCounters d = [consumption (hd_Name host) (MustParse ''1'')]"
    using Macvlan_ExposedDevice_new [of host] by (auto simp: Macvlan_Configurator_def)
next
  fix hdo dco nico st r out
  show "fst (Allocate (Macvlan_Configurator json k m) hdo dco nico (Some st) r) = Ok out \<Longrightarrow>
      \<exists>st'. out = Some st' \<and> same_identity st' st \<and> ads_NetworkData st' \<noteq> None"
    by (auto simp: Macvlan_Configurator_def dest!: Macvlan_Allocate_frame)
qed

section \<open>The calls Configure makes\<close>

text \<open>It either makes no call, or opens the namespace and, when that works, adds at most one
  link and closes the namespace last.\<close>

lemma Macvlan_Configure_calls:
  "\<exists>calls. snd (Macvlan_Configure json k ns ads h) = h @ calls \<and>
     (calls = [] \<or> calls = [NetnsGetFromPath ns] \<and> (\<exists>e. k_GetFromPath k h ns = Inl e) \<or>
      (\<exists>fd. k_GetFromPath k h ns = Inr fd \<and>
         (calls = [NetnsGetFromPath ns, NsHandleClose fd] \<or>
          (\<exists>l. calls = [NetnsGetFromPath ns, LinkAdd l, NsHandleClose fd] \<and> ml_Namespace l = fd))))"
  by (auto simp: Macvlan_Configure_def with_netns_def macvlan_body_def Let_def split: split_results)

lemma Macvlan_Configure_Ok:
  assumes "Macvlan_Configure json k ns (Some st) h = (Ok out, h')"
  shows "\<exists>ext sd device dc fd nd mode m.
    ads_Data st = Some ext \<and> Unmarshal json (raw_bytes ext) = Inr sd \<and>
    sd_Device sd = Some device \<and> sd_DeviceConfiguration sd = Some dc \<and>
    GetDeviceType dc = DeviceTypeMacvlan \<and> k_GetFromPath k h ns = Inr fd \<and>
    ads_NetworkData st = Some nd \<and> Mode (GetMacvlan dc) = Some m \<and> macvlanModeMap m = Some mode \<and>
    out = Some st \<and>
    h' = h @ [NetnsGetFromPath ns,
              LinkAdd \<lparr>ml_Name = nd_InterfaceName nd, ml_ParentIndex = InterfaceIndex (hd_Spec device),
                       ml_Namespace = fd, ml_Mode = mode\<rparr>,
              NsHandleClose fd]"
  using assms
  by (auto simp: Macvlan_Configure_def with_netns_def macvlan_body_def Let_def split: split_results)

end
