(* ===== verification/HostDev.thy ===== *)
theory HostDev
  imports Macvlan
begin

text \<open>
  The host device configurator, \<open>pkg/configurators/hostdevice.go\<close>: the host interface itself,
  with the RDMA devices behind it, moves into the pod's network namespace.
\<close>

record HostDeviceConfigurator =
  sysfsNetRoot :: string
  hdc_CommonConfigurator :: "CommonConfigurator option"

definition HostDevice_IsSupported ::
  "HostDevice option \<Rightarrow> DeviceConfiguration option \<Rightarrow> (bool, configurator_error) res" where
  "HostDevice_IsSupported hostDevice deviceConfiguration =
     (case hostDevice of
        None \<Rightarrow> Err HostDeviceNil
      | Some host \<Rightarrow>
          (case deviceConfiguration of
             None \<Rightarrow> Err DeviceConfigurationNil
           | Some dc \<Rightarrow>
               if GetDeviceType dc \<noteq> DeviceTypeHostDevice then Ok False
               else if LinkLayerType (hd_Spec host) = ''loopback'' then Ok False
               else if hs_DeviceType (hd_Spec host) \<in> {''bridge'', ''bond'', ''team'', ''tuntap''}
               then Ok False
               else if ParentIndex (hd_Spec host) \<noteq> 0 then Ok False
               else if MasterIndex (hd_Spec host) \<noteq> 0 then Ok False
               else Ok True))"

definition HostDevice_ExposedDevice ::
  "HostDevice option \<Rightarrow> KubeDevice option \<Rightarrow> (KubeDevice option, configurator_error) res" where
  "HostDevice_ExposedDevice hostDevice device =
     (let deviceRes = exposed_base device in
      case hostDevice of
        None \<Rightarrow> Err HostDeviceNil
      | Some host \<Rightarrow>
          (let max = MustParse ''65536'' in
           Ok (Some (deviceRes
             \<lparr>AllowMultipleAllocations := Some False,
              ConsumesCounters := ConsumesCounters deviceRes @ [consumption (hd_Name host) max]\<rparr>))))"

definition HostDevice_Allocate ::
  "HostDeviceConfigurator \<Rightarrow> HostDevice option \<Rightarrow> DeviceConfiguration option \<Rightarrow>
   NetworkInterfaceConfiguration option \<Rightarrow> AllocatedDeviceStatus option \<Rightarrow> rand \<Rightarrow>
   (AllocatedDeviceStatus option, configurator_error) res \<times> rand" where
  "HostDevice_Allocate hdc hostDevice deviceConfiguration networkInterfaceConfiguration
       allocatedDeviceStatus r =
     (case allocatedDeviceStatus of
        None \<Rightarrow> (Err StatusNil, r)
      | Some status \<Rightarrow>
          (case hostDevice of
             None \<Rightarrow> (Panic, r)
           | Some host \<Rightarrow>
               (let statusRes = status\<lparr>ads_NetworkData :=
                      Some (empty_NetworkDeviceData
                        \<lparr>nd_InterfaceName := InterfaceName (hd_Spec host)\<rparr>)\<rparr>
                in allocate_common (hdc_CommonConfigurator hdc) hostDevice
                     networkInterfaceConfiguration statusRes r)))"

text \<open>The loop that moves the RDMA devices; it stops at the first failure.\<close>

fun move_rdma ::
  "kernel \<Rightarrow> int \<Rightarrow> string list \<Rightarrow> khist \<Rightarrow> (unit, configurator_error) res \<times> khist" where
  "move_rdma k nsHandle [] h = (Ok (), h)"
| "move_rdma k nsHandle (rdmaDevName # rest) h =
     (let h1 = h @ [RdmaLinkByName rdmaDevName] in
      case k_RdmaLinkByName k h rdmaDevName of
        Inl e \<Rightarrow> (Err (FailedToGetRdmaLink rdmaDevName e), h1)
      | Inr rdmaLink \<Rightarrow>
          (let fd = word_of_int nsHandle; h2 = h1 @ [RdmaLinkSetNsFd rdmaLink fd] in
           case k_RdmaLinkSetNsFd k h1 rdmaLink fd of
             Some e \<Rightarrow> (Err (FailedToMoveRdmaLink rdmaDevName e), h2)
           | None \<Rightarrow> move_rdma k nsHandle rest h2))"

definition move_link ::
  "kernel \<Rightarrow> int \<Rightarrow> string \<Rightarrow> khist \<Rightarrow> (unit, configurator_error) res \<times> khist" where
  "move_link k nsHandle ifName h =
     (let h1 = h @ [LinkByName ifName] in
      case k_LinkByName k h ifName of
        Inl e \<Rightarrow> (Err (FailedToGetLink ifName e), h1)
      | Inr link \<Rightarrow>
          (let h2 = h1 @ [LinkSetNsFd link nsHandle] in
           case k_LinkSetNsFd k h1 link nsHandle of
             Some e \<Rightarrow> (Err (FailedToMoveLink ifName e), h2)
           | None \<Rightarrow> (Ok (), h2)))"

definition hostdevice_body ::
  "kernel \<Rightarrow> HostDeviceConfigurator \<Rightarrow> AllocatedDeviceStatus \<Rightarrow> HostDevice \<Rightarrow> int \<Rightarrow> khist \<Rightarrow>
   (AllocatedDeviceStatus option, configurator_error) res \<times> khist" where
  "hostdevice_body k hdc status device nsHandle h =
     (let ifName = InterfaceName (hd_Spec device);
          root = (if sysfsNetRoot hdc = '''' then DefaultSysfsNetRoot else sysfsNetRoot hdc);
          h1 = h @ [ReadDir (ib_root root ifName)]
      in case RDMADevicesForNetdev (k_ReadDir k h) root ifName of
           Err e \<Rightarrow> (Err (RDMADiscovery e), h1)
         | Panic \<Rightarrow> (Panic, h1)
         | Diverge \<Rightarrow> (Diverge, h1)
         | Ok rdmaDevices \<Rightarrow>
             (case move_rdma k nsHandle rdmaDevices h1 of
                (Err e, h2) \<Rightarrow> (Err e, h2)
              | (Panic, h2) \<Rightarrow> (Panic, h2)
              | (Diverge, h2) \<Rightarrow> (Diverge, h2)
              | (Ok _, h2) \<Rightarrow>
                  (case move_link k nsHandle ifName h2 of
                     (Err e, h3) \<Rightarrow> (Err e, h3)
                   | (Panic, h3) \<Rightarrow> (Panic, h3)
                   | (Diverge, h3) \<Rightarrow> (Diverge, h3)
                   | (Ok _, h3) \<Rightarrow> (Ok (Some status), h3))))"

definition HostDevice_Configure ::
  "json_lib \<Rightarrow> kernel \<Rightarrow> HostDeviceConfigurator \<Rightarrow> string \<Rightarrow> AllocatedDeviceStatus option \<Rightarrow> khist \<Rightarrow>
   (AllocatedDeviceStatus option, configurator_error) res \<times> khist" where
  "HostDevice_Configure json k hdc podNetworkNamespace allocatedDeviceStatus h =
     (case allocatedDeviceStatus of
        None \<Rightarrow> (Err StatusNil, h)
      | Some status \<Rightarrow>
          (case ads_Data status of
             None \<Rightarrow> (Err StatusDataNil, h)
           | Some ext \<Rightarrow>
               (case Raw ext of
                  None \<Rightarrow> (Err StatusDataNil, h)
                | Some raw \<Rightarrow>
                    (case Unmarshal json raw of
                       Inl e \<Rightarrow> (Err (FailedToUnmarshal e), h)
                     | Inr sd \<Rightarrow>
                         (case sd_Device sd of
                            None \<Rightarrow> (Err NoDeviceInformation, h)
                          | Some device \<Rightarrow>
                              (case sd_DeviceConfiguration sd of
                                 None \<Rightarrow> (Err NoDeviceConfigurationInformation, h)
                               | Some dc \<Rightarrow>
                                   if GetDeviceType dc \<noteq> DeviceTypeHostDevice
                                   then (Err NotHostDeviceConfiguration, h)
                                   else with_netns k podNetworkNamespace
                                          (hostdevice_body k hdc status device) h))))))"

definition HostDevice_Release ::
  "string \<Rightarrow> AllocatedDeviceStatus option \<Rightarrow>
   (AllocatedDeviceStatus option, configurator_error) res" where
  "HostDevice_Release podNetworkNamespace allocatedDeviceStatus = Ok None"

definition HostDevice_Configurator ::
  "json_lib \<Rightarrow> kernel \<Rightarrow> HostDeviceConfigurator \<Rightarrow> Configurator" where
  "HostDevice_Configurator json k hdc =
     \<lparr>IsSupported = HostDevice_IsSupported,
      ExposedDevice = HostDevice_ExposedDevice,
      Allocate = HostDevice_Allocate hdc,
      Configure = HostDevice_Configure json k hdc,
      Release = HostDevice_Release\<rparr>"

section \<open>Support and contract\<close>

lemma HostDevice_IsSupported_iff:
  "HostDevice_IsSupported (Some host) (Some dc) = Ok True \<longleftrightarrow>
     GetDeviceType dc = DeviceTypeHostDevice \<and> LinkLayerType (hd_Spec host) \<noteq> ''loopback'' \<and>
     hs_DeviceType (hd_Spec host) \<notin> {''bridge'', ''bond'', ''team'', ''tuntap''} \<and>
     ParentIndex (hd_Spec host) = 0 \<and> MasterIndex (hd_Spec host) = 0"
  by (simp add: HostDevice_IsSupported_def)

lemma HostDevice_ExposedDevice_new:
  "\<exists>d. HostDevice_ExposedDevice (Some host) None = Ok (Some d) \<and> Attributes d = Some Map.empty \<and>
     ConsumesCounters d = [consumption (hd_Name host) (MustParse ''65536'')] \<and>
     AllowMultipleAllocations d = Some False"
  by (simp add: HostDevice_ExposedDevice_def Let_def)

lemma HostDevice_Allocate_frame:
  assumes "fst (HostDevice_Allocate hdc hdo dc nic (Some st) r) = Ok out"
  shows "\<exists>host st' nd'. hdo = Some host \<and> out = Some st' \<and> same_identity st' st \<and>
    ads_NetworkData st' = Some nd' \<and> nd_InterfaceName nd' = InterfaceName (hd_Spec host)"
  using assms
  by (auto simp: HostDevice_Allocate_def Let_def same_identity_def split: option.splits
      dest!: allocate_common_frame)

interpretation hostdevice: configurator_contract
  "HostDevice_Configurator json k hdc" DeviceTypeHostDevice "MustParse ''65536''"
proof unfold_locales
  fix host dc
  show "\<exists>b. IsSupported (HostDevice_Configurator json k hdc) (Some host) (Some dc) = Ok b"
    by (auto simp: HostDevice_Configurator_def HostDevice_IsSupported_def)
next
  fix host dc
  show "IsSupported (HostDevice_Configurator json k hdc) (Some host) (Some dc) = Ok True \<Longrightarrow>
      GetDeviceType dc = DeviceTypeHostDevice"
    unfolding HostDevice_Configurator_def Configurator.simps by (simp only: HostDevice_IsSupported_iff)
next
  fix host
  show "\<exists>d. ExposedDevice (HostDevice_Configurator json k hdc) (Some host) None = Ok (Some d) \<and>
      Attributes d = Some Map.empty \<and>
      ConsumesCounters d = [consumption (hd_Name host) (MustParse ''65536'')]"
    using HostDevice_ExposedDevice_new [of host] by (auto simp: HostDevice_Configurator_def)
next
  fix hdo dco nico st r out
  show "fst (Allocate (HostDevice_Configurator json k hdc) hdo dco nico (Some st) r) = Ok out \<Longrightarrow>
      \<exists>st'. out = Some st' \<and> same_identity st' st \<and> ads_NetworkData st' \<noteq> None"
    by (auto simp: HostDevice_Configurator_def dest!: HostDevice_Allocate_frame)
qed

section \<open>The calls Configure makes\<close>

text \<open>The pairs of calls that move the RDMA devices.\<close>

definition rdma_calls :: "int \<Rightarrow> (string \<times> RdmaLink) list \<Rightarrow> kop list" where
  "rdma_calls nsHandle moved =
     concat (map (\<lambda>(name, l). [RdmaLinkByName name, RdmaLinkSetNsFd l (word_of_int nsHandle)]) moved)"

definition is_rdma_call :: "kop \<Rightarrow> bool" where
  "is_rdma_call op = (case op of RdmaLinkByName _ \<Rightarrow> True | RdmaLinkSetNsFd _ _ \<Rightarrow> True | _ \<Rightarrow> False)"

text \<open>
  Each of these pairs did what it was for: the kernel found this link under the name, and moved it.
\<close>

definition moved_rdma :: "kernel \<Rightarrow> int \<Rightarrow> khist \<Rightarrow> (string \<times> RdmaLink) list \<Rightarrow> bool" where
  "moved_rdma k nsHandle h moved \<longleftrightarrow>
     (\<forall>i < length moved. case moved ! i of (name, l) \<Rightarrow>
        k_RdmaLinkByName k (h @ rdma_calls nsHandle (take i moved)) name = Inr l \<and>
        k_RdmaLinkSetNsFd k (h @ rdma_calls nsHandle (take i moved) @ [RdmaLinkByName name]) l
          (word_of_int nsHandle) = None)"

lemma moved_rdma_Cons:
  assumes "k_RdmaLinkByName k h name = Inr l"
    and "k_RdmaLinkSetNsFd k (h @ [RdmaLinkByName name]) l (word_of_int fd) = None"
    and "moved_rdma k fd (h @ [RdmaLinkByName name, RdmaLinkSetNsFd l (word_of_int fd)]) moved"
  shows "moved_rdma k fd h ((name, l) # moved)"
  unfolding moved_rdma_def
proof (intro allI impI)
  fix i
  assume "i < length ((name, l) # moved)"
  with assms show "case ((name, l) # moved) ! i of (name', l') \<Rightarrow>
      k_RdmaLinkByName k (h @ rdma_calls fd (take i ((name, l) # moved))) name' = Inr l' \<and>
      k_RdmaLinkSetNsFd k (h @ rdma_calls fd (take i ((name, l) # moved)) @ [RdmaLinkByName name']) l'
        (word_of_int fd) = None"
    by (cases i) (auto simp: moved_rdma_def rdma_calls_def)
qed

lemma move_rdma_Ok:
  "move_rdma k fd names h = (Ok (), h') \<Longrightarrow>
   \<exists>moved. map fst moved = names \<and> h' = h @ rdma_calls fd moved \<and> moved_rdma k fd h moved"
proof (induction k fd names h rule: move_rdma.induct)
  case (2 k fd name rest h)
  from "2.prems" obtain l where
    l: "k_RdmaLinkByName k h name = Inr l"
    and go: "move_rdma k fd rest (h @ [RdmaLinkByName name, RdmaLinkSetNsFd l (word_of_int fd)]) = (Ok (), h')"
    by (auto simp: Let_def split: sum.splits option.splits)
  from l go "2.prems" have ns: "k_RdmaLinkSetNsFd k (h @ [RdmaLinkByName name]) l (word_of_int fd) = None"
    by (auto simp: Let_def split: option.splits)
  with "2.IH" [OF refl l refl refl] go obtain moved where
    moved: "map fst moved = rest"
      "h' = (h @ [RdmaLinkByName name, RdmaLinkSetNsFd l (word_of_int fd)]) @ rdma_calls fd moved"
      "moved_rdma k fd (h @ [RdmaLinkByName name, RdmaLinkSetNsFd l (word_of_int fd)]) moved"
    by auto
  with moved_rdma_Cons [OF l ns moved(3)] show ?case
    by (intro exI [of _ "(name, l) # moved"]) (simp add: rdma_calls_def)
qed (simp add: rdma_calls_def moved_rdma_def)

lemma move_rdma_calls:
  "\<exists>calls. snd (move_rdma k fd names h) = h @ calls \<and> list_all is_rdma_call calls"
proof (induction k fd names h rule: move_rdma.induct)
  case (2 k fd name rest h)
  show ?case
  proof (cases "k_RdmaLinkByName k h name")
    case (Inr l)
    from "2.IH" [OF refl Inr refl refl] Inr show ?thesis
      by (cases "k_RdmaLinkSetNsFd k (h @ [RdmaLinkByName name]) l (word_of_int fd)")
        (auto simp: is_rdma_call_def Let_def)
  qed (simp add: is_rdma_call_def)
qed simp

lemma move_link_cases:
  "move_link k fd ifName h = (out, h') \<Longrightarrow>
    (\<exists>e. out = Err e) \<and> h' = h @ [LinkByName ifName] \<or>
    (\<exists>l. k_LinkByName k h ifName = Inr l \<and> h' = h @ [LinkByName ifName, LinkSetNsFd l fd] \<and>
       (if k_LinkSetNsFd k (h @ [LinkByName ifName]) l fd = None then out = Ok () else \<exists>e. out = Err e))"
  by (auto simp: move_link_def Let_def split: sum.splits option.splits)

end
