(* ===== verification/Registry.thy ===== *)
theory Registry
  imports HostDev
begin

text \<open>
  The map of configurators by device type that \<open>cmd/cmd/run.go\<close> builds and hands to the
  controller, the driver and the NRI plugin, with what holds of whichever configurator it
  selects: what it supports, allocates and does to the kernel.
\<close>

definition run_Macvlan :: MacvlanConfigurator where
  "run_Macvlan = \<lparr>mcvln_CommonConfigurator = Some CommonConfigurator\<rparr>"

definition run_HostDevice :: HostDeviceConfigurator where
  "run_HostDevice = \<lparr>sysfsNetRoot = '''', hdc_CommonConfigurator = Some CommonConfigurator\<rparr>"

definition deviceConfigurators :: "json_lib \<Rightarrow> kernel \<Rightarrow> DeviceType \<rightharpoonup> Configurator" where
  "deviceConfigurators json k =
     [DeviceTypeMacvlan \<mapsto> Macvlan_Configurator json k run_Macvlan,
      DeviceTypeHostDevice \<mapsto> HostDevice_Configurator json k run_HostDevice]"

text \<open>The part of a host device's counter that one allocation takes.\<close>

definition counter_share :: "DeviceType \<Rightarrow> Quantity" where
  "counter_share ty = (if ty = DeviceTypeMacvlan then MustParse ''1'' else MustParse ''65536'')"

lemma deviceConfigurators_cases:
  assumes "deviceConfigurators json k ty = Some c"
  obtains "ty = DeviceTypeMacvlan" "c = Macvlan_Configurator json k run_Macvlan"
  | "ty = DeviceTypeHostDevice" "c = HostDevice_Configurator json k run_HostDevice"
  using assms by (auto simp: deviceConfigurators_def split: if_splits)

lemma deviceConfigurators_simps [simp]:
  "deviceConfigurators json k DeviceTypeMacvlan = Some (Macvlan_Configurator json k run_Macvlan)"
  "deviceConfigurators json k DeviceTypeHostDevice = Some (HostDevice_Configurator json k run_HostDevice)"
  by (simp_all add: deviceConfigurators_def)

interpretation run_configurators: configurator_registry "deviceConfigurators json k" counter_share
proof (rule configurator_registry.intro)
  fix ty c
  assume "deviceConfigurators json k ty = Some c"
  then show "configurator_contract c ty (counter_share ty)"
    by (cases rule: deviceConfigurators_cases)
      (simp_all add: counter_share_def macvlan.configurator_contract_axioms
        hostdevice.configurator_contract_axioms)
qed

section \<open>Support\<close>

text \<open>What a host device has to be for a configuration to use it.\<close>

definition device_supported :: "HostDevice \<Rightarrow> DeviceConfiguration \<Rightarrow> bool" where
  "device_supported host dc \<longleftrightarrow>
     MasterIndex (hd_Spec host) = 0 \<and>
     (GetDeviceType dc = ''HostDevice'' \<and> LinkLayerType (hd_Spec host) \<noteq> ''loopback'' \<and>
        ParentIndex (hd_Spec host) = 0 \<and>
        hs_DeviceType (hd_Spec host) \<notin> {''bridge'', ''bond'', ''team'', ''tuntap''} \<or>
      GetDeviceType dc = ''Macvlan'' \<and> LinkLayerType (hd_Spec host) = ''ether'' \<and>
        (\<forall>m mode. dc_Macvlan dc = Some m \<longrightarrow> Mode m = Some mode \<longrightarrow>
           mode \<in> {''bridge'', ''private'', ''vepa'', ''passthru'', ''source''}))"

lemma macvlanModeMap_defined: "macvlanModeMap mode \<noteq> None \<longleftrightarrow>
   mode \<in> {''bridge'', ''private'', ''vepa'', ''passthru'', ''source''}"
  by (auto simp: macvlanModeMap_def macvlan_mode_defs)

lemma GetMacvlan_mode_ok:
  "(\<forall>mode. Mode (GetMacvlan dc) = Some mode \<longrightarrow> macvlanModeMap mode \<noteq> None) \<longleftrightarrow>
   (\<forall>m mode. dc_Macvlan dc = Some m \<longrightarrow> Mode m = Some mode \<longrightarrow>
      mode \<in> {''bridge'', ''private'', ''vepa'', ''passthru'', ''source''})"
  unfolding macvlanModeMap_defined
  by (auto simp: GetMacvlan_def Let_def MacvlanModeBridge_def split: option.splits)

text \<open>
  A configuration is served by at most one of the registered configurators, and by one exactly
  on the devices its type can use: never an enslaved device; the device itself when it is not a
  loopback, virtual or stacked interface; a macvlan on any Ethernet device in one of the five modes.
\<close>

theorem registered_support:
  "(IsSupported c (Some host) (Some dc) = Ok True \<and> deviceConfigurators json k ty = Some c) \<longleftrightarrow>
     device_supported host dc \<and> ty = GetDeviceType dc \<and>
     Some c = deviceConfigurators json k (GetDeviceType dc)"
proof -
  have mv: "IsSupported (Macvlan_Configurator json k run_Macvlan) (Some host) (Some dc) = Ok True \<longleftrightarrow>
      device_supported host dc \<and> GetDeviceType dc = DeviceTypeMacvlan"
    using GetMacvlan_mode_ok [of dc] GetMacvlan_Mode [of dc]
    by (auto simp: Macvlan_Configurator_def Macvlan_IsSupported_def device_supported_def
        DeviceTypeMacvlan_def DeviceTypeHostDevice_def split: option.splits)
  have hd: "IsSupported (HostDevice_Configurator json k run_HostDevice) (Some host) (Some dc) = Ok True \<longleftrightarrow>
      device_supported host dc \<and> GetDeviceType dc = DeviceTypeHostDevice"
    by (auto simp: HostDevice_Configurator_def HostDevice_IsSupported_iff device_supported_def
        DeviceTypeMacvlan_def DeviceTypeHostDevice_def)
  show ?thesis
  proof
    assume *: "IsSupported c (Some host) (Some dc) = Ok True \<and> deviceConfigurators json k ty = Some c"
    then have "deviceConfigurators json k ty = Some c"
      by blast
    from this * show "device_supported host dc \<and> ty = GetDeviceType dc \<and>
        Some c = deviceConfigurators json k (GetDeviceType dc)"
      by (cases rule: deviceConfigurators_cases) (auto simp: mv hd)
  next
    assume *: "device_supported host dc \<and> ty = GetDeviceType dc \<and>
        Some c = deviceConfigurators json k (GetDeviceType dc)"
    then have "deviceConfigurators json k (GetDeviceType dc) = Some c"
      by simp
    from this * show "IsSupported c (Some host) (Some dc) = Ok True \<and> deviceConfigurators json k ty = Some c"
      by (cases rule: deviceConfigurators_cases) (auto simp: mv hd)
  qed
qed

section \<open>The network namespace\<close>

definition is_netns_call :: "kop \<Rightarrow> bool" where
  "is_netns_call op = (case op of NetnsGetFromPath _ \<Rightarrow> True | NsHandleClose _ \<Rightarrow> True | _ \<Rightarrow> False)"

lemma rdma_not_netns: "list_all is_rdma_call ops \<Longrightarrow> list_all (\<lambda>op. \<not> is_netns_call op) ops"
  by (induction ops) (auto simp: is_rdma_call_def is_netns_call_def split: kop.splits)

lemma hostdevice_body_calls:
  "\<exists>ops. snd (hostdevice_body k hdc st device fd h) = h @ ops \<and> list_all (\<lambda>op. \<not> is_netns_call op) ops"
proof -
  let ?name = "InterfaceName (hd_Spec device)"
  let ?root = "if sysfsNetRoot hdc = '''' then DefaultSysfsNetRoot else sysfsNetRoot hdc"
  let ?h1 = "h @ [ReadDir (ib_root ?root ?name)]"
  show ?thesis
  proof (cases "RDMADevicesForNetdev (k_ReadDir k h) ?root ?name")
    case (Ok names)
    obtain out h2 where mv: "move_rdma k fd names ?h1 = (out, h2)"
      by fastforce
    with move_rdma_calls [of k fd names ?h1] obtain ops where
      ops: "h2 = ?h1 @ ops" "list_all (\<lambda>op. \<not> is_netns_call op) ops"
      using rdma_not_netns by auto
    obtain out' h3 where ml: "move_link k fd ?name h2 = (out', h3)"
      by fastforce
    from move_link_cases [OF ml] obtain ops' where
      ops': "h3 = h2 @ ops'" "list_all (\<lambda>op. \<not> is_netns_call op) ops'"
      by (auto simp: is_netns_call_def)
    from Ok mv ml ops ops' show ?thesis
      by (cases out; cases out') (auto simp: hostdevice_body_def Let_def is_netns_call_def)
  qed (auto simp: hostdevice_body_def Let_def is_netns_call_def)
qed

lemma macvlan_body_calls:
  "\<exists>ops. snd (macvlan_body k st device dc fd h) = h @ ops \<and> list_all (\<lambda>op. \<not> is_netns_call op) ops"
  by (auto simp: macvlan_body_def Let_def is_netns_call_def split: option.split)

lemma with_netns_calls:
  assumes "\<And>fd h. \<exists>ops. snd (body fd h) = h @ ops \<and> list_all (\<lambda>op. \<not> is_netns_call op) ops"
  shows "(\<exists>e. k_GetFromPath k h ns = Inl e) \<and> snd (with_netns k ns body h) = h @ [NetnsGetFromPath ns] \<or>
    (\<exists>fd ops. k_GetFromPath k h ns = Inr fd \<and> list_all (\<lambda>op. \<not> is_netns_call op) ops \<and>
       snd (with_netns k ns body h) = h @ NetnsGetFromPath ns # ops @ [NsHandleClose fd])"
proof (cases "k_GetFromPath k h ns")
  case (Inr fd)
  from assms [of fd "h @ [NetnsGetFromPath ns]"] obtain ops where
    "snd (body fd (h @ [NetnsGetFromPath ns])) = (h @ [NetnsGetFromPath ns]) @ ops"
    "list_all (\<lambda>op. \<not> is_netns_call op) ops"
    by blast
  with Inr show ?thesis
    by (auto simp: with_netns_def Let_def case_prod_beta)
qed (auto simp: with_netns_def)

text \<open>
  C14: whatever the status holds and whatever the kernel answers, a registered configurator leaves
  no namespace handle open: it either opens none, or opens the pod's namespace first and, when
  that worked, closes this handle once, as its last call, also on every error path.
\<close>

theorem Configure_closes_the_namespace:
  assumes "deviceConfigurators json k ty = Some c"
  shows "snd (Configure c ns ads h) = h \<or>
    (\<exists>e. k_GetFromPath k h ns = Inl e) \<and> snd (Configure c ns ads h) = h @ [NetnsGetFromPath ns] \<or>
    (\<exists>fd ops. k_GetFromPath k h ns = Inr fd \<and> list_all (\<lambda>op. \<not> is_netns_call op) ops \<and>
       snd (Configure c ns ads h) = h @ NetnsGetFromPath ns # ops @ [NsHandleClose fd])"
  using assms
proof (cases rule: deviceConfigurators_cases)
  case 1
  have "snd (Macvlan_Configure json k ns ads h) = h \<or>
      (\<exists>st device dc. snd (Macvlan_Configure json k ns ads h) =
         snd (with_netns k ns (macvlan_body k st device dc) h))"
    unfolding Macvlan_Configure_def by (auto split: option.split sum.split)
  then consider "snd (Macvlan_Configure json k ns ads h) = h"
    | st device dc where "snd (Macvlan_Configure json k ns ads h) =
         snd (with_netns k ns (macvlan_body k st device dc) h)"
    by blast
  then show ?thesis
  proof cases
    case (2 st device dc)
    show ?thesis
      using with_netns_calls [where k = k and h = h and ns = ns, OF macvlan_body_calls [of k st device dc]]
      by (simp add: 1 2 Macvlan_Configurator_def)
  qed (simp add: 1 Macvlan_Configurator_def)
next
  case 2
  have "snd (HostDevice_Configure json k run_HostDevice ns ads h) = h \<or>
      (\<exists>st device. snd (HostDevice_Configure json k run_HostDevice ns ads h) =
         snd (with_netns k ns (hostdevice_body k run_HostDevice st device) h))"
    unfolding HostDevice_Configure_def by (auto split: option.split sum.split)
  then consider "snd (HostDevice_Configure json k run_HostDevice ns ads h) = h"
    | st device where "snd (HostDevice_Configure json k run_HostDevice ns ads h) =
         snd (with_netns k ns (hostdevice_body k run_HostDevice st device) h)"
    by blast
  then show ?thesis
  proof cases
    case c: (2 st device)
    show ?thesis
      using with_netns_calls [where k = k and h = h and ns = ns, OF hostdevice_body_calls [of k run_HostDevice st device]]
      by (simp add: 2 c HostDevice_Configurator_def)
  qed (simp add: 2 HostDevice_Configurator_def)
qed

section \<open>Moving a host device\<close>

text \<open>
  The complete run: every RDMA device of the interface, in the order of the directory, was found under
  its name and moved by the kernel; then the link found under the interface's name is handed to the
  namespace that was opened, which the kernel has accepted when the run is a success.
\<close>

definition moved_all ::
  "json_lib \<Rightarrow> kernel \<Rightarrow> HostDeviceConfigurator \<Rightarrow> string \<Rightarrow> AllocatedDeviceStatus \<Rightarrow> bool \<Rightarrow> khist \<Rightarrow>
   khist \<Rightarrow> bool" where
  "moved_all json k hdc ns st success h h' \<longleftrightarrow>
     (\<exists>raw sd device dc fd moved l root found.
        ads_Data st = Some \<lparr>Raw = Some raw\<rparr> \<and> Unmarshal json raw = Inr sd \<and>
        sd_Device sd = Some device \<and> sd_DeviceConfiguration sd = Some dc \<and>
        GetDeviceType dc = DeviceTypeHostDevice \<and> k_GetFromPath k h ns = Inr fd \<and>
        root = (if sysfsNetRoot hdc = '''' then DefaultSysfsNetRoot else sysfsNetRoot hdc) \<and>
        RDMADevicesForNetdev (k_ReadDir k (h @ [NetnsGetFromPath ns])) root
          (InterfaceName (hd_Spec device)) = Ok (map fst moved) \<and>
        found = h @ [NetnsGetFromPath ns, ReadDir (ib_root root (InterfaceName (hd_Spec device)))] \<and>
        moved_rdma k fd found moved \<and>
        k_LinkByName k (found @ rdma_calls fd moved) (InterfaceName (hd_Spec device)) = Inr l \<and>
        (success \<longrightarrow> k_LinkSetNsFd k (found @ rdma_calls fd moved @ [LinkByName (InterfaceName (hd_Spec device))])
           l fd = None) \<and>
        h' = found @ rdma_calls fd moved @
             [LinkByName (InterfaceName (hd_Spec device)), LinkSetNsFd l fd, NsHandleClose fd])"

definition moves_link :: "kop \<Rightarrow> bool" where
  "moves_link op = (case op of LinkSetNsFd _ _ \<Rightarrow> True | _ \<Rightarrow> False)"

lemma rdma_moves_no_link: "list_all is_rdma_call ops \<Longrightarrow> op \<in> set ops \<Longrightarrow> \<not> moves_link op"
  by (auto simp: list_all_iff is_rdma_call_def moves_link_def split: kop.splits)

lemma hostdevice_body_complete:
  assumes run: "hostdevice_body k hdc st device fd h = (out, h')"
    and did: "is_ok out \<or> (\<exists>op \<in> set (drop (length h) h'). moves_link op)"
    and root: "root = (if sysfsNetRoot hdc = '''' then DefaultSysfsNetRoot else sysfsNetRoot hdc)"
  shows "\<exists>moved l.
    RDMADevicesForNetdev (k_ReadDir k h) root (InterfaceName (hd_Spec device)) = Ok (map fst moved) \<and>
    moved_rdma k fd (h @ [ReadDir (ib_root root (InterfaceName (hd_Spec device)))]) moved \<and>
    k_LinkByName k (h @ [ReadDir (ib_root root (InterfaceName (hd_Spec device)))] @ rdma_calls fd moved)
      (InterfaceName (hd_Spec device)) = Inr l \<and>
    (is_ok out \<longrightarrow> k_LinkSetNsFd k (h @ [ReadDir (ib_root root (InterfaceName (hd_Spec device)))] @
       rdma_calls fd moved @ [LinkByName (InterfaceName (hd_Spec device))]) l fd = None) \<and>
    h' = h @ [ReadDir (ib_root root (InterfaceName (hd_Spec device)))] @
         rdma_calls fd moved @ [LinkByName (InterfaceName (hd_Spec device)), LinkSetNsFd l fd]"
proof -
  let ?name = "InterfaceName (hd_Spec device)"
  let ?h1 = "h @ [ReadDir (ib_root root ?name)]"
  have rd: "\<not> moves_link (ReadDir p)" for p
    by (simp add: moves_link_def)
  from run did obtain names where names: "RDMADevicesForNetdev (k_ReadDir k h) root ?name = Ok names"
    by (cases "RDMADevicesForNetdev (k_ReadDir k h) root ?name")
      (auto simp: hostdevice_body_def Let_def root moves_link_def)
  obtain out1 h2 where mv: "move_rdma k fd names ?h1 = (out1, h2)"
    by fastforce
  from move_rdma_calls [of k fd names ?h1] mv obtain ops where
    ops: "h2 = ?h1 @ ops" "list_all is_rdma_call ops"
    by auto
  from rdma_moves_no_link [OF ops(2)] have no: "\<not> (\<exists>op \<in> set (drop (length h) h2). moves_link op)"
    by (auto simp: ops(1) rd)
  from run did mv names no have ok1: "out1 = Ok ()"
    by (cases out1) (auto simp: hostdevice_body_def Let_def root [symmetric])
  with move_rdma_Ok [of k fd names ?h1 h2] mv obtain moved where
    moved: "map fst moved = names" "h2 = ?h1 @ rdma_calls fd moved" "moved_rdma k fd ?h1 moved"
    by auto
  obtain out2 h3 where ml: "move_link k fd ?name h2 = (out2, h3)"
    by fastforce
  from run mv names ok1 ml have h': "h' = h3" and out: "is_ok out \<longleftrightarrow> out2 = Ok ()"
    by (auto simp: hostdevice_body_def Let_def root [symmetric] split: res.splits)
  from move_link_cases [OF ml] obtain l where l: "k_LinkByName k h2 ?name = Inr l"
      "h3 = h2 @ [LinkByName ?name, LinkSetNsFd l fd]"
      "is_ok out \<longrightarrow> k_LinkSetNsFd k (h2 @ [LinkByName ?name]) l fd = None"
  proof (elim disjE exE conjE)
    fix e
    assume "out2 = Err e" "h3 = h2 @ [LinkByName ?name]"
    with did out no ops(1) h' have False
      by (auto simp: moves_link_def)
    then show thesis ..
  qed (auto simp: out split: if_splits)
  with names moved h' show ?thesis
    by (intro exI [of _ moved] exI [of _ l]) simp
qed

lemma HostDevice_Configure_complete:
  assumes "HostDevice_Configure json k hdc ns (Some st) h = (out, h')"
    and "is_ok out \<or> (\<exists>op \<in> set (drop (length h) h'). moves_link op)"
  shows "moved_all json k hdc ns st (is_ok out) h h'"
proof -
  have nm: "\<not> moves_link (NetnsGetFromPath p)" "\<not> moves_link (NsHandleClose i)" for p i
    by (simp_all add: moves_link_def)
  from assms nm obtain ext raw sd device dc where
    ext: "ads_Data st = Some ext" "Raw ext = Some raw" "Unmarshal json raw = Inr sd"
      "sd_Device sd = Some device" "sd_DeviceConfiguration sd = Some dc"
      "GetDeviceType dc = DeviceTypeHostDevice"
    and run: "with_netns k ns (hostdevice_body k hdc st device) h = (out, h')"
    by (auto simp: HostDevice_Configure_def split: option.splits sum.splits if_splits)
  from run assms(2) nm obtain fd h2 where fd: "k_GetFromPath k h ns = Inr fd"
    and body: "hostdevice_body k hdc st device fd (h @ [NetnsGetFromPath ns]) = (out, h2)"
    and h': "h' = h2 @ [NsHandleClose fd]"
    by (auto simp: with_netns_def Let_def split: sum.splits prod.splits)
  obtain ops where ops: "h2 = (h @ [NetnsGetFromPath ns]) @ ops"
    using hostdevice_body_calls [of k hdc st device fd "h @ [NetnsGetFromPath ns]"] body by auto
  have "is_ok out \<or> (\<exists>op \<in> set (drop (length (h @ [NetnsGetFromPath ns])) h2). moves_link op)"
    using assms(2) nm by (auto simp: h' ops)
  from hostdevice_body_complete [OF body this refl] show ?thesis
    unfolding moved_all_def using ext fd h' by (cases ext) auto
qed

text \<open>
  C15: the host interface enters the pod only as the last step of a complete run. When \<open>Configure\<close>
  succeeds, and also whenever it as much as tries to move the interface, the kernel has found every RDMA
  device behind the interface under its name and has moved it, without an error, into the same namespace;
  the link it then tries to move is the one the kernel has under the interface's name, and on success
  the kernel has moved it.
\<close>

theorem HostDevice_Configure_moves_rdma_first:
  assumes "HostDevice_Configure json k hdc ns (Some st) h = (out, h')"
    and "is_ok out \<or> (\<exists>op \<in> set (drop (length h) h'). moves_link op)"
  shows "moved_all json k hdc ns st (is_ok out) h h'"
  by (rule HostDevice_Configure_complete [OF assms])

section \<open>A host for the demonstrations\<close>

definition demo_host :: HostDevice where
  "demo_host =
     \<lparr>hd_Kind = ''Device'', hd_APIVersion = ''devicenetwork.io/v1alpha1'', hd_Name = ''eth0'',
      hd_Spec = \<lparr>InterfaceName = ''eth0'', InterfaceIndex = 2, RDMACapable = True, ParentIndex = 0,
                 MasterIndex = 0, LinkLayerType = ''ether'', hs_DeviceType = ''device''\<rparr>\<rparr>"

definition demo_hostdev_config :: DeviceConfiguration where
  "demo_hostdev_config = \<lparr>dc_Name = ''hostdev'', dc_DeviceSelectors = [''all''], dc_DeviceType = None,
     dc_Macvlan = None, dc_HostDevice = None\<rparr>"

definition demo_macvlan_config :: DeviceConfiguration where
  "demo_macvlan_config = \<lparr>dc_Name = ''macvlan'', dc_DeviceSelectors = [''all''],
     dc_DeviceType = Some DeviceTypeMacvlan, dc_Macvlan = Some \<lparr>Mode = Some MacvlanModeVepa\<rparr>,
     dc_HostDevice = None\<rparr>"

definition demo_status_data :: "DeviceConfiguration \<Rightarrow> ResourceClaimDeviceStatusData" where
  "demo_status_data dc =
     \<lparr>sd_PodNetwork = Some \<lparr>pn_Kind = ''devicenetwork-io-devicenetwork'', pn_Name = ''blue''\<rparr>,
      sd_DeviceConfiguration = Some dc, sd_Device = Some demo_host\<rparr>"

text \<open>An encoding of the two data the demonstrations use.\<close>

definition demo_json :: json_lib where
  "demo_json =
     \<lparr>Marshal = (\<lambda>d. if d = demo_status_data demo_hostdev_config then Inr ''hostdev''
                     else if d = demo_status_data demo_macvlan_config then Inr ''macvlan''
                     else Inl ''unsupported value''),
      Unmarshal = (\<lambda>s. if s = ''hostdev'' then Inr (demo_status_data demo_hostdev_config)
                       else if s = ''macvlan'' then Inr (demo_status_data demo_macvlan_config)
                       else Inl ''invalid character'')\<rparr>"

definition pod_kernel :: kernel where
  "pod_kernel =
     \<lparr>k_GetFromPath = (\<lambda>h path. if path = ''/netns/pod'' then Inr 7 else Inl ''no such file''),
      k_ReadDir = (\<lambda>h path. Entries [''mlx5_0'', ''mlx5_1'']),
      k_RdmaLinkByName = (\<lambda>h name. if name = ''mlx5_0'' then Inr 1 else Inr 2),
      k_RdmaLinkSetNsFd = (\<lambda>h l fd. None),
      k_LinkByName = (\<lambda>h name. Inr \<lparr>link_Name = name, link_Index = 2, link_ParentIndex = 0,
        link_MasterIndex = 0, link_EncapType = ''ether'', link_Type = ''device''\<rparr>),
      k_LinkSetNsFd = (\<lambda>h l fd. None),
      k_LinkAdd = (\<lambda>h l. None)\<rparr>"

definition configured_status :: "string \<Rightarrow> AllocatedDeviceStatus" where
  "configured_status raw = demo_status\<lparr>ads_Data := Some \<lparr>Raw = Some raw\<rparr>\<rparr>"

lemmas demo_simps = demo_json_def demo_status_data_def demo_host_def demo_hostdev_config_def
  demo_macvlan_config_def pod_kernel_def configured_status_def demo_status_def
  empty_NetworkDeviceData_def GetDeviceType_def

lemma Configure_closes_the_namespace_witness:
  "snd (Configure (HostDevice_Configurator demo_json pod_kernel run_HostDevice)
     ''/netns/pod'' (Some (configured_status ''macvlan'')) []) = [] \<and>
   (\<exists>ops. snd (Configure (Macvlan_Configurator demo_json pod_kernel run_Macvlan)
     ''/netns/pod'' (Some (configured_status ''macvlan'')) []) =
     NetnsGetFromPath ''/netns/pod'' # ops @ [NsHandleClose 7])"
proof -
  let ?c = "Macvlan_Configurator demo_json pod_kernel run_Macvlan"
  let ?st = "Some (configured_status ''macvlan'')"
  have "NetnsGetFromPath ''/netns/pod'' \<in> set (snd (Configure ?c ''/netns/pod'' ?st []))"
    using Macvlan_Configure_calls [of demo_json pod_kernel "''/netns/pod''" ?st "[]"]
    by (simp add: Macvlan_Configurator_def Macvlan_Configure_def with_netns_def macvlan_body_def
        Let_def raw_bytes_def GetMacvlan_def demo_simps macvlanModeMap_def macvlan_mode_defs)
  moreover have "k_GetFromPath pod_kernel [] ''/netns/pod'' = Inr 7"
    by (simp add: pod_kernel_def)
  ultimately have "\<exists>ops. snd (Configure ?c ''/netns/pod'' ?st []) =
      NetnsGetFromPath ''/netns/pod'' # ops @ [NsHandleClose 7]"
    using Configure_closes_the_namespace [OF deviceConfigurators_simps(1),
        of demo_json pod_kernel "''/netns/pod''" ?st "[]"]
    by auto
  moreover have "snd (Configure (HostDevice_Configurator demo_json pod_kernel run_HostDevice)
      ''/netns/pod'' ?st []) = []"
    by (simp add: HostDevice_Configurator_def HostDevice_Configure_def demo_simps)
  ultimately show ?thesis
    by blast
qed

lemma HostDevice_Configure_moves_rdma_first_witness:
  "\<exists>h' l. HostDevice_Configure demo_json pod_kernel run_HostDevice ''/netns/pod''
       (Some (configured_status ''hostdev'')) [] = (Ok (Some (configured_status ''hostdev'')), h') \<and>
     h' = [NetnsGetFromPath ''/netns/pod'', ReadDir (ib_root ''/sys/class/net'' ''eth0''),
           RdmaLinkByName ''mlx5_0'', RdmaLinkSetNsFd 1 7, RdmaLinkByName ''mlx5_1'', RdmaLinkSetNsFd 2 7,
           LinkByName ''eth0'', LinkSetNsFd l 7, NsHandleClose 7] \<and>
     moved_all demo_json pod_kernel run_HostDevice ''/netns/pod'' (configured_status ''hostdev'') True [] h'"
proof -
  obtain h' l where run: "HostDevice_Configure demo_json pod_kernel run_HostDevice ''/netns/pod''
      (Some (configured_status ''hostdev'')) [] = (Ok (Some (configured_status ''hostdev'')), h')"
    and h': "h' = [NetnsGetFromPath ''/netns/pod'', ReadDir (ib_root ''/sys/class/net'' ''eth0''),
           RdmaLinkByName ''mlx5_0'', RdmaLinkSetNsFd 1 7, RdmaLinkByName ''mlx5_1'', RdmaLinkSetNsFd 2 7,
           LinkByName ''eth0'', LinkSetNsFd l 7, NsHandleClose 7]"
    by (simp add: HostDevice_Configure_def with_netns_def hostdevice_body_def move_link_def
        RDMADevicesForNetdev_def run_HostDevice_def DefaultSysfsNetRoot_def demo_simps Let_def)
  from HostDevice_Configure_moves_rdma_first [OF run] run h' show ?thesis
    by auto
qed

section \<open>Creating a macvlan interface\<close>

lemma Macvlan_Configure_Ok_iff:
  "Macvlan_Configure json k ns (Some st) h = (Ok out, h') \<longleftrightarrow>
     (\<exists>ext sd device dc fd nd mode m l.
        ads_Data st = Some ext \<and> Unmarshal json (raw_bytes ext) = Inr sd \<and>
        sd_Device sd = Some device \<and> sd_DeviceConfiguration sd = Some dc \<and>
        GetDeviceType dc = DeviceTypeMacvlan \<and> k_GetFromPath k h ns = Inr fd \<and>
        ads_NetworkData st = Some nd \<and> Mode (GetMacvlan dc) = Some m \<and> macvlanModeMap m = Some mode \<and>
        l = \<lparr>ml_Name = nd_InterfaceName nd, ml_ParentIndex = InterfaceIndex (hd_Spec device),
             ml_Namespace = fd, ml_Mode = mode\<rparr> \<and>
        k_LinkAdd k (h @ [NetnsGetFromPath ns]) l = None \<and> out = Some st \<and>
        h' = h @ [NetnsGetFromPath ns, LinkAdd l, NsHandleClose fd])"
  by (auto simp: Macvlan_Configure_def with_netns_def macvlan_body_def Let_def split: split_results)

lemma move_rdma_no_panic:
  "fst (move_rdma k fd names h) \<noteq> Panic \<and> fst (move_rdma k fd names h) \<noteq> Diverge"
  by (induction k fd names h rule: move_rdma.induct) (auto simp: Let_def split: sum.splits option.splits)

lemma hostdevice_body_no_panic:
  "fst (hostdevice_body k hdc st device fd h) \<noteq> Panic \<and> fst (hostdevice_body k hdc st device fd h) \<noteq> Diverge"
proof -
  have rd: "RDMADevicesForNetdev f root name \<noteq> Panic" "RDMADevicesForNetdev f root name \<noteq> Diverge" for f root name
    by (auto simp: RDMADevicesForNetdev_def Let_def split: dir_result.splits)
  have mv: "move_rdma k fd names h \<noteq> (Panic, h')" "move_rdma k fd names h \<noteq> (Diverge, h')" for names h h'
    using move_rdma_no_panic [of k fd names h] by auto
  have ml: "move_link k fd name h \<noteq> (Panic, h')" "move_link k fd name h \<noteq> (Diverge, h')" for name h h'
    by (auto simp: move_link_def Let_def split: sum.splits option.splits)
  show ?thesis
    by (auto simp: hostdevice_body_def Let_def rd mv ml split: res.splits prod.splits)
qed

text \<open>
  The host device configurator never panics; the macvlan configurator dereferences a nil pointer
  exactly when the status has no data, or when a valid macvlan configuration comes with a status that
  has no network data.
\<close>

theorem Configure_panics:
  "fst (HostDevice_Configure json k hdc ns ads h) \<noteq> Panic \<and>
   (fst (Macvlan_Configure json k ns (Some st) h) = Panic \<longleftrightarrow>
      ads_Data st = None \<or>
      (\<exists>ext sd device dc fd m. ads_Data st = Some ext \<and> Unmarshal json (raw_bytes ext) = Inr sd \<and>
         sd_Device sd = Some device \<and> sd_DeviceConfiguration sd = Some dc \<and>
         GetDeviceType dc = DeviceTypeMacvlan \<and> k_GetFromPath k h ns = Inr fd \<and>
         Mode (GetMacvlan dc) = Some m \<and> macvlanModeMap m \<noteq> None \<and> ads_NetworkData st = None))"
proof
  have mode: "(Mode (GetMacvlan dc) = None) = False" for dc
    using GetMacvlan_Mode [of dc] by auto
  show "fst (HostDevice_Configure json k hdc ns ads h) \<noteq> Panic"
    using hostdevice_body_no_panic
    by (auto simp: HostDevice_Configure_def with_netns_def Let_def case_prod_beta split: option.splits sum.splits)
  show "fst (Macvlan_Configure json k ns (Some st) h) = Panic \<longleftrightarrow>
      ads_Data st = None \<or>
      (\<exists>ext sd device dc fd m. ads_Data st = Some ext \<and> Unmarshal json (raw_bytes ext) = Inr sd \<and>
         sd_Device sd = Some device \<and> sd_DeviceConfiguration sd = Some dc \<and>
         GetDeviceType dc = DeviceTypeMacvlan \<and> k_GetFromPath k h ns = Inr fd \<and>
         Mode (GetMacvlan dc) = Some m \<and> macvlanModeMap m \<noteq> None \<and> ads_NetworkData st = None)"
    by (auto simp: mode Macvlan_Configure_def with_netns_def macvlan_body_def Let_def case_prod_beta
        split: option.splits sum.splits)
qed

text \<open>So a registered configurator comes back, with a result or an error, for every status that has data and
  network data.\<close>

lemma registered_Configure_returns:
  assumes "deviceConfigurators json k ty = Some c" and "ads_Data st \<noteq> None" and "ads_NetworkData st \<noteq> None"
  shows "fst (Configure c ns (Some st) h) \<notin> {Panic, Diverge}"
  using assms(1)
proof (cases rule: deviceConfigurators_cases)
  case 1
  have "fst (Macvlan_Configure json k ns (Some st) h) \<noteq> Diverge"
    by (auto simp: Macvlan_Configure_def with_netns_def macvlan_body_def Let_def case_prod_beta
        split: option.splits sum.splits)
  with Configure_panics [of json k run_HostDevice ns None h st] assms(2,3) show ?thesis
    by (auto simp: 1 Macvlan_Configurator_def)
next
  case 2
  have "fst (HostDevice_Configure json k run_HostDevice ns (Some st) h) \<noteq> Diverge"
    using hostdevice_body_no_panic
    by (auto simp: HostDevice_Configure_def with_netns_def Let_def case_prod_beta split: option.splits sum.splits)
  with Configure_panics [of json k run_HostDevice ns "Some st" h st] show ?thesis
    by (auto simp: 2 HostDevice_Configurator_def)
qed

section \<open>Allocating\<close>

lemma Macvlan_Allocate_Ok:
  assumes "fst (Macvlan_Allocate run_Macvlan hdo dco (Some nic) (Some st) r) = Ok out"
  shows "\<exists>ips. list_all2 address_of_cidr (random_cidrs (nic_IPAM nic)) ips \<and>
    out = Some (st\<lparr>ads_NetworkData :=
      Some \<lparr>nd_InterfaceName = fst (randomName r), IPs = ips, HardwareAddress = ''''\<rparr>\<rparr>)"
proof -
  let ?nd = "empty_NetworkDeviceData\<lparr>nd_InterfaceName := fst (randomName r)\<rparr>"
  from assms have "fst (allocate_common (Some CommonConfigurator) hdo (Some nic)
      (st\<lparr>ads_NetworkData := Some ?nd\<rparr>) (snd (randomName r))) = Ok out"
    by (simp add: Macvlan_Allocate_def run_Macvlan_def case_prod_beta Let_def)
  from allocate_common_Ok [OF _ _ this, of ?nd] show ?thesis
    by (auto simp: empty_NetworkDeviceData_def)
qed

lemma HostDevice_Allocate_Ok:
  assumes "fst (HostDevice_Allocate run_HostDevice (Some host) dco (Some nic) (Some st) r) = Ok out"
  shows "\<exists>ips. list_all2 address_of_cidr (random_cidrs (nic_IPAM nic)) ips \<and>
    out = Some (st\<lparr>ads_NetworkData :=
      Some \<lparr>nd_InterfaceName = InterfaceName (hd_Spec host), IPs = ips, HardwareAddress = ''''\<rparr>\<rparr>)"
proof -
  let ?nd = "empty_NetworkDeviceData\<lparr>nd_InterfaceName := InterfaceName (hd_Spec host)\<rparr>"
  from assms have "fst (allocate_common (Some CommonConfigurator) (Some host) (Some nic)
      (st\<lparr>ads_NetworkData := Some ?nd\<rparr>) r) = Ok out"
    by (simp add: HostDevice_Allocate_def run_HostDevice_def Let_def)
  from allocate_common_Ok [OF _ _ this, of ?nd] show ?thesis
    by (auto simp: empty_NetworkDeviceData_def)
qed

text \<open>
  C23: an allocation by a registered configurator that succeeds writes the network data and nothing
  else: one usable address per entry of the Random provider and the interface name, which is the
  host interface's own for a host device and eight random hexadecimal digits for a macvlan.
\<close>

theorem registered_Allocate_writes_network_data:
  assumes "deviceConfigurators json k ty = Some c"
    and "fst (Allocate c (Some host) dco (Some nic) (Some st) r) = Ok out"
  shows "\<exists>ips name. list_all2 address_of_cidr (random_cidrs (nic_IPAM nic)) ips \<and>
    out = Some (st\<lparr>ads_NetworkData :=
      Some \<lparr>nd_InterfaceName = name, IPs = ips, HardwareAddress = ''''\<rparr>\<rparr>) \<and>
    (if ty = DeviceTypeHostDevice then name = InterfaceName (hd_Spec host)
     else length name = 8 \<and> set name \<subseteq> set hex_digits)"
  using assms(1)
proof (cases rule: deviceConfigurators_cases)
  case 1
  with assms(2) Macvlan_Allocate_Ok [of "Some host" dco nic st r out] show ?thesis
    using randomName_length [of r] randomName_hex [of r] by (auto simp: Macvlan_Configurator_def)
next
  case 2
  with assms(2) HostDevice_Allocate_Ok [of host dco nic st r out] show ?thesis
    by (auto simp: HostDevice_Configurator_def)
qed

lemma registered_Allocate_writes_network_data_witness:
  "\<exists>ips out. list_all2 address_of_cidr [''192.168.1.0/24''] ips \<and>
     fst (Allocate (HostDevice_Configurator demo_json pod_kernel run_HostDevice)
       (Some demo_host) None (Some demo_nic) (Some demo_status) (\<lambda>n. of_nat n)) = Ok (Some out) \<and>
     ads_NetworkData out = Some \<lparr>nd_InterfaceName = ''eth0'', IPs = ips, HardwareAddress = ''''\<rparr>"
proof -
  let ?c = "HostDevice_Configurator demo_json pod_kernel run_HostDevice"
  obtain r' where g: "generateRandomIP net_24 (\<lambda>n. of_nat n) = (Ok [192, 168, 1, 3], r')"
    using draws_192_168 by (cases "generateRandomIP net_24 (\<lambda>n. of_nat n)") auto
  obtain ones bits where s: "mask_Size (net_Mask net_24) = (ones, bits)"
    by fastforce
  obtain out where run: "fst (Allocate ?c (Some demo_host) None (Some demo_nic) (Some demo_status)
      (\<lambda>n. of_nat n)) = Ok out"
    by (simp add: HostDevice_Configurator_def HostDevice_Allocate_def run_HostDevice_def
        allocate_common_def Common_Allocate_def demo_nic_def empty_NetworkDeviceData_def
        random_entry_def IPAMProviderDHCP_def IPAMProviderRandom_def ParseCIDR_24 g s)
  have c: "random_cidrs (nic_IPAM demo_nic) = [''192.168.1.0/24'']"
    by (simp add: demo_nic_def random_cidrs_def random_entry_def IPAMProviderDHCP_def IPAMProviderRandom_def)
  from registered_Allocate_writes_network_data [OF deviceConfigurators_simps(2) run] run
  show ?thesis
    by (auto simp: c demo_host_def)
qed

end
