(* ===== verification/HostFilter.thy ===== *)
theory HostFilter
  imports KubeTypes
begin

text \<open>
  The selection of host devices by CEL expressions, \<open>pkg/host/filter.go\<close> and
  \<open>pkg/host/option.go\<close>. The CEL library is the parameter \<open>cel_lib\<close>: declaring the two
  variables, compiling an expression and making a program of it may each fail, and a program
  is a function from the values of the variables to a value or an error.
\<close>

datatype cel_type = StringType | BoolType

datatype cel_value = CelString string | CelBool bool | CelOther nat

type_synonym cel_program = "(string \<rightharpoonup> cel_value) \<Rightarrow> liberr + cel_value"

record cel_lib =
  cel_NewEnv :: "(string \<times> cel_type) list \<Rightarrow> liberr option"
  cel_Compile :: "string \<Rightarrow> liberr option"
  cel_Program :: "string \<Rightarrow> liberr + cel_program"

datatype filter_error =
    CELEnvironment liberr
  | CELTypeCheck liberr
  | CELProgram liberr
  | CELEvaluation liberr
  | UnexpectedResultType
  | CreatingCELProgram filter_error
  | EvaluatingCELProgram filter_error

definition celProgram :: "cel_lib \<Rightarrow> string \<Rightarrow> (cel_program, filter_error) res" where
  "celProgram cel expression =
     (case cel_NewEnv cel [(InterfaceNameDeviceSelectorAttribute, StringType),
                           (RDMACapableDeviceSelectorAttribute, BoolType)] of
        Some e \<Rightarrow> Err (CELEnvironment e)
      | None \<Rightarrow>
          (case cel_Compile cel expression of
             Some e \<Rightarrow> Err (CELTypeCheck e)
           | None \<Rightarrow>
               (case cel_Program cel expression of
                  Inl e \<Rightarrow> Err (CELProgram e)
                | Inr program \<Rightarrow> Ok program)))"

definition eval :: "cel_program \<Rightarrow> HostDevice \<Rightarrow> (bool, filter_error) res" where
  "eval program device =
     (case program
        [InterfaceNameDeviceSelectorAttribute \<mapsto> CelString (InterfaceName (hd_Spec device)),
         RDMACapableDeviceSelectorAttribute \<mapsto> CelBool (RDMACapable (hd_Spec device))] of
        Inl e \<Rightarrow> Err (CELEvaluation e)
      | Inr (CelBool result) \<Rightarrow> Ok result
      | Inr _ \<Rightarrow> Err UnexpectedResultType)"

fun eval_devices :: "cel_program \<Rightarrow> HostDevice list \<Rightarrow> (HostDevice list, filter_error) res" where
  "eval_devices program [] = Ok []"
| "eval_devices program (device # rest) =
     (case eval program device of
        Err e \<Rightarrow> Err (EvaluatingCELProgram e)
      | Panic \<Rightarrow> Panic
      | Diverge \<Rightarrow> Diverge
      | Ok match \<Rightarrow>
          (case eval_devices program rest of
             Ok filteredDevices \<Rightarrow>
               Ok (if match then device # filteredDevices else filteredDevices)
           | Err e \<Rightarrow> Err e
           | Panic \<Rightarrow> Panic
           | Diverge \<Rightarrow> Diverge))"

definition EvalDevices ::
  "cel_lib \<Rightarrow> string \<Rightarrow> HostDevice list \<Rightarrow> (HostDevice list, filter_error) res" where
  "EvalDevices cel expression devices =
     (case celProgram cel expression of
        Err e \<Rightarrow> Err (CreatingCELProgram e)
      | Panic \<Rightarrow> Panic
      | Diverge \<Rightarrow> Diverge
      | Ok program \<Rightarrow> eval_devices program devices)"

text \<open>The option \<open>WithSelectors\<close>: what \<open>List\<close> is called with.\<close>

record listOption =
  selectors :: "Selector list"

definition WithSelectors :: "Selector list \<Rightarrow> listOption \<Rightarrow> listOption" where
  "WithSelectors sels lo = lo\<lparr>selectors := sels\<rparr>"

section \<open>What the filter selects\<close>

text \<open>The expression evaluates to the boolean \<open>b\<close> on the device.\<close>

definition evaluates :: "cel_lib \<Rightarrow> string \<Rightarrow> HostDevice \<Rightarrow> bool \<Rightarrow> bool" where
  "evaluates cel expression device b \<longleftrightarrow>
     (\<exists>program. celProgram cel expression = Ok program \<and> eval program device = Ok b)"

lemma eval_devices_Ok:
  "(\<And>d. d \<in> set ds \<Longrightarrow> eval p d = Ok (f d)) \<Longrightarrow> eval_devices p ds = Ok (filter f ds)"
  by (induction ds) auto

lemma celProgram_no_panic: "celProgram cel e \<noteq> Panic" "celProgram cel e \<noteq> Diverge"
  by (auto simp: celProgram_def split: split_results)

lemma eval_no_panic: "eval p d \<noteq> Panic" "eval p d \<noteq> Diverge"
  by (auto simp: eval_def split: sum.splits cel_value.splits)

lemma eval_devices_no_panic: "eval_devices p ds \<noteq> Panic \<and> eval_devices p ds \<noteq> Diverge"
  by (induction ds) (auto simp: eval_no_panic split: res.splits)

lemma EvalDevices_no_panic: "EvalDevices cel e ds \<noteq> Panic" "EvalDevices cel e ds \<noteq> Diverge"
  using eval_devices_no_panic
  by (auto simp: EvalDevices_def celProgram_no_panic split: res.splits)

lemma EvalDevices_Ok:
  assumes "\<And>d. d \<in> set ds \<Longrightarrow> evaluates cel e d (f d)" and "ds \<noteq> []"
  shows "EvalDevices cel e ds = Ok (filter f ds)"
proof -
  from assms obtain p where p: "celProgram cel e = Ok p"
    by (cases ds) (auto simp: evaluates_def)
  with assms(1) have "eval p d = Ok (f d)" if "d \<in> set ds" for d
    using that by (auto simp: evaluates_def)
  then show ?thesis
    by (simp add: EvalDevices_def p eval_devices_Ok)
qed

lemma eval_devices_OkD: "eval_devices p ds = Ok out \<Longrightarrow> out = filter (\<lambda>d. eval p d = Ok True) ds"
  by (induction ds arbitrary: out) (auto split: res.splits)

lemma EvalDevices_OkD:
  "EvalDevices cel e ds = Ok out \<Longrightarrow> out = filter (\<lambda>d. evaluates cel e d True) ds"
  by (auto simp: EvalDevices_def evaluates_def dest!: eval_devices_OkD split: res.splits)

end
