(* ===== verification/Worker.thy ===== *)
theory Worker
  imports Prelude
begin

text \<open>
  The worker loop that the device cache (\<open>pkg/host/cache.go\<close>) and the controller
  (\<open>pkg/controllers/devicenetwork/devicenetwork.go\<close>) both run on a client-go work queue. The
  queue is not part of the repository: what it hands out is an argument (\<open>None\<close> is a queue that
  was shut down) and the calls made on it are recorded.
\<close>

datatype queue_op =
    QAdd string
  | QForget string
  | QAddRateLimited string
  | QDone string

fun done_keys :: "queue_op list \<Rightarrow> string list" where
  "done_keys [] = []"
| "done_keys (QDone key # ops) = key # done_keys ops"
| "done_keys (_ # ops) = done_keys ops"

fun retried_keys :: "queue_op list \<Rightarrow> string list" where
  "retried_keys [] = []"
| "retried_keys (QAddRateLimited key # ops) = key # retried_keys ops"
| "retried_keys (_ # ops) = retried_keys ops"

text \<open>
  \<open>runWorker\<close>: one item after the other as the queue hands them out, until the processing of
  one returns false. The end of the list is a queue with nothing left to hand out.
\<close>

fun run_worker ::
  "(string option \<Rightarrow> 's \<Rightarrow> bool \<times> queue_op list \<times> 's) \<Rightarrow> string option list \<Rightarrow> 's \<Rightarrow>
   queue_op list \<times> 's" where
  "run_worker process [] s = ([], s)"
| "run_worker process (item # items) s =
     (case process item s of
        (True, ops, s') \<Rightarrow> (let (ops', s'') = run_worker process items s' in (ops @ ops', s''))
      | (False, ops, s') \<Rightarrow> (ops, s'))"

text \<open>The items handed out before the queue was shut down.\<close>

fun taken :: "string option list \<Rightarrow> string list" where
  "taken (Some key # items) = key # taken items"
| "taken _ = []"

text \<open>One after the other, what the processing of the keys does to the state.\<close>

fun sync_keys :: "(string \<Rightarrow> 's \<Rightarrow> bool \<times> 's) \<Rightarrow> string list \<Rightarrow> 's \<Rightarrow> 's" where
  "sync_keys sync [] s = s"
| "sync_keys sync (key # keys) s = sync_keys sync keys (snd (sync key s))"

fun failing_keys :: "(string \<Rightarrow> 's \<Rightarrow> bool \<times> 's) \<Rightarrow> string list \<Rightarrow> 's \<Rightarrow> string list" where
  "failing_keys sync [] s = []"
| "failing_keys sync (key # keys) s =
     (let (ok, s') = sync key s in
      if ok then failing_keys sync keys s' else key # failing_keys sync keys s')"

text \<open>
  The contract of \<open>processNextWorkItem\<close>: a queue that was shut down ends the loop; an item is
  forgotten when its processing worked, queued again at a limited rate when it did not, and in
  both cases reported as done last.
\<close>

locale work_loop =
  fixes process :: "string option \<Rightarrow> 's \<Rightarrow> bool \<times> queue_op list \<times> 's"
    and sync :: "string \<Rightarrow> 's \<Rightarrow> bool \<times> 's"
  assumes shutdown: "process None s = (False, [], s)"
    and item: "process (Some key) s =
      (True, [if fst (sync key s) then QForget key else QAddRateLimited key, QDone key],
       snd (sync key s))"
begin

lemma run_worker_state: "snd (run_worker process items s) = sync_keys sync (taken items) s"
  by (induction items arbitrary: s rule: taken.induct)
    (auto simp: shutdown item Let_def case_prod_beta)

lemma run_worker_done: "done_keys (fst (run_worker process items s)) = taken items"
  by (induction items arbitrary: s rule: taken.induct)
    (auto simp: shutdown item Let_def case_prod_beta)

lemma run_worker_retried:
  "retried_keys (fst (run_worker process items s)) = failing_keys sync (taken items) s"
  by (induction items arbitrary: s rule: taken.induct)
    (auto simp: shutdown item Let_def case_prod_beta)

lemma invariant:
  assumes "\<And>key s. P s \<Longrightarrow> P (snd (sync key s))" and "P s"
  shows "P (snd (run_worker process items s))"
proof -
  have "P (sync_keys sync keys s)" for keys
    using assms(2) by (induction keys arbitrary: s) (auto intro: assms(1))
  then show ?thesis
    by (simp add: run_worker_state)
qed

end

end
