(* ===== verification/HostCache.thy ===== *)
theory HostCache
  imports HostFilter Kernel Worker "HOL-Library.Multiset"
begin

text \<open>
  The cache of host devices, \<open>pkg/host/cache.go\<close>. Its state is the snapshot, the store of the
  synthetic informer, the events broadcast so far and the kernel calls made so far. The store
  (client-go's \<open>cache.Store\<close>), the broadcaster and the work queue are not part of the
  repository: the store is a record of operations with the documented laws
  \<open>informer_store_ok\<close>, the broadcaster answers each event from the earlier ones, and the
  queue is the list of the calls made on it.
\<close>

datatype store_obj = DeviceObj HostDevice | OtherObj

record 's informer_store =
  st_Add :: "HostDevice \<Rightarrow> 's \<Rightarrow> liberr option \<times> 's"
  st_Update :: "HostDevice \<Rightarrow> 's \<Rightarrow> liberr option \<times> 's"
  st_Delete :: "HostDevice \<Rightarrow> 's \<Rightarrow> liberr option \<times> 's"
  st_GetByKey :: "string \<Rightarrow> 's \<Rightarrow> liberr + store_obj option"
  st_List :: "'s \<Rightarrow> store_obj list"

datatype watch_event = Added HostDevice | Modified HostDevice | Deleted HostDevice

type_synonym broadcaster = "watch_event list \<Rightarrow> watch_event \<Rightarrow> liberr option"

record 's DeviceCache =
  snapshot :: "string \<rightharpoonup> HostDevice"
  store :: 's
  events :: "watch_event list"
  calls :: khist

datatype cache_error =
    ErrorGettingDevice string liberr
  | DeviceNotFound string
  | UnexpectedType string
  | FailedToGetDevice string liberr
  | FailedToDeleteFromStore string liberr
  | FailedToBroadcastDelete string liberr
  | FailedToUpdateInStore string liberr
  | FailedToBroadcastUpdate string liberr
  | FailedToAddToStore string liberr
  | FailedToBroadcastAdd string liberr

section \<open>Reading: Get and List\<close>

definition DeviceCache_Get ::
  "'s informer_store \<Rightarrow> 's \<Rightarrow> string \<Rightarrow> (HostDevice, cache_error) res" where
  "DeviceCache_Get S st name =
     (case st_GetByKey S name st of
        Inl e \<Rightarrow> Err (ErrorGettingDevice name e)
      | Inr None \<Rightarrow> Err (DeviceNotFound name)
      | Inr (Some (DeviceObj device)) \<Rightarrow> Ok device
      | Inr (Some OtherObj) \<Rightarrow> Err (UnexpectedType name))"

text \<open>
  \<open>List\<close>. The set of devices is turned into a slice in no particular order by
  \<open>UnsortedList\<close>: the parameter \<open>unsorted\<close>. A selector without a CEL expression and one whose
  expression fails leave the result as it is.
\<close>

definition listed_devices :: "store_obj list \<Rightarrow> HostDevice list" where
  "listed_devices objs =
     concat (map (\<lambda>obj. case obj of DeviceObj d \<Rightarrow> [d] | OtherObj \<Rightarrow> []) objs)"

fun apply_selectors ::
  "cel_lib \<Rightarrow> (HostDevice list \<Rightarrow> HostDevice list) \<Rightarrow> Selector list \<Rightarrow> HostDevice list \<Rightarrow>
   HostDevice list" where
  "apply_selectors cel unsorted [] result = result"
| "apply_selectors cel unsorted (selector # rest) result =
     (case CEL selector of
        None \<Rightarrow> apply_selectors cel unsorted rest result
      | Some c \<Rightarrow>
          (case EvalDevices cel (Expression c) (unsorted result) of
             Ok evalDevices \<Rightarrow> apply_selectors cel unsorted rest evalDevices
           | _ \<Rightarrow> apply_selectors cel unsorted rest result))"

definition DeviceCache_List ::
  "'s informer_store \<Rightarrow> cel_lib \<Rightarrow> (HostDevice list \<Rightarrow> HostDevice list) \<Rightarrow> 's \<Rightarrow>
   (listOption \<Rightarrow> listOption) list \<Rightarrow> HostDevice list" where
  "DeviceCache_List S cel unsorted st opts =
     (let options = fold (\<lambda>opt o'. opt o') opts \<lparr>selectors = []\<rparr>;
          result = listed_devices (st_List S st)
      in unsorted (apply_selectors cel unsorted (selectors options) result))"

section \<open>Writing: syncDevice\<close>

definition GroupVersion_String :: string where
  "GroupVersion_String = ''devicenetwork.io/v1alpha1''"

definition kind :: string where
  "kind = ''Device''"

definition buildDevice :: "(string list \<Rightarrow> dir_result) \<Rightarrow> string \<Rightarrow> Link \<Rightarrow> HostDevice" where
  "buildDevice readDir sysfsNetRoot link =
     \<lparr>hd_Kind = kind,
      hd_APIVersion = GroupVersion_String,
      hd_Name = link_Name link,
      hd_Spec =
        \<lparr>InterfaceName = link_Name link,
         InterfaceIndex = link_Index link,
         RDMACapable = isRDMACapable readDir sysfsNetRoot (link_Name link),
         ParentIndex = link_ParentIndex link,
         MasterIndex = link_MasterIndex link,
         LinkLayerType = link_EncapType link,
         hs_DeviceType = link_Type link\<rparr>\<rparr>"

text \<open>A write to the store followed by a broadcast: each may fail, in this order. An event is
  recorded when the broadcaster has accepted it.\<close>

definition store_and_broadcast ::
  "(HostDevice \<Rightarrow> 's \<Rightarrow> liberr option \<times> 's) \<Rightarrow> broadcaster \<Rightarrow> (liberr \<Rightarrow> cache_error) \<Rightarrow>
   (liberr \<Rightarrow> cache_error) \<Rightarrow> HostDevice \<Rightarrow> watch_event \<Rightarrow> 's DeviceCache \<Rightarrow>
   (unit, cache_error) res \<times> 's DeviceCache" where
  "store_and_broadcast write action storeErr castErr device event dc =
     (let (err, st) = write device (store dc); dc1 = dc\<lparr>store := st\<rparr> in
      case err of
        Some e \<Rightarrow> (Err (storeErr e), dc1)
      | None \<Rightarrow>
          (case action (events dc1) event of
             Some e \<Rightarrow> (Err (castErr e), dc1)
           | None \<Rightarrow> (Ok (), dc1\<lparr>events := events dc1 @ [event]\<rparr>)))"

definition syncDevice ::
  "'s informer_store \<Rightarrow> broadcaster \<Rightarrow> kernel \<Rightarrow> string \<Rightarrow> string \<Rightarrow> 's DeviceCache \<Rightarrow>
   (unit, cache_error) res \<times> 's DeviceCache" where
  "syncDevice S action k sysfsNetRoot deviceKey dc =
     (let h = calls dc; h1 = h @ [LinkByName deviceKey]; dc1 = dc\<lparr>calls := h1\<rparr> in
      case k_LinkByName k h deviceKey of
        Inl (OtherLinkError e) \<Rightarrow> (Err (FailedToGetDevice deviceKey e), dc1)
      | Inl LinkNotFoundError \<Rightarrow>
          (case snapshot dc1 deviceKey of
             None \<Rightarrow> (Ok (), dc1)
           | Some existing \<Rightarrow>
               store_and_broadcast (st_Delete S) action (FailedToDeleteFromStore deviceKey)
                 (FailedToBroadcastDelete deviceKey) existing (Deleted existing)
                 (dc1\<lparr>snapshot := (snapshot dc1)(deviceKey := None)\<rparr>))
      | Inr link \<Rightarrow>
          (let newEntry = buildDevice (k_ReadDir k h1) sysfsNetRoot link;
               dc2 = dc1\<lparr>calls := h1 @ [ReadDir (ib_root sysfsNetRoot (link_Name link))],
                         snapshot := (snapshot dc1)(deviceKey \<mapsto> newEntry)\<rparr>
           in case snapshot dc1 deviceKey of
                Some existing \<Rightarrow>
                  if hd_Spec existing = hd_Spec newEntry then (Ok (), dc2)
                  else store_and_broadcast (st_Update S) action (FailedToUpdateInStore deviceKey)
                         (FailedToBroadcastUpdate deviceKey) newEntry (Modified newEntry) dc2
              | None \<Rightarrow>
                  store_and_broadcast (st_Add S) action (FailedToAddToStore deviceKey)
                    (FailedToBroadcastAdd deviceKey) newEntry (Added newEntry) dc2))"

lemma syncDevice_no_panic:
  "fst (syncDevice S action k root key dc) \<noteq> Panic" "fst (syncDevice S action k root key dc) \<noteq> Diverge"
  by (auto simp: syncDevice_def store_and_broadcast_def Let_def split: split_results link_error.splits)

section \<open>The worker and the poll\<close>

definition sync_key ::
  "'s informer_store \<Rightarrow> broadcaster \<Rightarrow> kernel \<Rightarrow> string \<Rightarrow> string \<Rightarrow> 's DeviceCache \<Rightarrow>
   bool \<times> 's DeviceCache" where
  "sync_key S action k root key dc =
     (let (out, dc') = syncDevice S action k root key dc in (is_ok out, dc'))"

text \<open>A panic of \<open>syncDevice\<close> would run the deferred \<open>Done\<close> and end the worker.\<close>

definition DeviceCache_processNextWorkItem ::
  "'s informer_store \<Rightarrow> broadcaster \<Rightarrow> kernel \<Rightarrow> string \<Rightarrow> string option \<Rightarrow> 's DeviceCache \<Rightarrow>
   bool \<times> queue_op list \<times> 's DeviceCache" where
  "DeviceCache_processNextWorkItem S action k root item dc =
     (case item of
        None \<Rightarrow> (False, [], dc)
      | Some key \<Rightarrow>
          (case syncDevice S action k root key dc of
             (Err _, dc') \<Rightarrow> (True, [QAddRateLimited key, QDone key], dc')
           | (Ok _, dc') \<Rightarrow> (True, [QForget key, QDone key], dc')
           | (Panic, dc') \<Rightarrow> (False, [QDone key], dc')
           | (Diverge, dc') \<Rightarrow> (False, [], dc')))"

definition DeviceCache_runWorker ::
  "'s informer_store \<Rightarrow> broadcaster \<Rightarrow> kernel \<Rightarrow> string \<Rightarrow> string option list \<Rightarrow> 's DeviceCache \<Rightarrow>
   queue_op list \<times> 's DeviceCache" where
  "DeviceCache_runWorker S action k root =
     run_worker (DeviceCache_processNextWorkItem S action k root)"

text \<open>\<open>ghw.Network()\<close> answers the names of the interfaces it lists, or an error.\<close>

definition pollDevices :: "liberr + string list \<Rightarrow> queue_op list" where
  "pollDevices netInfo = (case netInfo of Inl _ \<Rightarrow> [] | Inr nics \<Rightarrow> map QAdd nics)"

interpretation device_worker: work_loop
  "DeviceCache_processNextWorkItem S action k root" "sync_key S action k root"
proof unfold_locales
  fix s
  show "DeviceCache_processNextWorkItem S action k root None s = (False, [], s)"
    by (simp add: DeviceCache_processNextWorkItem_def)
next
  fix key s
  show "DeviceCache_processNextWorkItem S action k root (Some key) s =
      (True, [if fst (sync_key S action k root key s) then QForget key else QAddRateLimited key,
              QDone key], snd (sync_key S action k root key s))"
    using syncDevice_no_panic [of S action k root key s]
    by (auto simp: DeviceCache_processNextWorkItem_def sync_key_def split: prod.splits res.splits)
qed

section \<open>The laws of the informer's store\<close>

text \<open>
  client-go documents them: a write that succeeds is seen under the object's key (for the
  cluster-scoped devices their name) and nowhere else, a write that fails changes nothing, and
  \<open>List\<close> gives the stored objects, each once.
\<close>

definition informer_store_ok :: "'s informer_store \<Rightarrow> bool" where
  "informer_store_ok S \<longleftrightarrow>
     (\<forall>d s k. st_GetByKey S k (snd (st_Add S d s)) =
        (if fst (st_Add S d s) = None \<and> k = hd_Name d then Inr (Some (DeviceObj d)) else st_GetByKey S k s)) \<and>
     (\<forall>d s k. st_GetByKey S k (snd (st_Update S d s)) =
        (if fst (st_Update S d s) = None \<and> k = hd_Name d then Inr (Some (DeviceObj d)) else st_GetByKey S k s)) \<and>
     (\<forall>d s k. st_GetByKey S k (snd (st_Delete S d s)) =
        (if fst (st_Delete S d s) = None \<and> k = hd_Name d then Inr None else st_GetByKey S k s)) \<and>
     (\<forall>s x. x \<in> set (st_List S s) \<longleftrightarrow> (\<exists>k. st_GetByKey S k s = Inr (Some x)))"

lemma informer_store_okD:
  assumes "informer_store_ok S"
  shows "st_Add S d s = (err, s') \<Longrightarrow> st_GetByKey S k s' =
      (if err = None \<and> k = hd_Name d then Inr (Some (DeviceObj d)) else st_GetByKey S k s)"
    and "st_Update S d s = (err, s') \<Longrightarrow> st_GetByKey S k s' =
      (if err = None \<and> k = hd_Name d then Inr (Some (DeviceObj d)) else st_GetByKey S k s)"
    and "st_Delete S d s = (err, s') \<Longrightarrow> st_GetByKey S k s' =
      (if err = None \<and> k = hd_Name d then Inr None else st_GetByKey S k s)"
    and "x \<in> set (st_List S s) \<longleftrightarrow> (\<exists>k. st_GetByKey S k s = Inr (Some x))"
  using assms unfolding informer_store_ok_def by (metis fst_conv snd_conv)+

section \<open>The invariant\<close>

text \<open>
  A device the cache holds is determined by its key and its \<open>Spec\<close>; the store holds exactly the
  snapshot; and a watcher that applies the events gets the snapshot.
\<close>

definition device_of :: "string \<Rightarrow> DeviceSpec \<Rightarrow> HostDevice" where
  "device_of key spec =
     \<lparr>hd_Kind = kind, hd_APIVersion = GroupVersion_String, hd_Name = key, hd_Spec = spec\<rparr>"

fun apply_event :: "watch_event \<Rightarrow> (string \<rightharpoonup> HostDevice) \<Rightarrow> (string \<rightharpoonup> HostDevice)" where
  "apply_event (Added d) m = m(hd_Name d \<mapsto> d)"
| "apply_event (Modified d) m = m(hd_Name d \<mapsto> d)"
| "apply_event (Deleted d) m = m(hd_Name d := None)"

definition replay :: "watch_event list \<Rightarrow> (string \<rightharpoonup> HostDevice)" where
  "replay evs = fold apply_event evs Map.empty"

lemma replay_Nil [simp]: "replay [] = Map.empty"
  by (simp add: replay_def)

lemma replay_snoc [simp]: "replay (evs @ [e]) = apply_event e (replay evs)"
  by (simp add: replay_def)

definition store_matches :: "'s informer_store \<Rightarrow> 's \<Rightarrow> (string \<rightharpoonup> HostDevice) \<Rightarrow> bool" where
  "store_matches S st m \<longleftrightarrow> (\<forall>k. st_GetByKey S k st = Inr (map_option DeviceObj (m k)))"

definition cache_inv :: "'s informer_store \<Rightarrow> 's DeviceCache \<Rightarrow> bool" where
  "cache_inv S dc \<longleftrightarrow>
     (\<forall>k d. snapshot dc k = Some d \<longrightarrow> d = device_of k (hd_Spec d)) \<and>
     store_matches S (store dc) (snapshot dc) \<and>
     replay (events dc) = snapshot dc"

lemma device_of_simps [simp]: "hd_Name (device_of key spec) = key" "hd_Spec (device_of key spec) = spec"
  by (simp_all add: device_of_def)

lemma buildDevice_device_of:
  "buildDevice rd root link = device_of (link_Name link) (hd_Spec (buildDevice rd root link))"
  by (simp add: buildDevice_def device_of_def)

lemma hd_Name_buildDevice [simp]: "hd_Name (buildDevice rd root link) = link_Name link"
  by (simp add: buildDevice_def)

lemma cache_invD:
  assumes "cache_inv S dc"
  shows "snapshot dc k = Some d \<Longrightarrow> hd_Name d = k"
    and "snapshot dc k = Some d \<Longrightarrow> hd_Spec d = hd_Spec (buildDevice rd root link) \<Longrightarrow>
      link_Name link = k \<Longrightarrow> d = buildDevice rd root link"
    and "st_GetByKey S k (store dc) = Inr (map_option DeviceObj (snapshot dc k))"
    and "replay (events dc) = snapshot dc"
proof -
  have d: "d = device_of k (hd_Spec d)" if "snapshot dc k = Some d" for k d
    using assms that by (auto simp: cache_inv_def)
  show "hd_Name d = k" if "snapshot dc k = Some d"
    by (subst d [OF that]) simp
  show "d = buildDevice rd root link"
    if "snapshot dc k = Some d" "hd_Spec d = hd_Spec (buildDevice rd root link)" "link_Name link = k"
    using d [OF that(1)] that(2,3) buildDevice_device_of [of rd root link] by simp
qed (use assms in \<open>auto simp: cache_inv_def store_matches_def\<close>)

text \<open>What one synchronisation should make of a key, from what the kernel answered.\<close>

definition observed :: "kernel \<Rightarrow> khist \<Rightarrow> string \<Rightarrow> string \<Rightarrow> HostDevice option" where
  "observed k h root key =
     (case k_LinkByName k h key of
        Inl _ \<Rightarrow> None
      | Inr link \<Rightarrow> Some (buildDevice (k_ReadDir k (h @ [LinkByName key])) root link))"

definition change_event :: "HostDevice option \<Rightarrow> HostDevice option \<Rightarrow> watch_event list" where
  "change_event old new =
     (case (old, new) of
        (None, None) \<Rightarrow> []
      | (None, Some d) \<Rightarrow> [Added d]
      | (Some d, None) \<Rightarrow> [Deleted d]
      | (Some d, Some d') \<Rightarrow> if d = d' then [] else [Modified d'])"

text \<open>\<open>LinkByName\<close> answers a link of the name it was asked for.\<close>

definition link_names_ok :: "kernel \<Rightarrow> bool" where
  "link_names_ok k \<longleftrightarrow> (\<forall>h name l. k_LinkByName k h name = Inr l \<longrightarrow> link_Name l = name)"

lemma apply_change_event:
  assumes "\<And>d. m key = Some d \<Longrightarrow> hd_Name d = key" and "\<And>d. new = Some d \<Longrightarrow> hd_Name d = key"
  shows "fold apply_event (change_event (m key) new) m = m(key := new)"
  using assms by (cases "m key"; cases new) (auto simp: change_event_def)

text \<open>
  What a synchronisation that succeeds does, when the store may lag behind the snapshot: \<open>m\<close> is what the
  store holds.
\<close>

definition sync_effect ::
  "'s informer_store \<Rightarrow> kernel \<Rightarrow> string \<Rightarrow> string \<Rightarrow> (string \<rightharpoonup> HostDevice) \<Rightarrow> 's DeviceCache \<Rightarrow> 's DeviceCache \<Rightarrow> bool" where
  "sync_effect S k root key m dc dc' \<longleftrightarrow>
     (let change = change_event (snapshot dc key) (observed k (calls dc) root key) in
      snapshot dc' = (snapshot dc)(key := observed k (calls dc) root key) \<and>
      events dc' = events dc @ change \<and> store_matches S (store dc') (fold apply_event change m))"

lemma syncDevice_gone:
  assumes "informer_store_ok S" and "store_matches S (store dc) m" and "k_LinkByName k (calls dc) key = Inl e"
    and "\<And>d. snapshot dc key = Some d \<Longrightarrow> hd_Name d = key"
    and "syncDevice S action k root key dc = (Ok (), dc')"
  shows "sync_effect S k root key m dc dc'"
  using assms(2-)
  by (auto simp: sync_effect_def syncDevice_def store_and_broadcast_def Let_def observed_def change_event_def
      store_matches_def informer_store_okD(3) [OF assms(1)] split: link_error.splits prod.splits option.splits)

lemma syncDevice_found:
  assumes "informer_store_ok S" and "store_matches S (store dc) m"
    and "k_LinkByName k (calls dc) key = Inr link" and "link_Name link = key"
    and "\<And>d. snapshot dc key = Some d \<Longrightarrow> d = device_of key (hd_Spec d)"
    and "syncDevice S action k root key dc = (Ok (), dc')"
  shows "sync_effect S k root key m dc dc'"
proof -
  let ?new = "buildDevice (k_ReadDir k (calls dc @ [LinkByName key])) root link"
  note simps = sync_effect_def syncDevice_def store_and_broadcast_def Let_def observed_def change_event_def
    store_matches_def informer_store_okD(1,2) [OF assms(1)]
  have new: "?new = device_of key (hd_Spec ?new)"
    using assms(4) buildDevice_device_of by metis
  consider "snapshot dc key = None" | "snapshot dc key = Some ?new"
    | d where "snapshot dc key = Some d" "hd_Spec d \<noteq> hd_Spec ?new" "d \<noteq> ?new"
    using assms(5) new by (cases "snapshot dc key") (auto, metis)
  then show ?thesis
  proof cases
    case 2
    with assms(2,3,6) show ?thesis
      by (auto simp: simps)
  qed (use assms(2-4,6) in \<open>auto simp: simps split: prod.splits option.splits\<close>)
qed

lemma syncDevice_Ok:
  assumes "informer_store_ok S" and "link_names_ok k"
    and "\<And>key d. snapshot dc key = Some d \<Longrightarrow> d = device_of key (hd_Spec d)"
    and "store_matches S (store dc) m" and "syncDevice S action k root key dc = (Ok (), dc')"
  shows "sync_effect S k root key m dc dc'"
proof (cases "k_LinkByName k (calls dc) key")
  case (Inl e)
  from syncDevice_gone [OF assms(1,4) this _ assms(5)] assms(3) show ?thesis
    by (metis device_of_simps(1))
next
  case (Inr link)
  with assms(2) have "link_Name link = key"
    by (simp add: link_names_ok_def)
  from syncDevice_found [OF assms(1,4) Inr this assms(3,5)] show ?thesis .
qed

lemma observed_device_of:
  "link_names_ok k \<Longrightarrow> observed k h root key = Some d \<Longrightarrow> d = device_of key (hd_Spec d)"
  by (auto simp: observed_def link_names_ok_def buildDevice_def device_of_def split: sum.splits)

lemma observed_name: "link_names_ok k \<Longrightarrow> observed k h root key = Some d \<Longrightarrow> hd_Name d = key"
  by (metis observed_device_of device_of_simps(1))

lemma syncDevice_OkD:
  assumes "informer_store_ok S" and k: "link_names_ok k" and inv: "cache_inv S dc"
    and "syncDevice S action k root key dc = (Ok (), dc')"
  shows "snapshot dc' = (snapshot dc)(key := observed k (calls dc) root key)"
    and "events dc' = events dc @ change_event (snapshot dc key) (observed k (calls dc) root key)"
    and "store_matches S (store dc') (snapshot dc')"
proof -
  from inv have "sync_effect S k root key (snapshot dc) dc dc'"
    by (intro syncDevice_Ok [OF assms(1,2) _ _ assms(4)]) (auto simp: cache_inv_def)
  moreover have "fold apply_event (change_event (snapshot dc key) (observed k (calls dc) root key)) (snapshot dc) =
      (snapshot dc)(key := observed k (calls dc) root key)"
    by (intro apply_change_event) (erule cache_invD(1) [OF inv], erule observed_name [OF k])
  ultimately show "snapshot dc' = (snapshot dc)(key := observed k (calls dc) root key)"
    and "events dc' = events dc @ change_event (snapshot dc key) (observed k (calls dc) root key)"
    and "store_matches S (store dc') (snapshot dc')"
    by (simp_all add: sync_effect_def Let_def)
qed

lemma cache_inv_step:
  assumes S: "informer_store_ok S" and k: "link_names_ok k" and inv: "cache_inv S dc"
    and ret: "syncDevice S action k root key dc = (Ok (), dc')"
  shows "cache_inv S dc'"
proof -
  note step = syncDevice_OkD [OF assms]
  note inv' = cache_invD [OF inv]
  let ?new = "observed k (calls dc) root key"
  have nm: "hd_Name d = key" if "?new = Some d" for d
    using observed_device_of [OF k that] by (metis device_of_simps(1))
  have "replay (events dc') = snapshot dc'"
    using inv'(1) [of key] nm
    by (cases "snapshot dc key"; cases ?new)
      (auto simp: step(1,2) change_event_def inv'(4))
  moreover have "\<forall>k' d. snapshot dc' k' = Some d \<longrightarrow> d = device_of k' (hd_Spec d)"
    using inv observed_device_of [OF k] by (auto simp: step(1) cache_inv_def)
  ultimately show ?thesis
    using step(3) by (simp add: cache_inv_def)
qed

section \<open>What the cache gives to its readers\<close>

text \<open>The demonstration instances: a store that is an association list, and a host with one
  Ethernet interface.\<close>

definition list_store :: "(string \<times> HostDevice) list informer_store" where
  "list_store =
     \<lparr>st_Add = (\<lambda>d s. (None, (hd_Name d, d) # filter (\<lambda>p. fst p \<noteq> hd_Name d) s)),
      st_Update = (\<lambda>d s. (None, (hd_Name d, d) # filter (\<lambda>p. fst p \<noteq> hd_Name d) s)),
      st_Delete = (\<lambda>d s. (None, filter (\<lambda>p. fst p \<noteq> hd_Name d) s)),
      st_GetByKey = (\<lambda>k s. Inr (map_option DeviceObj (map_of s k))),
      st_List = (\<lambda>s. map (\<lambda>p. DeviceObj (the (map_of s (fst p)))) s)\<rparr>"

lemma list_store_ok: "informer_store_ok list_store"
proof -
  have filt: "map_of (filter (\<lambda>p. fst p \<noteq> n) s) k = (if k = n then None else map_of s k)"
    for n k and s :: "(string \<times> HostDevice) list"
    by (induction s) auto
  have "x \<in> set (st_List list_store s) \<longleftrightarrow> (\<exists>k. st_GetByKey list_store k s = Inr (Some x))" for x s
  proof
    assume "x \<in> set (st_List list_store s)"
    then obtain k d where "(k, d) \<in> set s" and x: "x = DeviceObj (the (map_of s k))"
      by (auto simp: list_store_def)
    then obtain d' where "map_of s k = Some d'"
      by (metis weak_map_of_SomeI)
    with x show "\<exists>k. st_GetByKey list_store k s = Inr (Some x)"
      by (auto simp: list_store_def intro!: exI [of _ k])
  next
    assume "\<exists>k. st_GetByKey list_store k s = Inr (Some x)"
    then obtain k d where "map_of s k = Some d" and "x = DeviceObj d"
      by (auto simp: list_store_def)
    then show "x \<in> set (st_List list_store s)"
      by (auto simp: list_store_def image_iff dest: map_of_SomeD intro!: bexI [of _ "(k, d)"])
  qed
  then show ?thesis
    by (auto simp: informer_store_ok_def list_store_def filt)
qed

definition demo_link :: Link where
  "demo_link = \<lparr>link_Name = ''eth0'', link_Index = 2, link_ParentIndex = 0, link_MasterIndex = 0,
     link_EncapType = ''ether'', link_Type = ''device''\<rparr>"

definition demo_kernel :: kernel where
  "demo_kernel =
     \<lparr>k_GetFromPath = (\<lambda>h path. if path = ''/netns/pod'' then Inr 7 else Inl ''no such file''),
      k_ReadDir = (\<lambda>h path. if path = ib_root DefaultSysfsNetRoot ''eth0'' then Entries [''mlx5_0''] else NotExist),
      k_RdmaLinkByName = (\<lambda>h name. if name = ''mlx5_0'' then Inr 1 else Inl ''not found''),
      k_RdmaLinkSetNsFd = (\<lambda>h l fd. None),
      k_LinkByName = (\<lambda>h name. if name = ''eth0'' then Inr demo_link else Inl LinkNotFoundError),
      k_LinkSetNsFd = (\<lambda>h l fd. None),
      k_LinkAdd = (\<lambda>h l. None)\<rparr>"

lemma demo_kernel_names: "link_names_ok demo_kernel"
  by (auto simp: link_names_ok_def demo_kernel_def demo_link_def split: if_splits)

definition empty_cache :: "(string \<times> HostDevice) list DeviceCache" where
  "empty_cache = \<lparr>snapshot = Map.empty, store = [], events = [], calls = []\<rparr>"

lemma empty_cache_inv: "cache_inv list_store empty_cache"
  by (simp add: cache_inv_def empty_cache_def store_matches_def list_store_def)

lemma Get_of_store_matches:
  "store_matches S st m \<Longrightarrow>
   DeviceCache_Get S st name = (case m name of None \<Rightarrow> Err (DeviceNotFound name) | Some d \<Rightarrow> Ok d)"
  by (simp add: store_matches_def DeviceCache_Get_def split: option.split)

lemma cache_inv_matches: "cache_inv S dc \<Longrightarrow> store_matches S (store dc) (snapshot dc)"
  by (simp add: cache_inv_def)

text \<open>
  C9: a synchronisation that succeeds brings exactly the synchronised key up to date. Reading
  the cache afterwards gives the device the kernel reported (or that there is none) for this
  key and what it gave before for every other; the event that was broadcast is the difference;
  and store, snapshot and the events a watcher has seen still agree.
\<close>

theorem syncDevice_refines_observation:
  assumes "informer_store_ok S" and "link_names_ok k" and "cache_inv S dc"
    and "syncDevice S action k root key dc = (Ok (), dc')"
  shows "DeviceCache_Get S (store dc') name =
      (if name = key
       then (case observed k (calls dc) root key of None \<Rightarrow> Err (DeviceNotFound key) | Some d \<Rightarrow> Ok d)
       else DeviceCache_Get S (store dc) name) \<and>
    events dc' = events dc @ change_event (snapshot dc key) (observed k (calls dc) root key) \<and>
    cache_inv S dc'"
  using Get_of_store_matches [OF syncDevice_OkD(3) [OF assms], of name]
    Get_of_store_matches [OF cache_inv_matches [OF assms(3)], of name]
    syncDevice_OkD(1,2) [OF assms] cache_inv_step [OF assms]
  by (auto split: option.split)

lemma syncDevice_refines_observation_witness:
  "\<exists>dc'. syncDevice list_store (\<lambda>evs e. None) demo_kernel DefaultSysfsNetRoot ''eth0'' empty_cache = (Ok (), dc') \<and>
     (\<exists>d. DeviceCache_Get list_store (store dc') ''eth0'' = Ok d \<and> RDMACapable (hd_Spec d)) \<and>
     cache_inv list_store dc'"
proof -
  obtain dc' where run: "syncDevice list_store (\<lambda>evs e. None) demo_kernel DefaultSysfsNetRoot ''eth0''
      empty_cache = (Ok (), dc')"
    by (simp add: syncDevice_def empty_cache_def demo_kernel_def demo_link_def Let_def
        store_and_broadcast_def list_store_def)
  have obs: "\<exists>d. observed demo_kernel [] DefaultSysfsNetRoot ''eth0'' = Some d \<and> RDMACapable (hd_Spec d)"
    by (simp add: observed_def demo_kernel_def demo_link_def buildDevice_def isRDMACapable_def
        RDMADevicesForNetdev_def Let_def)
  have calls: "calls empty_cache = []"
    by (simp add: empty_cache_def)
  from syncDevice_refines_observation [OF list_store_ok demo_kernel_names empty_cache_inv run,
      of "''eth0''"] obs run calls
  show ?thesis
    by auto
qed

text \<open>
  The worker reports every item it took from the queue as done, once and in order, and
  queues exactly the items whose synchronisation failed again.
\<close>

lemma DeviceCache_runWorker_queue:
  "done_keys (fst (DeviceCache_runWorker S action k root items dc)) = taken items \<and>
   retried_keys (fst (DeviceCache_runWorker S action k root items dc)) =
     failing_keys (sync_key S action k root) (taken items) dc"
  unfolding DeviceCache_runWorker_def
  by (intro conjI device_worker.run_worker_done device_worker.run_worker_retried)

section \<open>What goes wrong\<close>

text \<open>A synchronisation that was told of the interface what the snapshot holds changes nothing.\<close>

definition link_answered :: "kernel \<Rightarrow> khist \<Rightarrow> string \<Rightarrow> bool" where
  "link_answered k h key \<longleftrightarrow> (\<forall>e. k_LinkByName k h key \<noteq> Inl (OtherLinkError e))"

lemma syncDevice_idle:
  assumes "link_answered k (calls dc) key" and "snapshot dc key = observed k (calls dc) root key"
  shows "\<exists>dc'. syncDevice S action k root key dc = (Ok (), dc') \<and> store dc' = store dc \<and>
    events dc' = events dc \<and> snapshot dc' key = snapshot dc key"
  using assms
  by (auto simp: syncDevice_def observed_def link_answered_def Let_def split: sum.splits link_error.splits)

fun is_store_failure :: "cache_error \<Rightarrow> bool" where
  "is_store_failure (FailedToDeleteFromStore _ _) = True"
| "is_store_failure (FailedToUpdateInStore _ _) = True"
| "is_store_failure (FailedToAddToStore _ _) = True"
| "is_store_failure _ = False"

lemma syncDevice_ErrD:
  assumes "informer_store_ok S" and "syncDevice S action k root key dc = (Err e, dc')"
    and "link_answered k (calls dc) key"
  shows "snapshot dc' key = observed k (calls dc) root key" and "events dc' = events dc"
    and "is_store_failure e \<Longrightarrow> st_GetByKey S name (store dc') = st_GetByKey S name (store dc)"
  using assms(2,3) informer_store_okD(1-3) [OF assms(1)]
  by (auto simp: syncDevice_def store_and_broadcast_def observed_def link_answered_def Let_def
      split: split_results link_error.splits)

abbreviation synced_again ::
  "'s informer_store \<Rightarrow> broadcaster \<Rightarrow> kernel \<Rightarrow> string \<Rightarrow> string \<Rightarrow> nat \<Rightarrow> 's DeviceCache \<Rightarrow> 's DeviceCache" where
  "synced_again S action k root key n \<equiv> sync_keys (sync_key S action k root) (replicate n key)"

text \<open>
  C29: the snapshot is updated before the store, so a write that fails is not made up for while the
  interface stays as it is. Let a synchronisation fail although the kernel answered for the
  interface, that is in a write to the store or a broadcast, of an addition, an update or a deletion.
  However often the interface is synchronised again, by the retry of the worker or by a later poll, as
  long as the kernel answers for it what it answered then, each of these synchronisations succeeds, so
  none is queued again, and broadcasts nothing; the snapshot has what the kernel answered, and when it
  was the store that failed, the store still has for every name what it had before.
\<close>

theorem failed_write_is_not_retried:
  assumes "informer_store_ok S" and "syncDevice S action k root key dc = (Err e, dc')"
    and "link_answered k (calls dc) key"
    and "\<forall>m < n. link_answered k (calls (synced_again S action k root key m dc')) key \<and>
      observed k (calls (synced_again S action k root key m dc')) root key = observed k (calls dc) root key"
  shows "failing_keys (sync_key S action k root) (replicate n key) dc' = [] \<and>
    events (synced_again S action k root key n dc') = events dc \<and>
    snapshot (synced_again S action k root key n dc') key = observed k (calls dc) root key \<and>
    (is_store_failure e \<longrightarrow>
       st_GetByKey S name (store (synced_again S action k root key n dc')) = st_GetByKey S name (store dc))"
proof -
  note first = syncDevice_ErrD [OF assms(1-3)]
  have "failing_keys (sync_key S action k root) (replicate n key) D = [] \<and>
      events (synced_again S action k root key n D) = events D \<and>
      store (synced_again S action k root key n D) = store D \<and>
      snapshot (synced_again S action k root key n D) key = observed k (calls dc) root key"
    if "snapshot D key = observed k (calls dc) root key"
      and "\<forall>m < n. link_answered k (calls (synced_again S action k root key m D)) key \<and>
        observed k (calls (synced_again S action k root key m D)) root key = observed k (calls dc) root key"
    for D
    using that
  proof (induction n arbitrary: D)
    case (Suc n)
    from Suc.prems(2) have now: "link_answered k (calls D) key"
      "observed k (calls D) root key = observed k (calls dc) root key"
      by (auto dest: spec [of _ 0])
    with Suc.prems(1) syncDevice_idle [of k D key root S action] obtain D' where
      step: "syncDevice S action k root key D = (Ok (), D')"
      and D': "store D' = store D" "events D' = events D" "snapshot D' key = observed k (calls dc) root key"
      by auto
    have "link_answered k (calls (synced_again S action k root key m D')) key \<and>
        observed k (calls (synced_again S action k root key m D')) root key = observed k (calls dc) root key"
      if "m < n" for m
      using Suc.prems(2) [rule_format, of "Suc m"] that by (simp add: sync_key_def step)
    then have "\<forall>m < n. link_answered k (calls (synced_again S action k root key m D')) key \<and>
        observed k (calls (synced_again S action k root key m D')) root key = observed k (calls dc) root key"
      by blast
    from Suc.IH [OF D'(3) this] D' show ?case
      by (simp add: sync_key_def step)
  qed simp
  from this [OF first(1) assms(4)] first(2,3) show ?thesis
    by simp
qed

definition full_store :: "(string \<times> HostDevice) list informer_store" where
  "full_store = list_store\<lparr>st_Add := (\<lambda>d s. (Some ''store is full'', s))\<rparr>"

lemma full_store_ok: "informer_store_ok full_store"
  using list_store_ok by (auto simp: informer_store_ok_def full_store_def)

lemma failed_write_is_not_retried_witness:
  "\<exists>dc'. syncDevice full_store (\<lambda>evs e. None) demo_kernel DefaultSysfsNetRoot ''eth0'' empty_cache =
       (Err (FailedToAddToStore ''eth0'' ''store is full''), dc') \<and>
     DeviceCache_Get full_store (store (synced_again full_store (\<lambda>evs e. None) demo_kernel
       DefaultSysfsNetRoot ''eth0'' 2 dc')) ''eth0'' = Err (DeviceNotFound ''eth0'')"
proof -
  let ?sync = "syncDevice full_store (\<lambda>evs e. None) demo_kernel DefaultSysfsNetRoot ''eth0''"
  obtain dc' where run: "?sync empty_cache = (Err (FailedToAddToStore ''eth0'' ''store is full''), dc')"
    by (simp add: syncDevice_def empty_cache_def demo_kernel_def demo_link_def Let_def
        store_and_broadcast_def full_store_def)
  have k: "link_answered demo_kernel h ''eth0''"
    "observed demo_kernel h DefaultSysfsNetRoot ''eth0'' = observed demo_kernel [] DefaultSysfsNetRoot ''eth0''" for h
    by (simp_all add: demo_kernel_def link_answered_def observed_def)
  have "st_GetByKey full_store ''eth0'' (store empty_cache) = Inr None"
    by (simp add: full_store_def list_store_def empty_cache_def)
  moreover have "\<forall>m < 2. link_answered demo_kernel (calls (synced_again full_store (\<lambda>evs e. None) demo_kernel
        DefaultSysfsNetRoot ''eth0'' m dc')) ''eth0'' \<and>
      observed demo_kernel (calls (synced_again full_store (\<lambda>evs e. None) demo_kernel
        DefaultSysfsNetRoot ''eth0'' m dc')) DefaultSysfsNetRoot ''eth0'' =
      observed demo_kernel (calls empty_cache) DefaultSysfsNetRoot ''eth0''"
    using k(1) k(2) [THEN trans, OF k(2) [symmetric]] by blast
  note again = failed_write_is_not_retried [OF full_store_ok run k(1) this, of "''eth0''"]
  ultimately show ?thesis
    using run again by (simp add: DeviceCache_Get_def)
qed

text \<open>Only the synchronised key is written to; this holds on the error paths too.\<close>

definition names_ok :: "'s DeviceCache \<Rightarrow> bool" where
  "names_ok dc \<longleftrightarrow> (\<forall>k d. snapshot dc k = Some d \<longrightarrow> hd_Name d = k)"

lemma names_ok_cache_inv: "cache_inv S dc \<Longrightarrow> names_ok dc"
  unfolding names_ok_def using cache_invD(1) by blast

lemma syncDevice_frame:
  assumes S: "informer_store_ok S" and k: "link_names_ok k" and nm: "names_ok dc"
    and ret: "syncDevice S action k root key dc = (out, dc')"
  shows "names_ok dc'" and "name \<noteq> key \<Longrightarrow> st_GetByKey S name (store dc') = st_GetByKey S name (store dc)"
proof -
  have n: "k_LinkByName k h key = Inr l \<Longrightarrow> link_Name l = key" for h l
    using k by (simp add: link_names_ok_def)
  have e: "snapshot dc key = Some d \<Longrightarrow> hd_Name d = key" for d
    using nm by (simp add: names_ok_def)
  show "names_ok dc'"
    using ret nm n unfolding names_ok_def
    by (auto simp: syncDevice_def store_and_broadcast_def Let_def split: split_results link_error.splits)
  show "st_GetByKey S name (store dc') = st_GetByKey S name (store dc)" if "name \<noteq> key"
    using ret that n e informer_store_okD(1-3) [OF S]
    by (auto simp: syncDevice_def store_and_broadcast_def Let_def split: split_results link_error.splits)
qed

lemma sync_keys_frame:
  assumes S: "informer_store_ok S" and k: "link_names_ok k"
  shows "names_ok dc \<Longrightarrow> name \<notin> set keys \<Longrightarrow>
    st_GetByKey S name (store (sync_keys (sync_key S action k root) keys dc)) = st_GetByKey S name (store dc)"
proof (induction keys arbitrary: dc)
  case (Cons key keys)
  obtain out dc' where step: "syncDevice S action k root key dc = (out, dc')"
    by fastforce
  from syncDevice_frame [OF S k Cons.prems(1) step] Cons.prems(2) Cons.IH [of dc'] show ?case
    by (simp add: sync_key_def step)
qed simp

text \<open>
  C30: an interface that has vanished is never removed from the cache. The queue is fed by the
  poll alone, and the poll queues only the interfaces the host lists; whatever the worker does
  with the items, a device whose interface is in no listing stays readable as it was.
\<close>

theorem vanished_interface_stays:
  assumes "informer_store_ok S" and "link_names_ok k" and "cache_inv S dc"
    and "\<forall>key \<in> set (taken items). \<exists>poll \<in> set polls. QAdd key \<in> set (pollDevices poll)"
    and "\<forall>nics. Inr nics \<in> set polls \<longrightarrow> name \<notin> set nics"
  shows "DeviceCache_Get S (store (snd (DeviceCache_runWorker S action k root items dc))) name =
    DeviceCache_Get S (store dc) name"
proof -
  have "name \<notin> set (taken items)"
    using assms(4,5) by (auto simp: pollDevices_def split: sum.splits)
  with sync_keys_frame [OF assms(1,2) names_ok_cache_inv [OF assms(3)]] show ?thesis
    by (simp add: DeviceCache_runWorker_def device_worker.run_worker_state DeviceCache_Get_def)
qed

definition demo_spec :: DeviceSpec where
  "demo_spec = \<lparr>InterfaceName = ''eth1'', InterfaceIndex = 3, RDMACapable = False, ParentIndex = 0,
     MasterIndex = 0, LinkLayerType = ''ether'', hs_DeviceType = ''device''\<rparr>"

definition demo_stale_cache :: "(string \<times> HostDevice) list DeviceCache" where
  "demo_stale_cache =
     \<lparr>snapshot = [''eth1'' \<mapsto> device_of ''eth1'' demo_spec],
      store = [(''eth1'', device_of ''eth1'' demo_spec)],
      events = [Added (device_of ''eth1'' demo_spec)], calls = []\<rparr>"

lemma vanished_interface_stays_witness:
  "k_LinkByName demo_kernel [] ''eth1'' = Inl LinkNotFoundError \<and>
   (\<exists>d. DeviceCache_Get list_store (store (snd (DeviceCache_runWorker list_store (\<lambda>evs e. None) demo_kernel
     DefaultSysfsNetRoot [Some ''eth0''] demo_stale_cache))) ''eth1'' = Ok d)"
proof -
  have inv: "cache_inv list_store demo_stale_cache"
    by (simp add: cache_inv_def demo_stale_cache_def store_matches_def list_store_def replay_def)
  have "\<forall>key \<in> set (taken [Some ''eth0'']). \<exists>poll \<in> set [Inr [''eth0'']]. QAdd key \<in> set (pollDevices poll)"
    and "\<forall>nics. Inr nics \<in> set [Inr [''eth0''] :: liberr + string list] \<longrightarrow> ''eth1'' \<notin> set nics"
    by (simp_all add: pollDevices_def)
  from vanished_interface_stays [OF list_store_ok demo_kernel_names inv this,
      of "\<lambda>evs e. None" DefaultSysfsNetRoot]
  show ?thesis
    by (simp add: demo_kernel_def DeviceCache_Get_def list_store_def demo_stale_cache_def)
qed

section \<open>List and the selectors\<close>

text \<open>\<open>UnsortedList\<close> gives the elements of the set in some order.\<close>

definition order_ok :: "('a list \<Rightarrow> 'a list) \<Rightarrow> bool" where
  "order_ok unsorted \<longleftrightarrow> (\<forall>xs. mset (unsorted xs) = mset xs)"

lemma order_ok_set: "order_ok unsorted \<Longrightarrow> set (unsorted xs) = set xs"
  unfolding order_ok_def by (metis set_mset_mset)

lemma order_ok_id [simp]: "order_ok (\<lambda>xs. xs)" "order_ok rev"
  by (simp_all add: order_ok_def)

lemma order_ok_Nil: "order_ok unsorted \<Longrightarrow> unsorted [] = []"
  using order_ok_set [of unsorted "[]"] by simp

definition satisfies :: "cel_lib \<Rightarrow> Selector \<Rightarrow> HostDevice \<Rightarrow> bool" where
  "satisfies cel selector d \<longleftrightarrow>
     (\<forall>c. CEL selector = Some c \<longrightarrow> evaluates cel (Expression c) d True)"

definition decides :: "cel_lib \<Rightarrow> Selector \<Rightarrow> HostDevice \<Rightarrow> bool" where
  "decides cel selector d \<longleftrightarrow>
     (\<forall>c. CEL selector = Some c \<longrightarrow> (\<exists>b. evaluates cel (Expression c) d b))"

lemma evaluates_unique: "evaluates cel e d b \<Longrightarrow> evaluates cel e d b' \<longleftrightarrow> b' = b"
  by (auto simp: evaluates_def)

lemma EvalDevices_decided:
  assumes "order_ok unsorted" and "\<forall>d \<in> set ds. \<exists>b. evaluates cel e d b" and "ds \<noteq> []"
  shows "EvalDevices cel e (unsorted ds) = Ok (filter (\<lambda>d. evaluates cel e d True) (unsorted ds))"
proof (rule EvalDevices_Ok)
  fix d
  assume "d \<in> set (unsorted ds)"
  with assms(1,2) order_ok_set obtain b where "evaluates cel e d b"
    by blast
  then show "evaluates cel e d (evaluates cel e d True)"
    using evaluates_unique [of cel e d b] by (cases b) auto
next
  show "unsorted ds \<noteq> []"
    using order_ok_set [OF assms(1), of ds] assms(3) by auto
qed

lemma apply_selectors_Nil: "order_ok unsorted \<Longrightarrow> apply_selectors cel unsorted sels [] = []"
  by (induction sels) (auto simp: order_ok_Nil dest!: EvalDevices_OkD split: option.split res.split)

lemma apply_selectors_decided:
  assumes "order_ok unsorted"
  shows "\<forall>s \<in> set sels. \<forall>d \<in> set ds. decides cel s d \<Longrightarrow>
    set (apply_selectors cel unsorted sels ds) = {d \<in> set ds. \<forall>s \<in> set sels. satisfies cel s d}"
proof (induction sels arbitrary: ds)
  case (Cons s sels)
  show ?case
  proof (cases "CEL s")
    case None
    with Cons show ?thesis
      by (auto simp: satisfies_def)
  next
    case (Some c)
    show ?thesis
    proof (cases "ds = []")
      case True
      then show ?thesis
        by (simp only: apply_selectors_Nil [OF assms]) simp
    next
      case False
      with Cons.prems Some have "EvalDevices cel (Expression c) (unsorted ds) =
          Ok (filter (\<lambda>d. evaluates cel (Expression c) d True) (unsorted ds))"
        by (intro EvalDevices_decided assms) (auto simp: decides_def)
      with Some Cons.IH [of "filter (\<lambda>d. evaluates cel (Expression c) d True) (unsorted ds)"] Cons.prems
      show ?thesis
        by (auto simp: order_ok_set [OF assms] satisfies_def)
    qed
  qed
qed simp

lemma set_listed_devices: "set (listed_devices objs) = {d. DeviceObj d \<in> set objs}"
  by (auto simp: listed_devices_def split: store_obj.splits)

text \<open>
  C24: when every selector has a boolean value on every stored device, listing with selectors
  gives exactly the stored devices that satisfy all of them.
\<close>

theorem DeviceCache_List_selects:
  assumes "informer_store_ok S" and "order_ok unsorted" and "store_matches S st m"
    and "\<forall>s \<in> set sels. \<forall>d \<in> ran m. decides cel s d"
  shows "set (DeviceCache_List S cel unsorted st [WithSelectors sels]) =
    {d \<in> ran m. \<forall>s \<in> set sels. satisfies cel s d}"
proof -
  have "set (listed_devices (st_List S st)) = ran m"
    using assms(3) by (auto simp: set_listed_devices informer_store_okD(4) [OF assms(1)]
        store_matches_def ran_def)
  with apply_selectors_decided [OF assms(2), of sels "listed_devices (st_List S st)" cel] assms(4)
  show ?thesis
    by (simp add: DeviceCache_List_def WithSelectors_def order_ok_set [OF assms(2)])
qed

text \<open>A CEL library that knows the one expression \<open>rdmaCapable\<close>.\<close>

definition demo_cel :: cel_lib where
  "demo_cel =
     \<lparr>cel_NewEnv = (\<lambda>vars. None),
      cel_Compile = (\<lambda>e. if e = RDMACapableDeviceSelectorAttribute then None else Some ''undeclared reference''),
      cel_Program = (\<lambda>e. Inr (\<lambda>vars. case vars e of None \<Rightarrow> Inl ''no such attribute'' | Some v \<Rightarrow> Inr v))\<rparr>"

definition cel_selector :: "string \<Rightarrow> Selector" where
  "cel_selector e = \<lparr>CEL = Some \<lparr>Expression = e\<rparr>\<rparr>"

lemma demo_cel_rdma:
  "evaluates demo_cel RDMACapableDeviceSelectorAttribute d b \<longleftrightarrow> b = RDMACapable (hd_Spec d)"
  by (auto simp: evaluates_def celProgram_def demo_cel_def eval_def RDMACapableDeviceSelectorAttribute_def
      InterfaceNameDeviceSelectorAttribute_def)

definition demo_rdma_spec :: DeviceSpec where
  "demo_rdma_spec = demo_spec\<lparr>InterfaceName := ''eth0'', RDMACapable := True\<rparr>"

definition demo_devices :: "(string \<times> HostDevice) list" where
  "demo_devices = [(''eth0'', device_of ''eth0'' demo_rdma_spec), (''eth1'', device_of ''eth1'' demo_spec)]"

lemma ran_demo_devices:
  "ran (map_of demo_devices) = {device_of ''eth0'' demo_rdma_spec, device_of ''eth1'' demo_spec}"
  by (subst ran_distinct) (simp_all add: demo_devices_def)

lemma demo_rdma: "RDMACapable demo_rdma_spec" "\<not> RDMACapable demo_spec"
  by (simp_all add: demo_rdma_spec_def demo_spec_def)

lemma demo_devices_match: "store_matches list_store demo_devices (map_of demo_devices)"
  by (simp add: store_matches_def list_store_def)

lemma DeviceCache_List_selects_witness:
  "set (DeviceCache_List list_store demo_cel rev demo_devices
     [WithSelectors [cel_selector RDMACapableDeviceSelectorAttribute]]) =
   {device_of ''eth0'' demo_rdma_spec}"
proof -
  have "\<forall>s \<in> set [cel_selector RDMACapableDeviceSelectorAttribute]. \<forall>d \<in> ran (map_of demo_devices).
      decides demo_cel s d"
    by (auto simp: decides_def cel_selector_def demo_cel_rdma)
  note selects = DeviceCache_List_selects [OF list_store_ok order_ok_id(2) demo_devices_match this]
  have sat: "satisfies demo_cel (cel_selector RDMACapableDeviceSelectorAttribute) d \<longleftrightarrow> RDMACapable (hd_Spec d)" for d
    by (simp add: satisfies_def cel_selector_def demo_cel_rdma)
  have "{d \<in> ran (map_of demo_devices). \<forall>s \<in> set [cel_selector RDMACapableDeviceSelectorAttribute]. satisfies demo_cel s d} =
      {device_of ''eth0'' demo_rdma_spec}"
    unfolding ran_demo_devices by (auto simp: sat demo_rdma)
  with selects show ?thesis
    by (simp only:)
qed

text \<open>
  A selector that does not compile selects every device. The API says a device has to satisfy
  every selector; here a faulty one restricts nothing, so the whole host matches.
\<close>

theorem DeviceCache_List_fails_open:
  assumes "informer_store_ok S" and "order_ok unsorted" and "store_matches S st m"
    and "\<forall>s \<in> set sels. \<exists>c e. CEL s = Some c \<and> cel_Compile cel (Expression c) = Some e"
  shows "set (DeviceCache_List S cel unsorted st [WithSelectors sels]) = ran m"
proof -
  have bad: "\<nexists>out. EvalDevices cel e ds = Ok out" if "cel_Compile cel e = Some err" for e err ds
    using that by (auto simp: EvalDevices_def celProgram_def split: option.splits)
  have "apply_selectors cel unsorted sels ds = ds" for ds
    using assms(4)
  proof (induction sels)
    case (Cons s sels)
    from Cons.prems obtain c err where "CEL s = Some c" "cel_Compile cel (Expression c) = Some err"
      by auto
    with Cons bad [of "Expression c" err "unsorted ds"] show ?case
      by (auto split: res.split)
  qed simp
  moreover have "set (listed_devices (st_List S st)) = ran m"
    using assms(3) by (auto simp: set_listed_devices informer_store_okD(4) [OF assms(1)]
        store_matches_def ran_def)
  ultimately show ?thesis
    by (simp add: DeviceCache_List_def WithSelectors_def order_ok_set [OF assms(2)])
qed

lemma DeviceCache_List_fails_open_witness:
  "set (DeviceCache_List list_store demo_cel rev demo_devices [WithSelectors [cel_selector ''rdma'']]) =
   {device_of ''eth0'' demo_rdma_spec, device_of ''eth1'' demo_spec}"
proof -
  have "\<forall>s \<in> set [cel_selector ''rdma'']. \<exists>c e. CEL s = Some c \<and> cel_Compile demo_cel (Expression c) = Some e"
    by (simp add: cel_selector_def demo_cel_def RDMACapableDeviceSelectorAttribute_def)
  from DeviceCache_List_fails_open [OF list_store_ok order_ok_id(2) demo_devices_match this]
  show ?thesis
    by (simp only: ran_demo_devices)
qed

end
