(* ===== verification/Resolver.thy ===== *)
theory Resolver
  imports HostCache
begin

text \<open>
  From an allocation result back to what was allocated: \<open>pkg/resolver/resolver.go\<close>. The indexer of the
  ResourceSlice informer and the DeviceNetwork lister are client-go's: the answers of \<open>ByIndex\<close> and
  \<open>Get\<close> are parameters, with the documented law of an index (\<open>by_index_ok\<close>) over the index function
  the resolver registers, which is modelled. \<open>structured.MakeDeviceID\<close> is a parameter too.

  Its client, the driver, sees the resolver through an interface: the locale \<open>device_resolver\<close>.
\<close>

datatype slice_obj = SliceObj ResourceSlice | OtherSliceObj

type_synonym device_id = "string \<Rightarrow> string \<Rightarrow> string \<Rightarrow> string"

text \<open>The function of the index \<open>deviceIDIndex\<close>.\<close>

definition deviceID_index :: "device_id \<Rightarrow> slice_obj \<Rightarrow> string list" where
  "deviceID_index MakeDeviceID obj =
     (case obj of
        OtherSliceObj \<Rightarrow> []
      | SliceObj rs \<Rightarrow> map (\<lambda>device. MakeDeviceID (rs_Driver rs) (rs_PoolName rs) (dev_Name device)) (rs_Devices rs))"

record Resolver =
  r_podNetworkKind :: string
  r_ByIndex :: "string \<Rightarrow> liberr + slice_obj list"
  r_GetDeviceNetwork :: "string \<Rightarrow> liberr + DeviceNetwork"
  r_GetHostDevice :: "string \<Rightarrow> (HostDevice, cache_error) res"

record ResolvedDevice =
  rd_DeviceRequestAllocationResult :: "DeviceRequestAllocationResult option"
  rd_DeviceNetwork :: "DeviceNetwork option"
  rd_DeviceConfiguration :: "DeviceConfiguration option"
  rd_ExposedDevice :: "KubeDevice option"
  rd_HostDevice :: "HostDevice option"

datatype resolver_error =
    NoDeviceFound string "liberr option"
  | UnexpectedSliceType string
  | DeviceNotInSlice string string
  | NoPodNetworkAttribute string
  | NotExpectedNetworkKind string
  | NoDeviceConfigurationAttribute string
  | NoHostDeviceAttribute string
  | FailedToGetHostDevice string cache_error
  | FailedToGetDeviceNetwork string liberr
  | DeviceConfigurationNotFound string string
  | FailedToResolve string string string resolver_error

text \<open>\<open>device.Attributes[name]\<close>: absent, or present without a string value, or a string.\<close>

definition string_attribute :: "KubeDevice \<Rightarrow> string \<Rightarrow> string option" where
  "string_attribute device name =
     (case Attributes device of
        None \<Rightarrow> None
      | Some m \<Rightarrow> (case m name of None \<Rightarrow> None | Some a \<Rightarrow> StringValue a))"

definition getDeviceNetworkForDevice ::
  "multinetwork_api \<Rightarrow> device_id \<Rightarrow> Resolver \<Rightarrow> DeviceRequestAllocationResult \<Rightarrow>
   (DeviceNetwork \<times> DeviceConfiguration \<times> KubeDevice \<times> HostDevice, resolver_error) res" where
  "getDeviceNetworkForDevice mn MakeDeviceID r result =
     (let key = MakeDeviceID (rar_Driver result) (rar_Pool result) (rar_Device result) in
      case r_ByIndex r key of
        Inl e \<Rightarrow> Err (NoDeviceFound key (Some e))
      | Inr [] \<Rightarrow> Err (NoDeviceFound key None)
      | Inr (OtherSliceObj # _) \<Rightarrow> Err (UnexpectedSliceType key)
      | Inr (SliceObj rslice # _) \<Rightarrow>
     (case find (\<lambda>dev. dev_Name dev = rar_Device result) (rs_Devices rslice) of
        None \<Rightarrow> Err (DeviceNotInSlice (rar_Device result) (rs_Name rslice))
      | Some device \<Rightarrow>
     (case string_attribute device (NetworkInterfaceAttributePodNetwork mn) of
        None \<Rightarrow> Err (NoPodNetworkAttribute (dev_Name device))
      | Some podNetwork \<Rightarrow>
     if string_attribute device (NetworkInterfaceAttributePodNetworkKind mn) \<noteq> Some (r_podNetworkKind r)
     then Err (NotExpectedNetworkKind (dev_Name device))
     else
     (case string_attribute device NetworkInterfaceAttributeDeviceConfiguration of
        None \<Rightarrow> Err (NoDeviceConfigurationAttribute (dev_Name device))
      | Some deviceConfigurationName \<Rightarrow>
     (case string_attribute device NetworkInterfaceAttributeHostDeviceName of
        None \<Rightarrow> Err (NoHostDeviceAttribute (dev_Name device))
      | Some hostDeviceName \<Rightarrow>
     (case r_GetHostDevice r hostDeviceName of
        Panic \<Rightarrow> Panic
      | Diverge \<Rightarrow> Diverge
      | Err e \<Rightarrow> Err (FailedToGetHostDevice hostDeviceName e)
      | Ok hostDevice \<Rightarrow>
     (case r_GetDeviceNetwork r podNetwork of
        Inl e \<Rightarrow> Err (FailedToGetDeviceNetwork podNetwork e)
      | Inr deviceNetwork \<Rightarrow>
     (case find (\<lambda>dc. dc_Name dc = deviceConfigurationName) (DeviceConfigurations (Spec deviceNetwork)) of
        None \<Rightarrow> Err (DeviceConfigurationNotFound deviceConfigurationName (dn_Name deviceNetwork))
      | Some deviceConfiguration \<Rightarrow>
          Ok (deviceNetwork, deviceConfiguration, device, hostDevice)))))))))"

definition GetDevice ::
  "multinetwork_api \<Rightarrow> device_id \<Rightarrow> Resolver \<Rightarrow> DeviceRequestAllocationResult \<Rightarrow>
   (ResolvedDevice, resolver_error) res" where
  "GetDevice mn MakeDeviceID r result =
     (case getDeviceNetworkForDevice mn MakeDeviceID r result of
        Err e \<Rightarrow> Err (FailedToResolve (rar_Driver result) (rar_Pool result) (rar_Device result) e)
      | Panic \<Rightarrow> Panic
      | Diverge \<Rightarrow> Diverge
      | Ok (deviceNetwork, deviceConfiguration, exposedDevice, hostDevice) \<Rightarrow>
          Ok \<lparr>rd_DeviceRequestAllocationResult = Some result,
              rd_DeviceNetwork = Some deviceNetwork,
              rd_DeviceConfiguration = Some deviceConfiguration,
              rd_ExposedDevice = Some exposedDevice,
              rd_HostDevice = Some hostDevice\<rparr>)"

section \<open>The index\<close>

text \<open>\<open>ByIndex\<close> gives the stored objects whose index values contain the key.\<close>

definition by_index_ok :: "device_id \<Rightarrow> slice_obj set \<Rightarrow> (string \<Rightarrow> liberr + slice_obj list) \<Rightarrow> bool" where
  "by_index_ok MakeDeviceID stored byIndex \<longleftrightarrow>
     (\<forall>key. \<exists>objs. byIndex key = Inr objs \<and> set objs = {obj \<in> stored. key \<in> set (deviceID_index MakeDeviceID obj)})"

text \<open>No two stored devices share a device ID: \<open>dra\<close> makes it of the driver, the pool and the
  device name, and a pool has one device of a name.\<close>

definition device_ids_ok :: "device_id \<Rightarrow> slice_obj set \<Rightarrow> bool" where
  "device_ids_ok MakeDeviceID stored \<longleftrightarrow>
     (\<forall>rs \<in> {rs. SliceObj rs \<in> stored}. \<forall>rs' \<in> {rs. SliceObj rs \<in> stored}.
        \<forall>d \<in> set (rs_Devices rs). \<forall>d' \<in> set (rs_Devices rs').
          MakeDeviceID (rs_Driver rs) (rs_PoolName rs) (dev_Name d) =
          MakeDeviceID (rs_Driver rs') (rs_PoolName rs') (dev_Name d') \<longrightarrow> rs = rs' \<and> d = d')"

lemma indexed_slice:
  assumes "by_index_ok ids stored byIndex" and "device_ids_ok ids stored"
    and "SliceObj rs \<in> stored" and "d \<in> set (rs_Devices rs)"
  obtains rest where "byIndex (ids (rs_Driver rs) (rs_PoolName rs) (dev_Name d)) = Inr (SliceObj rs # rest)"
    "find (\<lambda>dev. dev_Name dev = dev_Name d) (rs_Devices rs) = Some d"
proof -
  let ?key = "ids (rs_Driver rs) (rs_PoolName rs) (dev_Name d)"
  from assms(1) obtain objs where objs: "byIndex ?key = Inr objs"
      "set objs = {obj \<in> stored. ?key \<in> set (deviceID_index ids obj)}"
    unfolding by_index_ok_def by blast
  from assms(3,4) have "SliceObj rs \<in> set objs"
    by (auto simp: objs(2) deviceID_index_def)
  moreover have "obj = SliceObj rs" if "obj \<in> set objs" for obj
    using that assms(2-4) unfolding objs(2) device_ids_ok_def
    by (cases obj) (auto simp: deviceID_index_def)
  ultimately obtain rest where rest: "objs = SliceObj rs # rest"
    by (cases objs) auto
  obtain d' where d': "find (\<lambda>dev. dev_Name dev = dev_Name d) (rs_Devices rs) = Some d'"
    using assms(4) by (cases "find (\<lambda>dev. dev_Name dev = dev_Name d) (rs_Devices rs)")
      (auto simp: find_None_iff)
  from find_Some_in [OF d'] have "d' \<in> set (rs_Devices rs)" and name: "dev_Name d' = dev_Name d"
    by auto
  with assms(2-4) have "d' = d"
    unfolding device_ids_ok_def by fastforce
  with that objs(1) rest d' show thesis
    by simp
qed

section \<open>The interface\<close>

text \<open>A resolver that answers fills every field of the device, and the first with its question; the
  device resolved is the one asked for.\<close>

locale device_resolver =
  fixes resolve :: "DeviceRequestAllocationResult \<Rightarrow> (ResolvedDevice, resolver_error) res"
  assumes complete: "resolve result = Ok rd \<Longrightarrow>
    rd_DeviceRequestAllocationResult rd = Some result \<and>
    (\<exists>dn dc dev host. rd_DeviceNetwork rd = Some dn \<and> rd_DeviceConfiguration rd = Some dc \<and>
       rd_ExposedDevice rd = Some dev \<and> rd_HostDevice rd = Some host \<and>
       dev_Name dev = rar_Device result \<and> dc \<in> set (DeviceConfigurations (Spec dn)))"
begin

lemma resolved_fields:
  assumes "resolve result = Ok rd"
  obtains dn dc dev host where
    "rd = \<lparr>rd_DeviceRequestAllocationResult = Some result, rd_DeviceNetwork = Some dn,
           rd_DeviceConfiguration = Some dc, rd_ExposedDevice = Some dev, rd_HostDevice = Some host\<rparr>"
    "dev_Name dev = rar_Device result" "dc \<in> set (DeviceConfigurations (Spec dn))"
  using complete [OF assms] by (cases rd) auto

end

interpretation resolver: device_resolver "GetDevice mn ids r"
proof unfold_locales
  fix result rd
  assume "GetDevice mn ids r result = Ok rd"
  then obtain dn dc dev host where
    get: "getDeviceNetworkForDevice mn ids r result = Ok (dn, dc, dev, host)"
    and rd: "rd = \<lparr>rd_DeviceRequestAllocationResult = Some result, rd_DeviceNetwork = Some dn,
        rd_DeviceConfiguration = Some dc, rd_ExposedDevice = Some dev, rd_HostDevice = Some host\<rparr>"
    by (auto simp: GetDevice_def split: res.splits)
  from get have "(\<exists>rslice :: ResourceSlice. find (\<lambda>dev. dev_Name dev = rar_Device result) (rs_Devices rslice) = Some dev) \<and>
      (\<exists>name. find (\<lambda>dc. dc_Name dc = name) (DeviceConfigurations (Spec dn)) = Some dc)"
    by (auto simp: getDeviceNetworkForDevice_def Let_def
        split: sum.splits list.splits slice_obj.splits option.splits if_splits res.splits)
  then have "dev_Name dev = rar_Device result" "dc \<in> set (DeviceConfigurations (Spec dn))"
    by (auto dest: find_Some_in)
  then show "rd_DeviceRequestAllocationResult rd = Some result \<and>
    (\<exists>dn dc dev host. rd_DeviceNetwork rd = Some dn \<and> rd_DeviceConfiguration rd = Some dc \<and>
       rd_ExposedDevice rd = Some dev \<and> rd_HostDevice rd = Some host \<and>
       dev_Name dev = rar_Device result \<and> dc \<in> set (DeviceConfigurations (Spec dn)))"
    by (simp add: rd)
qed

end
