(* ===== verification/Store.thy ===== *)
theory Store
  imports KubeTypes
begin

text \<open>
  The in-memory store of the claims of pods, \<open>pkg/store/memory.go\<close>, and the interface
  \<open>PodResourceStore\<close> that the driver (\<open>Add\<close>) and the NRI plugin (\<open>Get\<close>, \<open>Delete\<close>) use, as the
  locale \<open>pod_resource_store\<close>. Each method holds the mutex from its first to its last statement,
  so a method is one step.
\<close>

record Memory =
  podResources :: "uid \<rightharpoonup> ResourceClaim list"

definition NewMemory :: Memory where
  "NewMemory = \<lparr>podResources = Map.empty\<rparr>"

text \<open>The read of an absent key of the map gives a nil slice.\<close>

definition Memory_Get :: "uid \<Rightarrow> Memory \<Rightarrow> ResourceClaim list" where
  "Memory_Get podUID m =
     (case podResources m podUID of None \<Rightarrow> [] | Some claims \<Rightarrow> claims)"

definition Memory_Add :: "uid \<Rightarrow> ResourceClaim \<Rightarrow> Memory \<Rightarrow> Memory" where
  "Memory_Add podUID claim m =
     (let appended = m\<lparr>podResources := (podResources m)(podUID \<mapsto>
            (case podResources m podUID of None \<Rightarrow> [] | Some claims \<Rightarrow> claims) @ [claim])\<rparr>
      in case podResources m podUID of
           None \<Rightarrow> appended
         | Some storedClaims \<Rightarrow>
             if \<exists>storedClaim \<in> set storedClaims. rc_UID claim = rc_UID storedClaim then m
             else appended)"

definition Memory_Delete :: "uid \<Rightarrow> Memory \<Rightarrow> Memory" where
  "Memory_Delete podUID m = m\<lparr>podResources := (podResources m)(podUID := None)\<rparr>"

section \<open>The interface\<close>

locale pod_resource_store =
  fixes empty :: "'m"
    and add :: "uid \<Rightarrow> ResourceClaim \<Rightarrow> 'm \<Rightarrow> 'm"
    and get :: "uid \<Rightarrow> 'm \<Rightarrow> ResourceClaim list"
    and del :: "uid \<Rightarrow> 'm \<Rightarrow> 'm"
  assumes get_empty: "get pod empty = []"
    and get_add: "get pod (add pod' claim m) =
      (if pod = pod' \<and> rc_UID claim \<notin> rc_UID ` set (get pod m) then get pod m @ [claim] else get pod m)"
    and get_del: "get pod (del pod' m) = (if pod = pod' then [] else get pod m)"
begin

text \<open>Every store that the operations build from the empty one.\<close>

inductive reachable :: "'m \<Rightarrow> bool" where
  reach_empty: "reachable empty"
| reach_add: "reachable m \<Longrightarrow> reachable (add pod claim m)"
| reach_del: "reachable m \<Longrightarrow> reachable (del pod m)"

lemma distinct_claims: "reachable m \<Longrightarrow> distinct (map rc_UID (get pod m))"
  by (induction rule: reachable.induct) (auto simp: get_empty get_add get_del)

lemma add_again: "get pod (add p claim (add p claim m)) = get pod (add p claim m)"
  by (auto simp: get_add)

lemma added_uid: "rc_UID claim \<in> rc_UID ` set (get pod (add pod claim m))"
  by (simp add: get_add)

lemma first_version_kept:
  assumes "c \<in> set (get pod m)" and "rc_UID c = rc_UID claim"
  shows "get pod (add pod claim m) = get pod m"
  using assms by (auto simp: get_add intro: rev_image_eqI)

end

interpretation memory: pod_resource_store NewMemory Memory_Add Memory_Get Memory_Delete
  by unfold_locales
    (auto simp: NewMemory_def Memory_Add_def Memory_Get_def Memory_Delete_def Let_def image_iff
      split: option.splits)

section \<open>What the store keeps\<close>

datatype store_op = StoreAdd uid ResourceClaim | StoreDelete uid

fun run_store_op :: "store_op \<Rightarrow> Memory \<Rightarrow> Memory" where
  "run_store_op (StoreAdd pod claim) m = Memory_Add pod claim m"
| "run_store_op (StoreDelete pod) m = Memory_Delete pod m"

text \<open>What is stored for a pod, computed from the operations alone: the first version of every
  claim added since the pod was last deleted.\<close>

fun claims_of :: "uid \<Rightarrow> store_op list \<Rightarrow> ResourceClaim list \<Rightarrow> ResourceClaim list" where
  "claims_of pod [] acc = acc"
| "claims_of pod (StoreAdd pod' claim # ops) acc =
     claims_of pod ops
       (if pod' = pod \<and> (\<forall>c \<in> set acc. rc_UID c \<noteq> rc_UID claim) then acc @ [claim] else acc)"
| "claims_of pod (StoreDelete pod' # ops) acc = claims_of pod ops (if pod' = pod then [] else acc)"

lemma Memory_Get_run: "Memory_Get pod (fold run_store_op ops m) = claims_of pod ops (Memory_Get pod m)"
proof (induction ops arbitrary: m)
  case (Cons op ops)
  then show ?case
    by (cases op) (auto simp: memory.get_add memory.get_del image_iff)
qed simp

lemma reachable_run: "memory.reachable m \<Longrightarrow> memory.reachable (fold run_store_op ops m)"
proof (induction ops arbitrary: m)
  case (Cons op ops)
  then show ?case
    by (cases op) (auto intro: memory.reach_add memory.reach_del)
qed simp

text \<open>
  C16: after any sequence of operations, whatever pods they interleave, the store holds for a pod
  exactly the first version of each claim added since the last delete of the pod, in the order of
  their adding, and no two claims of the same UID.
\<close>

theorem Memory_implements_log:
  "Memory_Get pod (fold run_store_op ops NewMemory) = claims_of pod ops [] \<and>
   distinct (map rc_UID (Memory_Get pod (fold run_store_op ops NewMemory)))"
proof
  show "Memory_Get pod (fold run_store_op ops NewMemory) = claims_of pod ops []"
    by (simp add: Memory_Get_run memory.get_empty)
  show "distinct (map rc_UID (Memory_Get pod (fold run_store_op ops NewMemory)))"
    by (intro memory.distinct_claims reachable_run memory.reach_empty)
qed

end
