(* ===== verification/StatusJson.thy ===== *)
theory StatusJson
  imports JsonText
begin

text \<open>
  The status data as text: what the driver marshals into the status of an allocated device, what may happen
  to the text in the API server, and what the NRI plugin and the configurators unmarshal. The value
  \<open>status_json F\<close> is \<open>encoding/json\<close> on the status data, given the codecs \<open>F\<close> of the structs that other
  repositories declare.
\<close>

section \<open>The text of the status data\<close>

definition status_json :: "foreign_json \<Rightarrow> json_lib" where
  "status_json F =
     \<lparr>Marshal = (\<lambda>d. Inr (print_json (enc_StatusData F d))),
      Unmarshal = (\<lambda>raw. case parse_json raw of Inl e \<Rightarrow> Inl e | Inr j \<Rightarrow> dec_StatusData F j)\<rparr>"

text \<open>Texts of one value: other white space, other escapes and another order of members.\<close>

definition same_text :: "string \<Rightarrow> string \<Rightarrow> bool" where
  "same_text s s' \<longleftrightarrow> (\<exists>j j'. parse_json s = Inr j \<and> parse_json s' = Inr j' \<and> same_json j j')"

text \<open>Data that can be written without a loss: its strings are UTF-8 and its foreign parts are not nested
  deeply.\<close>

definition small :: "members \<Rightarrow> bool" where
  "small ms \<longleftrightarrow> text_ok (JObject ms) \<and> nesting (JObject ms) \<le> 9000"

definition DeviceSpec_text :: "DeviceSpec \<Rightarrow> bool" where
  "DeviceSpec_text s \<longleftrightarrow> valid_utf8 (InterfaceName s) \<and> valid_utf8 (LinkLayerType s) \<and> valid_utf8 (hs_DeviceType s)"

definition Device_text :: "foreign_json \<Rightarrow> HostDevice \<Rightarrow> bool" where
  "Device_text F h \<longleftrightarrow>
     DeviceSpec_text (hd_Spec h) \<and> small (sj_members (fj_TypeMeta F) (hd_Kind h, hd_APIVersion h)) \<and>
     small (sj_members (fj_ObjectMeta F) (hd_Name h))"

definition Configuration_text :: "DeviceConfiguration \<Rightarrow> bool" where
  "Configuration_text c \<longleftrightarrow>
     valid_utf8 (dc_Name c) \<and> list_all valid_utf8 (dc_DeviceSelectors c) \<and>
     pred_option valid_utf8 (dc_DeviceType c) \<and> pred_option (\<lambda>m. pred_option valid_utf8 (Mode m)) (dc_Macvlan c)"

definition StatusData_text :: "foreign_json \<Rightarrow> ResourceClaimDeviceStatusData \<Rightarrow> bool" where
  "StatusData_text F d \<longleftrightarrow>
     small (sj_members (fj_DeviceStatus F) (sd_PodNetwork d)) \<and>
     pred_option Configuration_text (sd_DeviceConfiguration d) \<and> pred_option (Device_text F) (sd_Device d)"

section \<open>What is written\<close>

lemma valid_utf8_ascii: "list_all (\<lambda>c. byte c < 128) s \<Longrightarrow> valid_utf8 s"
  by (induction s) (simp_all add: valid_utf8.simps)

lemma fold_max_le: "fold max ns (m :: nat) \<le> k \<longleftrightarrow> m \<le> k \<and> (\<forall>n \<in> set ns. n \<le> k)"
  by (induction ns arbitrary: m) auto

lemma nesting_le:
  "nesting (JObject ms) \<le> Suc n \<longleftrightarrow> (\<forall>(k, j) \<in> set ms. nesting j \<le> n)"
  "nesting (JArray js) \<le> Suc n \<longleftrightarrow> (\<forall>j \<in> set js. nesting j \<le> n)"
  by (auto simp: fold_max_le)

declare nesting.simps(1,2) [simp del]

lemma strings_written [simp]:
  "list_all text_ok (map JString xs) \<longleftrightarrow> list_all valid_utf8 xs" "nesting (JArray (map JString xs)) = 1"
proof -
  have "nesting (JArray (map JString xs)) \<le> Suc 0"
    by (simp add: nesting_le)
  moreover have "1 \<le> nesting (JArray (map JString xs))"
    by (simp add: nesting.simps)
  ultimately show "nesting (JArray (map JString xs)) = 1"
    by simp
qed (simp add: list_all_iff)

definition shallow :: "nat \<Rightarrow> members \<Rightarrow> bool" where
  "shallow n ms \<longleftrightarrow> (\<forall>(k, j) \<in> set ms. valid_utf8 k \<and> text_ok j \<and> nesting j \<le> n)"

lemma shallow_simps [simp]:
  "shallow n []" "shallow n (ms @ ms') \<longleftrightarrow> shallow n ms \<and> shallow n ms'"
  "shallow n ((k, j) # ms) \<longleftrightarrow> valid_utf8 k \<and> text_ok j \<and> nesting j \<le> n \<and> shallow n ms"
  "shallow n (omit_empty z k j) \<longleftrightarrow> z \<or> valid_utf8 k \<and> text_ok j \<and> nesting j \<le> n"
  "shallow n (omit_nil k enc v) \<longleftrightarrow> pred_option (\<lambda>x. valid_utf8 k \<and> text_ok (enc x) \<and> nesting (enc x) \<le> n) v"
  by (auto simp: shallow_def omit_empty_def) (cases v; auto simp: shallow_def omit_nil_def)+

lemma shallow_object: "shallow n ms \<Longrightarrow> text_ok (JObject ms) \<and> nesting (JObject ms) \<le> Suc n"
  by (auto simp: shallow_def list_all_iff nesting_le)

lemma shallow_mono: "shallow n ms \<Longrightarrow> n \<le> m \<Longrightarrow> shallow m ms"
  by (auto simp: shallow_def)

lemma small_shallow: "small ms \<Longrightarrow> 9000 \<le> n \<Longrightarrow> shallow n ms"
  by (force simp: small_def shallow_def list_all_iff nesting.simps fold_max_le)

lemma DeviceSpec_shallow: "DeviceSpec_text s \<Longrightarrow> shallow 0 (DeviceSpec_members s)"
  by (simp add: DeviceSpec_members_def DeviceSpec_text_def valid_utf8_ascii)

lemma Configuration_shallow: "Configuration_text c \<Longrightarrow> shallow 1 (DeviceConfiguration_members c)"
  by (cases "dc_Macvlan c"; cases "dc_HostDevice c")
    (auto simp: DeviceConfiguration_members_def Configuration_text_def Macvlan_members_def HostDevice_members_def
      omit_nil_def valid_utf8_ascii nesting_le [of _ 0, simplified] elim: option.pred_mono_strong split: option.split)

lemma Device_shallow:
  assumes "Device_text F h"
  shows "shallow 9001 (Device_members F h)"
proof -
  have "text_ok (JObject (DeviceSpec_members (hd_Spec h)))" "nesting (JObject (DeviceSpec_members (hd_Spec h))) \<le> 1"
    using assms shallow_object [OF DeviceSpec_shallow] by (auto simp: Device_text_def)
  moreover have "shallow 9001 (sj_members (fj_TypeMeta F) (hd_Kind h, hd_APIVersion h))"
    using assms by (intro small_shallow) (simp_all add: Device_text_def)
  moreover have "text_ok (JObject (sj_members (fj_ObjectMeta F) (hd_Name h)))"
      "nesting (JObject (sj_members (fj_ObjectMeta F) (hd_Name h))) \<le> 9000"
    using assms by (simp_all add: Device_text_def small_def)
  ultimately show ?thesis
    by (simp add: Device_members_def valid_utf8_ascii del: text_ok.simps)
qed

lemma StatusData_written:
  assumes "StatusData_text F d"
  shows "text_ok (enc_StatusData F d) \<and> nesting (enc_StatusData F d) \<le> 10000"
proof -
  have "shallow 9999 (sj_members (fj_DeviceStatus F) (sd_PodNetwork d))"
    using assms by (intro small_shallow) (simp_all add: StatusData_text_def)
  moreover have "text_ok (JObject (DeviceConfiguration_members c)) \<and> nesting (JObject (DeviceConfiguration_members c)) \<le> 9999"
    if "sd_DeviceConfiguration d = Some c" for c
    using assms that shallow_object [OF shallow_mono [OF Configuration_shallow, of c 9998]]
    by (simp add: StatusData_text_def)
  moreover have "text_ok (JObject (Device_members F h)) \<and> nesting (JObject (Device_members F h)) \<le> 9999"
    if "sd_Device d = Some h" for h
    using assms that shallow_object [OF shallow_mono [OF Device_shallow, of F h 9998]]
    by (simp add: StatusData_text_def)
  ultimately have "shallow 9999 (StatusData_members F d)"
    by (auto simp: StatusData_members_def valid_utf8_ascii pred_option_def simp del: text_ok.simps)
  from shallow_object [OF this] show ?thesis
    by (simp add: enc_StatusData_def del: text_ok.simps)
qed

section \<open>What is read back\<close>

lemma Marshal_parses:
  assumes "StatusData_text F d" and "Marshal (status_json F) d = Inr raw"
  shows "parse_json raw = Inr (enc_StatusData F d)"
  using StatusData_written [OF assms(1)] assms(2) by (auto simp: status_json_def parse_print_json)

lemma StatusData_reads_back:
  assumes "foreign_json_ok F" and "StatusData_ok d" and "StatusData_text F d"
    and "Marshal (status_json F) d = Inr raw" and "same_text raw raw'"
  shows "Unmarshal (status_json F) raw' = Inr d"
proof -
  from Marshal_parses [OF assms(3,4)] assms(5) obtain j where "parse_json raw' = Inr j" "same_json (enc_StatusData F d) j"
    by (auto simp: same_text_def)
  with StatusData_survives [OF assms(1,2)] show ?thesis
    by (simp add: status_json_def)
qed

lemma marshalled_same_text:
  assumes "StatusData_text F d" and "Marshal (status_json F) d = Inr raw"
  shows "same_text raw raw"
  using Marshal_parses [OF assms] same_refl by (auto simp: same_text_def)

text \<open>
  C27: the status data survives its way through the API server. What the driver marshals is JSON, and every
  text of the same value, with its members in any order, is unmarshalled to the data that was marshalled:
  the pod network, the device configuration with all its optional parts, and the host device.
\<close>

theorem status_data_is_read_back:
  assumes "foreign_json_ok F" and "StatusData_ok d" and "StatusData_text F d"
    and "Marshal (status_json F) d = Inr raw" and "same_text raw raw'"
  shows "Unmarshal (status_json F) raw' = Inr d"
  by (rule StatusData_reads_back [OF assms])

section \<open>Codecs of the foreign structs\<close>

text \<open>
  A demonstration: the codecs of structs with just the fields the repository uses, under the names that
  \<open>metav1.TypeMeta\<close>, \<open>metav1.ObjectMeta\<close> and a pod network reference have in JSON.
\<close>

definition demo_string :: "string \<Rightarrow> ('r \<Rightarrow> string) \<Rightarrow> (string \<Rightarrow> 'r \<Rightarrow> 'r) \<Rightarrow> string \<times> 'r dec" where
  "demo_string k get set' = (k, field get set' dec_string)"

definition demo_foreign :: foreign_json where
  "demo_foreign =
     \<lparr>fj_DeviceStatus =
        \<lparr>sj_members = omit_nil ''podNetwork''
           (\<lambda>n. JObject [(''kind'', JString (pn_Kind n)), (''name'', JString (pn_Name n))]),
         sj_fields = [(''podNetwork'', field id (\<lambda>v r. v) (dec_pointer \<lparr>pn_Kind = [], pn_Name = []\<rparr>
           (dec_struct [demo_string ''kind'' pn_Kind (\<lambda>v n. n\<lparr>pn_Kind := v\<rparr>),
                        demo_string ''name'' pn_Name (\<lambda>v n. n\<lparr>pn_Name := v\<rparr>)])))]\<rparr>,
      fj_TypeMeta =
        \<lparr>sj_members = (\<lambda>(k, a). omit_empty (k = []) ''kind'' (JString k) @ omit_empty (a = []) ''apiVersion'' (JString a)),
         sj_fields = [demo_string ''kind'' fst (\<lambda>v (k, a). (v, a)), demo_string ''apiVersion'' snd (\<lambda>v (k, a). (k, v))]\<rparr>,
      fj_ObjectMeta =
        \<lparr>sj_members = (\<lambda>n. omit_empty (n = []) ''name'' (JString n)),
         sj_fields = [demo_string ''name'' id (\<lambda>v r. v)]\<rparr>\<rparr>"

lemma demo_network_codec:
  "struct_codec (\<lambda>n. [(''kind'', JString (pn_Kind n)), (''name'', JString (pn_Name n))])
     [demo_string ''kind'' pn_Kind (\<lambda>v n. n\<lparr>pn_Kind := v\<rparr>), demo_string ''name'' pn_Name (\<lambda>v n. n\<lparr>pn_Name := v\<rparr>)]
     \<lparr>pn_Kind = [], pn_Name = []\<rparr> (\<lambda>n. True)"
proof
  let ?fs = "[demo_string ''kind'' pn_Kind (\<lambda>v n. n\<lparr>pn_Kind := v\<rparr>), demo_string ''name'' pn_Name (\<lambda>v n. n\<lparr>pn_Name := v\<rparr>)]"
  show "decode_members ?fs ms \<lparr>pn_Kind = [], pn_Name = []\<rparr> = Inr v"
    if "same_members [(''kind'', JString (pn_Kind v)), (''name'', JString (pn_Name v))] ms" for v ms
    using that by (auto simp: same_members_Cons demo_string_def dec_simps)
  have "pairwise_independent ?fs"
    by (simp add: demo_string_def independent_field)
  then show "independent g g'" if "(k, g) \<in> set ?fs" "(k', g') \<in> set ?fs" "k \<noteq> k'" for k g k' g'
    using that by (rule pairwise_independentD)
qed (auto simp: demo_string_def)

lemma demo_DeviceStatus_codec:
  "struct_codec (sj_members (fj_DeviceStatus demo_foreign)) (sj_fields (fj_DeviceStatus demo_foreign)) None (\<lambda>v. True)"
proof
  show "decode_members (sj_fields (fj_DeviceStatus demo_foreign)) ms None = Inr v"
    if "same_members (sj_members (fj_DeviceStatus demo_foreign) v) ms" for v ms
    using that struct_codec.decodes_pointer [OF demo_network_codec TrueI]
    by (auto simp: demo_foreign_def same_omit_nil field_def find_field_def split: option.splits)
qed (auto simp: demo_foreign_def omit_nil_def split: option.split)

lemma demo_TypeMeta_codec:
  "struct_codec (sj_members (fj_TypeMeta demo_foreign)) (sj_fields (fj_TypeMeta demo_foreign)) ([], []) (\<lambda>v. True)"
proof
  show "decode_members (sj_fields (fj_TypeMeta demo_foreign)) ms ([], []) = Inr v"
    if "same_members (sj_members (fj_TypeMeta demo_foreign) v) ms" for v ms
    using that by (cases v) (auto simp: demo_foreign_def same_simps demo_string_def dec_simps split: if_splits)
  have "pairwise_independent (sj_fields (fj_TypeMeta demo_foreign))"
    by (auto simp: demo_foreign_def demo_string_def intro!: independent_field)
  then show "independent g g'" if "(k, g) \<in> set (sj_fields (fj_TypeMeta demo_foreign))"
      "(k', g') \<in> set (sj_fields (fj_TypeMeta demo_foreign))" "k \<noteq> k'" for k g k' g'
    using that by (rule pairwise_independentD)
qed (auto simp: demo_foreign_def demo_string_def omit_empty_def)

lemma demo_ObjectMeta_codec:
  "struct_codec (sj_members (fj_ObjectMeta demo_foreign)) (sj_fields (fj_ObjectMeta demo_foreign)) [] (\<lambda>v. True)"
proof
  show "decode_members (sj_fields (fj_ObjectMeta demo_foreign)) ms [] = Inr v"
    if "same_members (sj_members (fj_ObjectMeta demo_foreign) v) ms" for v ms
    using that by (auto simp: demo_foreign_def same_simps demo_string_def dec_simps split: if_splits)
qed (auto simp: demo_foreign_def demo_string_def omit_empty_def)

lemma demo_foreign_ok: "foreign_json_ok demo_foreign"
  using demo_DeviceStatus_codec demo_TypeMeta_codec demo_ObjectMeta_codec
  by (simp add: foreign_json_ok_def struct_json_ok_def) (simp add: demo_foreign_def demo_string_def)

definition demo_data :: ResourceClaimDeviceStatusData where
  "demo_data =
     \<lparr>sd_PodNetwork = Some \<lparr>pn_Kind = ''devicenetwork'', pn_Name = ''blue''\<rparr>,
      sd_DeviceConfiguration = Some \<lparr>dc_Name = ''bridge'', dc_DeviceSelectors = [''ethernet''],
        dc_DeviceType = Some ''macvlan'', dc_Macvlan = Some \<lparr>Mode = Some ''bridge''\<rparr>, dc_HostDevice = None\<rparr>,
      sd_Device = Some \<lparr>hd_Kind = [], hd_APIVersion = [], hd_Name = ''eth0'',
        hd_Spec = \<lparr>InterfaceName = ''eth0'', InterfaceIndex = 2, RDMACapable = False, ParentIndex = 0,
          MasterIndex = 0, LinkLayerType = ''ether'', hs_DeviceType = ''device''\<rparr>\<rparr>\<rparr>"

lemma demo_data_text: "StatusData_ok demo_data" "StatusData_text demo_foreign demo_data"
  by (simp_all add: demo_data_def StatusData_ok_def Device_ok_def DeviceSpec_ok_def int_ok_def StatusData_text_def
      Configuration_text_def Device_text_def DeviceSpec_text_def valid_utf8_ascii demo_foreign_def small_def
      omit_nil_def omit_empty_def nesting.simps)

text \<open>The members of the demonstration in another order.\<close>

lemma status_data_is_read_back_witness:
  "\<exists>raw raw'. Marshal (status_json demo_foreign) demo_data = Inr raw \<and> raw' \<noteq> raw \<and>
     raw' = print_json (JObject (rev (StatusData_members demo_foreign demo_data))) \<and>
     Unmarshal (status_json demo_foreign) raw' = Inr demo_data"
proof -
  let ?ms = "StatusData_members demo_foreign demo_data"
  let ?raw = "print_json (enc_StatusData demo_foreign demo_data)" and ?raw' = "print_json (JObject (rev ?ms))"
  note written = StatusData_written [OF demo_data_text(2)]
  then have rev: "text_ok (JObject (rev ?ms))" "nesting (JObject (rev ?ms)) \<le> 10000"
    using nesting_le(1) [of _ 9999] by (auto simp: enc_StatusData_def list_all_iff)
  then have parse: "parse_json ?raw = Inr (JObject ?ms)" "parse_json ?raw' = Inr (JObject (rev ?ms))"
    using parse_print_json [OF written [THEN conjunct1] written [THEN conjunct2]] parse_print_json [OF rev]
    by (simp_all only: enc_StatusData_def)
  have "same_json (JObject ?ms) (JObject (rev ?ms))"
    by (rule same_object [OF same_members_refl]) simp
  with parse have same: "same_text ?raw ?raw'"
    unfolding same_text_def by blast
  have "hd ?ms \<noteq> last ?ms" "?ms \<noteq> []"
    by (simp_all add: StatusData_members_def demo_data_def demo_foreign_def omit_nil_def)
  then have "rev ?ms \<noteq> ?ms"
    by (metis hd_rev)
  with parse have "?raw' \<noteq> ?raw"
    by auto
  moreover have marshal: "Marshal (status_json demo_foreign) demo_data = Inr ?raw"
    by (simp add: status_json_def)
  moreover note status_data_is_read_back [OF demo_foreign_ok demo_data_text marshal same]
  ultimately show ?thesis
    by blast
qed

end
