(* ===== verification/Driver.thy ===== *)
theory Driver
  imports Registry Resolver Store StatusJson
begin

text \<open>
  The DRA driver, \<open>pkg/driver/driver.go\<close>: preparing the claims of a pod. For each device the claim was
  allocated it resolves the device, lets the configurator of its type allocate, and collects the
  status; the statuses of the claim are applied to the API server in one request, and the claim that
  comes back is stored for the pod. The API server is a parameter that answers a request from the
  earlier ones; \<open>meta.SetStatusCondition\<close> is a parameter too.
\<close>

record KubeletDevice =
  kd_Requests :: "string list"
  kd_PoolName :: string
  kd_DeviceName :: string
  kd_ShareID :: "uid option"
  kd_Attributes :: "string \<rightharpoonup> DeviceAttribute"
  kd_NetworkData :: "NetworkDeviceData option"

text \<open>The apply configurations that \<open>driver.go\<close> builds; a condition's message is not among them.\<close>

record ConditionApply =
  ca_Type :: string
  ca_Reason :: string
  ca_Status :: string
  ca_LastTransitionTime :: nat

record AllocatedDeviceStatusApply =
  asa_Device :: string
  asa_Driver :: string
  asa_Pool :: string
  asa_ShareID :: "string option"
  asa_Data :: "RawExtension option"
  asa_NetworkData :: "NetworkDeviceData option"
  asa_Conditions :: "ConditionApply list"

record ApplyRequest =
  ap_Name :: string
  ap_Namespace :: string
  ap_Devices :: "AllocatedDeviceStatusApply list"
  ap_FieldManager :: string
  ap_Force :: bool

record driver_env =
  env_json :: json_lib
  env_SetStatusCondition :: "Condition list \<Rightarrow> Condition \<Rightarrow> Condition list"
  env_ApplyStatus :: "ApplyRequest list \<Rightarrow> ApplyRequest \<Rightarrow> liberr + ResourceClaim"

text \<open>
  The Kubernetes client and the store are shared with other parts of the program: the driver holds a
  pointer to each.
\<close>

type_synonym kube_client = nat

type_synonym store_ptr = nat

record Driver =
  d_podNetworkKind :: string
  driverName :: string
  d_kubeClient :: kube_client
  d_podResourceStore :: store_ptr
  deviceResolver :: "DeviceRequestAllocationResult \<Rightarrow> (ResolvedDevice option, resolver_error) res"
  d_deviceConfigurators :: "DeviceType \<rightharpoonup> Configurator"

record driver_state =
  podResourceStore :: Memory
  generator :: rand
  applied :: "ApplyRequest list"

datatype driver_error =
    ResolvedDeviceNil
  | AllocationResultNil
  | ExposedDeviceNil
  | ResolvedConfigurationNil
  | DeviceNetworkNil
  | FailedToMarshal liberr
  | NoConfigurator DeviceType
  | FailedToAllocate configurator_error
  | ExpectedOneReservation nat
  | AllocationNil
  | FailedToGetDevices resolver_error
  | FailedToAllocateDevice driver_error
  | DeviceNil
  | FailedToUpdateStatus liberr

section \<open>One device: allocateDevice\<close>

definition initial_status :: "DeviceRequestAllocationResult \<Rightarrow> AllocatedDeviceStatus" where
  "initial_status result =
     \<lparr>ads_Driver = rar_Driver result, ads_Pool = rar_Pool result, ads_Device = rar_Device result,
      ads_ShareID = rar_ShareID result, ads_Data = None,
      ads_NetworkData = Some empty_NetworkDeviceData, ads_Conditions = []\<rparr>"

definition status_data ::
  "Driver \<Rightarrow> DeviceNetwork \<Rightarrow> DeviceConfiguration \<Rightarrow> HostDevice option \<Rightarrow> ResourceClaimDeviceStatusData" where
  "status_data d dn dc host =
     \<lparr>sd_PodNetwork = Some \<lparr>pn_Kind = d_podNetworkKind d, pn_Name = dn_Name dn\<rparr>,
      sd_DeviceConfiguration = Some dc, sd_Device = host\<rparr>"

definition allocated_condition :: Condition where
  "allocated_condition =
     \<lparr>cond_Type = DeviceStatusConditionAllocation, cond_Status = ''True'',
      cond_Reason = DeviceStatusReasonAllocated,
      cond_Message = ''Device has been successfully allocated'', cond_LastTransitionTime = 0\<rparr>"

definition kubelet_device ::
  "DeviceRequestAllocationResult \<Rightarrow> KubeDevice \<Rightarrow> AllocatedDeviceStatus \<Rightarrow> KubeletDevice" where
  "kubelet_device result exposed st =
     \<lparr>kd_Requests = [rar_Request result], kd_PoolName = rar_Pool result, kd_DeviceName = rar_Device result,
      kd_ShareID = rar_ShareID result,
      kd_Attributes = (case Attributes exposed of None \<Rightarrow> Map.empty | Some m \<Rightarrow> m),
      kd_NetworkData = ads_NetworkData st\<rparr>"

definition status_apply :: "AllocatedDeviceStatus \<Rightarrow> AllocatedDeviceStatusApply" where
  "status_apply st =
     \<lparr>asa_Device = ads_Device st, asa_Driver = ads_Driver st, asa_Pool = ads_Pool st,
      asa_ShareID = ads_ShareID st, asa_Data = ads_Data st,
      asa_NetworkData = ads_NetworkData st,
      asa_Conditions = map (\<lambda>c. \<lparr>ca_Type = cond_Type c, ca_Reason = cond_Reason c,
         ca_Status = cond_Status c, ca_LastTransitionTime = cond_LastTransitionTime c\<rparr>) (ads_Conditions st)\<rparr>"

definition allocateDevice ::
  "driver_env \<Rightarrow> Driver \<Rightarrow> ResolvedDevice option \<Rightarrow> rand \<Rightarrow>
   (KubeletDevice option \<times> AllocatedDeviceStatusApply option, driver_error) res \<times> rand" where
  "allocateDevice env d resolvedDevice r =
     (case resolvedDevice of
        None \<Rightarrow> (Err ResolvedDeviceNil, r)
      | Some rd \<Rightarrow>
     (case rd_DeviceRequestAllocationResult rd of
        None \<Rightarrow> (Err AllocationResultNil, r)
      | Some result \<Rightarrow>
     (case rd_ExposedDevice rd of
        None \<Rightarrow> (Err ExposedDeviceNil, r)
      | Some exposed \<Rightarrow>
     (case rd_DeviceConfiguration rd of
        None \<Rightarrow> (Err ResolvedConfigurationNil, r)
      | Some dc \<Rightarrow>
     (case rd_DeviceNetwork rd of
        None \<Rightarrow> (Err DeviceNetworkNil, r)
      | Some dn \<Rightarrow>
     (case Marshal (env_json env) (status_data d dn dc (rd_HostDevice rd)) of
        Inl e \<Rightarrow> (Err (FailedToMarshal e), r)
      | Inr resultBytes \<Rightarrow>
     (let st = (initial_status result)\<lparr>ads_Data := Some \<lparr>Raw = Some resultBytes\<rparr>\<rparr>;
          deviceType = GetDeviceType dc
      in case d_deviceConfigurators d deviceType of
        None \<Rightarrow> (Err (NoConfigurator deviceType), r)
      | Some configurator \<Rightarrow>
     (case Allocate configurator (rd_HostDevice rd) (Some dc)
             (Some (spec_NetworkInterfaceConfiguration (Spec dn))) (Some st) r of
        (Err e, r') \<Rightarrow> (Err (FailedToAllocate e), r')
      | (Panic, r') \<Rightarrow> (Panic, r')
      | (Diverge, r') \<Rightarrow> (Diverge, r')
      | (Ok None, r') \<Rightarrow> (Panic, r')
      | (Ok (Some allocated), r') \<Rightarrow>
          (let st' = allocated\<lparr>ads_Conditions := env_SetStatusCondition env [] allocated_condition\<rparr>
           in (Ok (Some (kubelet_device result exposed st'), Some (status_apply st')), r'))))))))))"

section \<open>One claim: nodePrepareResource\<close>

fun allocate_results ::
  "driver_env \<Rightarrow> Driver \<Rightarrow> DeviceRequestAllocationResult list \<Rightarrow>
   KubeletDevice list \<times> AllocatedDeviceStatusApply list \<Rightarrow> rand \<Rightarrow>
   (KubeletDevice list \<times> AllocatedDeviceStatusApply list, driver_error) res \<times> rand" where
  "allocate_results env d [] acc r = (Ok acc, r)"
| "allocate_results env d (result # rest) acc r =
     (if rar_Driver result \<noteq> driverName d then allocate_results env d rest acc r
      else (case deviceResolver d result of
              Err e \<Rightarrow> (Err (FailedToGetDevices e), r)
            | Panic \<Rightarrow> (Panic, r)
            | Diverge \<Rightarrow> (Diverge, r)
            | Ok resolvedDevice \<Rightarrow>
                (case allocateDevice env d resolvedDevice r of
                   (Err e, r') \<Rightarrow> (Err (FailedToAllocateDevice e), r')
                 | (Panic, r') \<Rightarrow> (Panic, r')
                 | (Diverge, r') \<Rightarrow> (Diverge, r')
                 | (Ok (None, _), r') \<Rightarrow> (Err DeviceNil, r')
                 | (Ok (Some device, allocatedDeviceStatus), r') \<Rightarrow>
                     allocate_results env d rest
                       (fst acc @ [device],
                        snd acc @ (case allocatedDeviceStatus of None \<Rightarrow> [] | Some s \<Rightarrow> [s])) r')))"

definition apply_request :: "Driver \<Rightarrow> ResourceClaim \<Rightarrow> AllocatedDeviceStatusApply list \<Rightarrow> ApplyRequest" where
  "apply_request d claim statusUpdates =
     \<lparr>ap_Name = rc_Name claim, ap_Namespace = rc_Namespace claim, ap_Devices = statusUpdates,
      ap_FieldManager = driverName d, ap_Force = True\<rparr>"

definition nodePrepareResource ::
  "driver_env \<Rightarrow> Driver \<Rightarrow> ResourceClaim \<Rightarrow> driver_state \<Rightarrow>
   (KubeletDevice list, driver_error) res \<times> driver_state" where
  "nodePrepareResource env d claim s =
     (if length (ReservedFor claim) \<noteq> 1 then (Err (ExpectedOneReservation (length (ReservedFor claim))), s)
      else (case Allocation claim of
              None \<Rightarrow> (Err AllocationNil, s)
            | Some results \<Rightarrow>
                (case allocate_results env d results ([], []) (generator s) of
                   (Err e, r) \<Rightarrow> (Err e, s\<lparr>generator := r\<rparr>)
                 | (Panic, r) \<Rightarrow> (Panic, s\<lparr>generator := r\<rparr>)
                 | (Diverge, r) \<Rightarrow> (Diverge, s\<lparr>generator := r\<rparr>)
                 | (Ok (devices, statusUpdates), r) \<Rightarrow>
                     (let request = apply_request d claim statusUpdates;
                          s1 = s\<lparr>generator := r, applied := applied s @ [request]\<rparr>
                      in case env_ApplyStatus env (applied s) request of
                           Inl e \<Rightarrow> (Err (FailedToUpdateStatus e), s1)
                         | Inr updatedResourceClaim \<Rightarrow>
                             (case ReservedFor updatedResourceClaim of
                                [] \<Rightarrow> (Panic, s1)
                              | podUID # _ \<Rightarrow>
                                  (Ok devices, s1\<lparr>podResourceStore :=
                                     Memory_Add podUID updatedResourceClaim (podResourceStore s1)\<rparr>))))))"

section \<open>All claims\<close>

datatype PrepareResult = PreparedDevices "KubeletDevice list" | PrepareErr driver_error

fun PrepareResourceClaims ::
  "driver_env \<Rightarrow> Driver \<Rightarrow> ResourceClaim list \<Rightarrow> (uid \<rightharpoonup> PrepareResult) \<Rightarrow> driver_state \<Rightarrow>
   (uid \<rightharpoonup> PrepareResult, driver_error) res \<times> driver_state" where
  "PrepareResourceClaims env d [] result s = (Ok result, s)"
| "PrepareResourceClaims env d (claim # rest) result s =
     (case nodePrepareResource env d claim s of
        (Ok devices, s') \<Rightarrow>
          PrepareResourceClaims env d rest (result(rc_UID claim \<mapsto> PreparedDevices devices)) s'
      | (Err e, s') \<Rightarrow> PrepareResourceClaims env d rest (result(rc_UID claim \<mapsto> PrepareErr e)) s'
      | (Panic, s') \<Rightarrow> (Panic, s')
      | (Diverge, s') \<Rightarrow> (Diverge, s'))"

definition nodeUnprepareResource :: "uid \<Rightarrow> driver_state \<Rightarrow> liberr option \<times> driver_state" where
  "nodeUnprepareResource claimUID s = (None, s)"

fun UnprepareResourceClaims ::
  "uid list \<Rightarrow> (uid \<rightharpoonup> liberr option) \<Rightarrow> driver_state \<Rightarrow> (uid \<rightharpoonup> liberr option) \<times> driver_state" where
  "UnprepareResourceClaims [] result s = (result, s)"
| "UnprepareResourceClaims (claim # rest) result s =
     (let (err, s') = nodeUnprepareResource claim s
      in UnprepareResourceClaims rest (result(claim \<mapsto> err)) s')"

text \<open>The resolver of the program behind the interface.\<close>

definition run_deviceResolver ::
  "multinetwork_api \<Rightarrow> device_id \<Rightarrow> Resolver \<Rightarrow> DeviceRequestAllocationResult \<Rightarrow>
   (ResolvedDevice option, resolver_error) res" where
  "run_deviceResolver mn ids r result =
     (case GetDevice mn ids r result of
        Ok rd \<Rightarrow> Ok (Some rd)
      | Err e \<Rightarrow> Err e
      | Panic \<Rightarrow> Panic
      | Diverge \<Rightarrow> Diverge)"

section \<open>What a prepared device is\<close>

text \<open>The parts by which the kubelet and the API server tell allocated devices apart.\<close>

definition result_key :: "DeviceRequestAllocationResult \<Rightarrow> string \<times> string \<times> uid option" where
  "result_key result = (rar_Pool result, rar_Device result, rar_ShareID result)"

definition kubelet_key :: "KubeletDevice \<Rightarrow> string \<times> string \<times> uid option" where
  "kubelet_key kd = (kd_PoolName kd, kd_DeviceName kd, kd_ShareID kd)"

definition apply_key :: "AllocatedDeviceStatusApply \<Rightarrow> string \<times> string \<times> uid option" where
  "apply_key a = (asa_Pool a, asa_Device a, asa_ShareID a)"

text \<open>The device and the status that answer one allocation result.\<close>

definition answers ::
  "driver_env \<Rightarrow> Driver \<Rightarrow> DeviceRequestAllocationResult \<Rightarrow> KubeletDevice \<Rightarrow>
   AllocatedDeviceStatusApply \<Rightarrow> bool" where
  "answers env d result kd a \<longleftrightarrow>
     kubelet_key kd = result_key result \<and> apply_key a = result_key result \<and>
     asa_Driver a = rar_Driver result \<and> kd_Requests kd = [rar_Request result] \<and>
     kd_NetworkData kd = asa_NetworkData a \<and> asa_NetworkData a \<noteq> None \<and>
     (\<exists>rd dn dc raw. deviceResolver d result = Ok (Some rd) \<and> rd_DeviceNetwork rd = Some dn \<and>
        rd_DeviceConfiguration rd = Some dc \<and> d_deviceConfigurators d (GetDeviceType dc) \<noteq> None \<and>
        Marshal (env_json env) (status_data d dn dc (rd_HostDevice rd)) = Inr raw \<and>
        asa_Data a = Some \<lparr>Raw = Some raw\<rparr>)"

text \<open>The resolver puts its question into its answer.\<close>

definition resolver_echoes :: "Driver \<Rightarrow> bool" where
  "resolver_echoes d \<longleftrightarrow>
     (\<forall>result rd. deviceResolver d result = Ok (Some rd) \<longrightarrow>
        rd_DeviceRequestAllocationResult rd = Some result)"

lemma run_deviceResolver_echoes:
  "deviceResolver d = run_deviceResolver mn ids r \<Longrightarrow> resolver_echoes d"
  by (auto simp: resolver_echoes_def run_deviceResolver_def dest!: resolver.complete split: res.splits)

context configurator_registry
begin

lemma allocateDevice_answers:
  assumes "d_deviceConfigurators d = configurators" and "resolver_echoes d"
    and "deviceResolver d result = Ok rdo" and "allocateDevice env d rdo r = (Ok (kdo, ao), r')"
  shows "\<exists>kd a. kdo = Some kd \<and> ao = Some a \<and> answers env d result kd a"
proof -
  from assms(4) obtain rd where rdo: "rdo = Some rd"
    by (auto simp: allocateDevice_def split: option.splits)
  with assms(2,3) have res: "rd_DeviceRequestAllocationResult rd = Some result"
    by (auto simp: resolver_echoes_def)
  let ?st = "\<lambda>raw. (initial_status result)\<lparr>ads_Data := Some \<lparr>Raw = Some raw\<rparr>\<rparr>"
  from assms(4) rdo res obtain exposed dc dn raw c st where
    f: "rd_ExposedDevice rd = Some exposed" "rd_DeviceConfiguration rd = Some dc"
      "rd_DeviceNetwork rd = Some dn"
      "Marshal (env_json env) (status_data d dn dc (rd_HostDevice rd)) = Inr raw"
      "d_deviceConfigurators d (GetDeviceType dc) = Some c"
      "fst (Allocate c (rd_HostDevice rd) (Some dc)
         (Some (spec_NetworkInterfaceConfiguration (Spec dn))) (Some (?st raw)) r) = Ok (Some st)"
    and out: "kdo = Some (kubelet_device result exposed (st\<lparr>ads_Conditions := env_SetStatusCondition env [] allocated_condition\<rparr>))"
      "ao = Some (status_apply (st\<lparr>ads_Conditions := env_SetStatusCondition env [] allocated_condition\<rparr>))"
    by (auto simp: allocateDevice_def Let_def split: option.splits sum.splits prod.splits res.splits)
  from f(5) assms(1) have "configurators (GetDeviceType dc) = Some c"
    by simp
  from registered_allocate_frame [OF this f(6)]
  have st: "same_identity st (?st raw)" "ads_NetworkData st \<noteq> None"
    by auto
  from assms(3) rdo have get: "deviceResolver d result = Ok (Some rd)"
    by simp
  have data: "ads_Data st = Some \<lparr>Raw = Some raw\<rparr>"
    using st(1) by (simp add: same_identity_def)
  have "\<exists>rd dn dc raw. deviceResolver d result = Ok (Some rd) \<and> rd_DeviceNetwork rd = Some dn \<and>
        rd_DeviceConfiguration rd = Some dc \<and> d_deviceConfigurators d (GetDeviceType dc) \<noteq> None \<and>
        Marshal (env_json env) (status_data d dn dc (rd_HostDevice rd)) = Inr raw \<and>
        ads_Data st = Some \<lparr>Raw = Some raw\<rparr>"
    using get f(2-5) data by (intro exI conjI) auto
  with st out show ?thesis
    by (simp add: answers_def kubelet_key_def apply_key_def result_key_def kubelet_device_def
        status_apply_def same_identity_def initial_status_def)
qed

lemma allocate_results_answers:
  assumes "d_deviceConfigurators d = configurators" and "resolver_echoes d"
  shows "allocate_results env d results acc r = (Ok (devices, statuses), r') \<Longrightarrow>
    \<exists>new new_statuses. devices = fst acc @ new \<and> statuses = snd acc @ new_statuses \<and>
      length new = length (filter (\<lambda>x. rar_Driver x = driverName d) results) \<and>
      length new_statuses = length new \<and>
      (\<forall>i < length new. answers env d (filter (\<lambda>x. rar_Driver x = driverName d) results ! i)
         (new ! i) (new_statuses ! i))"
proof (induction results arbitrary: acc r)
  case Nil
  then show ?case
    by (auto intro!: exI [of _ "[]"])
next
  case (Cons result rest)
  show ?case
  proof (cases "rar_Driver result = driverName d")
    case False
    with Cons show ?thesis
      by simp
  next
    case True
    with Cons.prems obtain rdo kd ao r1 where get: "deviceResolver d result = Ok rdo"
      and al: "allocateDevice env d rdo r = (Ok (Some kd, ao), r1)"
      and go: "allocate_results env d rest (fst acc @ [kd], snd acc @ (case ao of None \<Rightarrow> [] | Some s \<Rightarrow> [s])) r1
        = (Ok (devices, statuses), r')"
      by (auto split: res.splits prod.splits option.splits)
    from allocateDevice_answers [OF assms get al] obtain a where
      ao: "ao = Some a" and ans: "answers env d result kd a"
      by auto
    from Cons.IH [OF go] ao obtain new new_statuses where
      n: "devices = (fst acc @ [kd]) @ new" "statuses = (snd acc @ [a]) @ new_statuses"
        "length new = length (filter (\<lambda>x. rar_Driver x = driverName d) rest)"
        "length new_statuses = length new"
        "\<forall>i < length new. answers env d (filter (\<lambda>x. rar_Driver x = driverName d) rest ! i)
           (new ! i) (new_statuses ! i)"
      by auto
    with True ans show ?thesis
      by (intro exI [of _ "kd # new"] exI [of _ "a # new_statuses"])
        (auto simp: less_Suc_eq_0_disj)
  qed
qed

end


definition prepared ::
  "driver_env \<Rightarrow> Driver \<Rightarrow> ResourceClaim \<Rightarrow> driver_state \<Rightarrow> KubeletDevice list \<Rightarrow> driver_state \<Rightarrow> bool" where
  "prepared env d claim s devices s' \<longleftrightarrow>
     (\<exists>results own statuses updated podUID more.
        Allocation claim = Some results \<and> own = filter (\<lambda>x. rar_Driver x = driverName d) results \<and>
        length devices = length own \<and> length statuses = length own \<and>
        (\<forall>i < length own. answers env d (own ! i) (devices ! i) (statuses ! i)) \<and>
        env_ApplyStatus env (applied s) (apply_request d claim statuses) = Inr updated \<and>
        ReservedFor updated = podUID # more \<and>
        applied s' = applied s @ [apply_request d claim statuses] \<and>
        podResourceStore s' = Memory_Add podUID updated (podResourceStore s))"

lemma nodePrepareResource_prepared:
  assumes "d_deviceConfigurators d = deviceConfigurators json k" and "resolver_echoes d"
    and "nodePrepareResource env d claim s = (Ok devices, s')"
  shows "prepared env d claim s devices s'"
proof -
  from assms(3) obtain results statuses r updated podUID more where
    f: "Allocation claim = Some results"
      "allocate_results env d results ([], []) (generator s) = (Ok (devices, statuses), r)"
      "env_ApplyStatus env (applied s) (apply_request d claim statuses) = Inr updated"
      "ReservedFor updated = podUID # more"
      "applied s' = applied s @ [apply_request d claim statuses]"
      "podResourceStore s' = Memory_Add podUID updated (podResourceStore s)"
    by (auto simp: nodePrepareResource_def Let_def
        split: if_splits option.splits prod.splits res.splits sum.splits list.splits)
  from run_configurators.allocate_results_answers [OF assms(1,2) f(2)] f show ?thesis
    by (auto simp: prepared_def)
qed

text \<open>
  C3: preparing a claim gives exactly one device for each allocation result of this driver, in their
  order, under the pool, name and share ID the scheduler chose, and one status with the same network
  data for each; the statuses went to the API server in one request, and the claim that came back is
  what is stored for the pod. A claim that fails changes the store in no way and applies at most one
  request.
\<close>

theorem nodePrepareResource_outcomes:
  assumes "d_deviceConfigurators d = deviceConfigurators json k" and "resolver_echoes d"
    and "nodePrepareResource env d claim s = (out, s')"
  shows "case out of
      Ok devices \<Rightarrow> prepared env d claim s devices s'
    | _ \<Rightarrow> podResourceStore s' = podResourceStore s \<and>
        (applied s' = applied s \<or> (\<exists>request. applied s' = applied s @ [request]))"
proof (cases out)
  case (Ok devices)
  with nodePrepareResource_prepared [OF assms(1,2)] assms(3) show ?thesis
    by simp
qed (use assms(3) in \<open>auto simp: nodePrepareResource_def Let_def
        split: if_splits option.splits prod.splits res.splits sum.splits list.splits\<close>)

section \<open>A driver for the demonstrations\<close>

text \<open>The status the API server keeps for an applied one.\<close>

definition kept_status :: "AllocatedDeviceStatusApply \<Rightarrow> AllocatedDeviceStatus" where
  "kept_status a =
     \<lparr>ads_Driver = asa_Driver a, ads_Pool = asa_Pool a, ads_Device = asa_Device a,
      ads_ShareID = asa_ShareID a, ads_Data = asa_Data a, ads_NetworkData = asa_NetworkData a,
      ads_Conditions = map (\<lambda>c. \<lparr>cond_Type = ca_Type c, cond_Status = ca_Status c,
        cond_Reason = ca_Reason c, cond_Message = '''', cond_LastTransitionTime = ca_LastTransitionTime c\<rparr>)
        (asa_Conditions a)\<rparr>"

definition demo_result :: DeviceRequestAllocationResult where
  "demo_result = \<lparr>rar_Request = ''nic'', rar_Driver = ''devicenetwork.io'', rar_Pool = ''node-a'',
     rar_Device = ''blue-hostdev-eth0'', rar_ShareID = None\<rparr>"

definition demo_claim :: ResourceClaim where
  "demo_claim = \<lparr>rc_Name = ''claim'', rc_Namespace = ''default'', rc_UID = ''uid-1'',
     ReservedFor = [''pod-1''],
     Allocation = Some [demo_result, demo_result\<lparr>rar_Driver := ''gpu.example.com''\<rparr>], rc_Devices = []\<rparr>"

text \<open>The claim as the API server answers with it: the driver of the other device has written its status too.\<close>

definition demo_gpu_status :: AllocatedDeviceStatus where
  "demo_gpu_status = \<lparr>ads_Driver = ''gpu.example.com'', ads_Pool = ''node-a'', ads_Device = ''gpu-0'', ads_ShareID = None,
     ads_Data = None, ads_NetworkData = None, ads_Conditions = []\<rparr>"

definition demo_answer :: "AllocatedDeviceStatusApply list \<Rightarrow> ResourceClaim" where
  "demo_answer statuses = demo_claim\<lparr>rc_Devices := demo_gpu_status # map kept_status statuses\<rparr>"

lemma demo_answer_simps [simp]:
  "ReservedFor (demo_answer statuses) = [''pod-1'']" "rc_UID (demo_answer statuses) = ''uid-1''"
  "rc_Name (demo_answer statuses) = ''claim''"
  "rc_Devices (demo_answer statuses) = demo_gpu_status # map kept_status statuses"
  by (simp_all add: demo_answer_def demo_claim_def)

definition demo_driver_env :: driver_env where
  "demo_driver_env =
     \<lparr>env_json = status_json demo_foreign,
      env_SetStatusCondition = (\<lambda>cs c. cs @ [c\<lparr>cond_LastTransitionTime := 17\<rparr>]),
      env_ApplyStatus = (\<lambda>past request. Inr (demo_answer (ap_Devices request)))\<rparr>"

definition demo_dn :: DeviceNetwork where
  "demo_dn = \<lparr>dn_Name = ''blue'', Spec = \<lparr>DeviceSelectors = [], DeviceConfigurations = [demo_hostdev_config],
     spec_NetworkInterfaceConfiguration = \<lparr>nic_IPAM = []\<rparr>\<rparr>\<rparr>"

definition demo_driver :: Driver where
  "demo_driver =
     \<lparr>d_podNetworkKind = ''devicenetwork-io-devicenetwork'', driverName = ''devicenetwork.io'',
      d_kubeClient = 0, d_podResourceStore = 0,
      deviceResolver = (\<lambda>result. Ok (Some
        \<lparr>rd_DeviceRequestAllocationResult = Some result, rd_DeviceNetwork = Some demo_dn,
         rd_DeviceConfiguration = Some demo_hostdev_config, rd_ExposedDevice = Some empty_KubeDevice,
         rd_HostDevice = Some demo_host\<rparr>)),
      d_deviceConfigurators = deviceConfigurators (status_json demo_foreign) pod_kernel\<rparr>"

definition empty_driver_state :: driver_state where
  "empty_driver_state = \<lparr>podResourceStore = NewMemory, generator = (\<lambda>n. 0), applied = []\<rparr>"

lemma demo_driver_echoes: "resolver_echoes demo_driver"
  by (auto simp: resolver_echoes_def demo_driver_def)

lemma demo_allocateDevice:
  "\<exists>kd a. allocateDevice demo_driver_env demo_driver
     (Some \<lparr>rd_DeviceRequestAllocationResult = Some demo_result, rd_DeviceNetwork = Some demo_dn,
        rd_DeviceConfiguration = Some demo_hostdev_config, rd_ExposedDevice = Some empty_KubeDevice,
        rd_HostDevice = Some demo_host\<rparr>) r = (Ok (Some kd, Some a), r)"
proof -
  have data: "status_data demo_driver demo_dn demo_hostdev_config (Some demo_host) = demo_status_data demo_hostdev_config"
    by (simp add: status_data_def demo_driver_def demo_dn_def demo_status_data_def)
  obtain raw where json: "Marshal (env_json demo_driver_env) (demo_status_data demo_hostdev_config) = Inr raw"
    by (simp add: demo_driver_env_def status_json_def)
  have c: "d_deviceConfigurators demo_driver (GetDeviceType demo_hostdev_config) =
      Some (HostDevice_Configurator (status_json demo_foreign) pod_kernel run_HostDevice)"
    by (simp add: demo_driver_def GetDeviceType_def demo_hostdev_config_def)
  have nic: "spec_NetworkInterfaceConfiguration (Spec demo_dn) = \<lparr>nic_IPAM = []\<rparr>"
    by (simp add: demo_dn_def)
  show ?thesis
    by (simp add: allocateDevice_def data json c nic HostDevice_Configurator_def HostDevice_Allocate_def
        run_HostDevice_def allocate_common_def Common_Allocate_def initial_status_def
        empty_NetworkDeviceData_def Let_def)
qed

text \<open>Both preparations of the demonstration claim succeed, and the second finds the first stored.\<close>

lemma demo_prepare:
  "\<exists>kd a. nodePrepareResource demo_driver_env demo_driver demo_claim s =
     (Ok [kd], s\<lparr>applied := applied s @ [apply_request demo_driver demo_claim [a]],
        podResourceStore := Memory_Add ''pod-1'' (demo_answer [a]) (podResourceStore s)\<rparr>)"
proof -
  let ?rd = "\<lparr>rd_DeviceRequestAllocationResult = Some demo_result, rd_DeviceNetwork = Some demo_dn,
      rd_DeviceConfiguration = Some demo_hostdev_config, rd_ExposedDevice = Some empty_KubeDevice,
      rd_HostDevice = Some demo_host\<rparr>"
  obtain kd a where one: "allocateDevice demo_driver_env demo_driver (Some ?rd) (generator s) =
      (Ok (Some kd, Some a), generator s)"
    using demo_allocateDevice [of "generator s"] by blast
  have get: "deviceResolver demo_driver demo_result = Ok (Some ?rd)"
    by (simp add: demo_driver_def)
  have own: "rar_Driver demo_result = driverName demo_driver"
    "rar_Driver (demo_result\<lparr>rar_Driver := ''gpu.example.com''\<rparr>) \<noteq> driverName demo_driver"
    by (simp_all add: demo_result_def demo_driver_def)
  have claim: "length (ReservedFor demo_claim) = 1"
    "Allocation demo_claim = Some [demo_result, demo_result\<lparr>rar_Driver := ''gpu.example.com''\<rparr>]"
    by (simp_all add: demo_claim_def)
  have "allocate_results demo_driver_env demo_driver
      [demo_result, demo_result\<lparr>rar_Driver := ''gpu.example.com''\<rparr>] ([], []) (generator s) =
      (Ok ([kd], [a]), generator s)"
    using own by (simp add: get one)
  with claim show ?thesis
    by (intro exI [of _ kd] exI [of _ a])
      (simp add: nodePrepareResource_def Let_def demo_driver_env_def apply_request_def demo_claim_def)
qed

lemma nodePrepareResource_outcomes_witness:
  "\<exists>kd s'. prepared demo_driver_env demo_driver demo_claim empty_driver_state [kd] s' \<and>
     length (Memory_Get ''pod-1'' (podResourceStore s')) = 1"
proof -
  obtain kd a where run: "nodePrepareResource demo_driver_env demo_driver demo_claim empty_driver_state =
      (Ok [kd], empty_driver_state\<lparr>applied := applied empty_driver_state @ [apply_request demo_driver demo_claim [a]],
         podResourceStore := Memory_Add ''pod-1'' (demo_answer [a])
           (podResourceStore empty_driver_state)\<rparr>)" (is "_ = (_, ?s1)")
    using demo_prepare by blast
  have "d_deviceConfigurators demo_driver = deviceConfigurators (status_json demo_foreign) pod_kernel"
    by (simp add: demo_driver_def)
  from nodePrepareResource_outcomes [OF this demo_driver_echoes run]
  have "prepared demo_driver_env demo_driver demo_claim empty_driver_state [kd] ?s1"
    by simp
  moreover have "length (Memory_Get ''pod-1'' (podResourceStore ?s1)) = 1"
    by (simp add: memory.get_add empty_driver_state_def memory.get_empty)
  ultimately show ?thesis
    by blast
qed

section \<open>All claims of a call\<close>

text \<open>
  One claim's failure does not stop the others. A call that returns answers every claim it was
  given and no other, each with what its own preparation gave: after the claims before it, and not
  undone by those after it.
\<close>

theorem PrepareResourceClaims_answers_each:
  assumes "PrepareResourceClaims env d (pre @ claim # post) Map.empty s = (out, s')"
    and "out \<noteq> Panic" and "out \<noteq> Diverge" and "rc_UID claim \<notin> rc_UID ` set post"
  shows "\<exists>m. out = Ok m \<and> dom m = rc_UID ` set (pre @ claim # post) \<and>
    (\<exists>m1 s1. PrepareResourceClaims env d pre Map.empty s = (Ok m1, s1) \<and>
       m (rc_UID claim) = Some (case fst (nodePrepareResource env d claim s1) of
         Ok devices \<Rightarrow> PreparedDevices devices | Err e \<Rightarrow> PrepareErr e))"
proof -
  have dom: "PrepareResourceClaims env d claims m s = (Ok m', s') \<Longrightarrow> dom m' = dom m \<union> rc_UID ` set claims"
    for claims m s m' s'
    by (induction claims arbitrary: m s) (auto split: prod.splits res.splits)
  have noerr: "fst (PrepareResourceClaims env d claims m s) \<noteq> Err e" for claims m s e
    by (induction claims arbitrary: m s) (auto split: prod.splits res.splits)
  have keep: "PrepareResourceClaims env d claims m s = (Ok m', s') \<Longrightarrow> u \<notin> rc_UID ` set claims \<Longrightarrow> m' u = m u"
    for claims m s m' s' u
    by (induction claims arbitrary: m s) (auto split: prod.splits res.splits)
  have app: "PrepareResourceClaims env d (xs @ ys) m s =
      (case PrepareResourceClaims env d xs m s of
         (Ok m1, s1) \<Rightarrow> PrepareResourceClaims env d ys m1 s1 | r \<Rightarrow> r)" for xs ys m s
    by (induction xs arbitrary: m s) (auto split: prod.splits res.splits)
  from assms(1-3) noerr obtain m where m: "out = Ok m"
    by (cases out) (metis fst_conv)+
  from assms(1) m obtain m1 s1 where
    pre: "PrepareResourceClaims env d pre Map.empty s = (Ok m1, s1)" and
    go: "PrepareResourceClaims env d (claim # post) m1 s1 = (Ok m, s')"
    by (auto simp: app split: prod.splits res.splits)
  obtain out1 s2 where one: "nodePrepareResource env d claim s1 = (out1, s2)"
    by fastforce
  let ?v = "case out1 of Ok devices \<Rightarrow> PreparedDevices devices | Err e \<Rightarrow> PrepareErr e"
  from go one have "PrepareResourceClaims env d post (m1(rc_UID claim \<mapsto> ?v)) s2 = (Ok m, s')"
    by (auto split: res.splits)
  from keep [OF this assms(4)] have "m (rc_UID claim) = Some ?v"
    by simp
  with m pre one dom [OF assms(1) [unfolded m]] show ?thesis
    by simp
qed

lemma PrepareResourceClaims_answers_each_witness:
  "\<exists>m s' e kd. PrepareResourceClaims demo_driver_env demo_driver
       [demo_claim\<lparr>rc_UID := ''uid-0'', ReservedFor := []\<rparr>, demo_claim] Map.empty empty_driver_state = (Ok m, s') \<and>
     dom m = {''uid-0'', ''uid-1''} \<and> m ''uid-0'' = Some (PrepareErr e) \<and> m ''uid-1'' = Some (PreparedDevices [kd])"
proof -
  let ?bad = "demo_claim\<lparr>rc_UID := ''uid-0'', ReservedFor := []\<rparr>"
  obtain kd a where good: "\<exists>s'. nodePrepareResource demo_driver_env demo_driver demo_claim empty_driver_state = (Ok [kd], s')"
    using demo_prepare [of empty_driver_state] by blast
  have bad: "nodePrepareResource demo_driver_env demo_driver ?bad s = (Err (ExpectedOneReservation 0), s)" for s
    by (simp add: nodePrepareResource_def)
  have u: "rc_UID demo_claim = ''uid-1''"
    by (simp add: demo_claim_def)
  obtain m s' where run: "PrepareResourceClaims demo_driver_env demo_driver ([?bad] @ demo_claim # [])
      Map.empty empty_driver_state = (Ok m, s')"
    using good bad by auto
  from PrepareResourceClaims_answers_each [OF run] good bad run show ?thesis
    by (auto simp: u)
qed

section \<open>Preparing a claim again\<close>

text \<open>
  A claim that is prepared again for its pod is applied to the API server again, with whatever was
  drawn this time, but the store keeps the claim of the first time: from then on the store, which the
  NRI plugin configures the pod from, and the API server may differ.
\<close>

theorem prepared_again_is_not_stored:
  assumes "nodePrepareResource env d claim s = (Ok devices, s')"
    and "env_ApplyStatus env (applied s) (last (applied s')) = Inr updated"
    and "ReservedFor updated = podUID # others"
    and "first \<in> set (Memory_Get podUID (podResourceStore s))" and "rc_UID first = rc_UID updated"
  shows "applied s' = applied s @ [last (applied s')] \<and>
    Memory_Get pod (podResourceStore s') = Memory_Get pod (podResourceStore s)"
proof -
  from assms(1-3) have "applied s' = applied s @ [last (applied s')]"
    and st: "podResourceStore s' = Memory_Add podUID updated (podResourceStore s)"
    by (auto simp: nodePrepareResource_def Let_def
        split: if_splits option.splits prod.splits res.splits sum.splits list.splits)
  moreover have "rc_UID updated \<in> rc_UID ` set (Memory_Get podUID (podResourceStore s))"
    using assms(4,5) by (metis image_eqI)
  ultimately show ?thesis
    by (simp add: memory.get_add)
qed

lemma prepared_again_is_not_stored_witness:
  "\<exists>kd s1 s2. nodePrepareResource demo_driver_env demo_driver demo_claim empty_driver_state = (Ok [kd], s1) \<and>
     nodePrepareResource demo_driver_env demo_driver demo_claim s1 = (Ok [kd], s2) \<and>
     length (applied s2) = 2 \<and>
     Memory_Get ''pod-1'' (podResourceStore s2) = Memory_Get ''pod-1'' (podResourceStore s1)"
proof -
  obtain kd a where one: "nodePrepareResource demo_driver_env demo_driver demo_claim empty_driver_state =
      (Ok [kd], empty_driver_state\<lparr>applied := applied empty_driver_state @ [apply_request demo_driver demo_claim [a]],
         podResourceStore := Memory_Add ''pod-1'' (demo_answer [a])
           (podResourceStore empty_driver_state)\<rparr>)" (is "_ = (_, ?s1)")
    using demo_prepare by blast
  obtain kd' b where two: "nodePrepareResource demo_driver_env demo_driver demo_claim ?s1 =
      (Ok [kd'], ?s1\<lparr>applied := applied ?s1 @ [apply_request demo_driver demo_claim [b]],
         podResourceStore := Memory_Add ''pod-1'' (demo_answer [b])
           (podResourceStore ?s1)\<rparr>)" (is "_ = (_, ?s2)")
    using demo_prepare by blast
  have kd: "kd' = kd"
  proof -
    have "generator ?s1 = generator empty_driver_state"
      by simp
    with one two show ?thesis
      by (auto simp: nodePrepareResource_def Let_def
          split: if_splits option.splits prod.splits res.splits sum.splits list.splits)
  qed
  have api: "env_ApplyStatus demo_driver_env (applied ?s1) (last (applied ?s2)) =
      Inr (demo_answer [b])"
    by (simp add: demo_driver_env_def apply_request_def)
  have pod: "ReservedFor (demo_answer [b]) = ''pod-1'' # []"
    by (simp add: demo_claim_def)
  have first: "demo_answer [a] \<in> set (Memory_Get ''pod-1'' (podResourceStore ?s1))"
    by (simp add: memory.get_add empty_driver_state_def memory.get_empty)
  have "Memory_Get ''pod-1'' (podResourceStore ?s2) = Memory_Get ''pod-1'' (podResourceStore ?s1)"
    using prepared_again_is_not_stored [OF two api pod first, of "''pod-1''"] by simp
  moreover have "length (applied ?s2) = 2"
    by (simp add: empty_driver_state_def)
  ultimately show ?thesis
    using one two [unfolded kd] by blast
qed

end
