(* ===== verification/NriProcess.thy ===== *)
theory NriProcess
  imports Registry Store
begin

text \<open>
  The configuration of a pod's claims, \<open>pkg/nri/process.go\<close>. \<open>configureResourceClaim\<close> is a function;
  \<open>run\<close>, \<open>isDone\<close> and \<open>terminate\<close> share the fields \<open>done\<close> and \<open>cancel\<close> between two goroutines and
  are given as the atomic steps the mutex makes of them. The context that \<open>cancel\<close> cancels is not
  read by any configurator, so cancelling has no effect of its own.
\<close>

datatype nri_error =
    StatusDataNilFor string string string "string option"
  | FailedToUnmarshalStatus liberr
  | ConfigurationNilInStatus
  | NoConfiguratorFor DeviceType
  | FailedToConfigure configurator_error

section \<open>One claim\<close>

fun configure_devices ::
  "json_lib \<Rightarrow> (DeviceType \<rightharpoonup> Configurator) \<Rightarrow> string \<Rightarrow> string \<Rightarrow> string \<Rightarrow> AllocatedDeviceStatus list \<Rightarrow>
   khist \<Rightarrow> (unit, nri_error) res \<times> khist" where
  "configure_devices json configurators driver ns claimName [] h = (Ok (), h)"
| "configure_devices json configurators driver ns claimName (deviceStatus # rest) h =
     (if ads_Driver deviceStatus \<noteq> driver
      then configure_devices json configurators driver ns claimName rest h
      else
     (case ads_Data deviceStatus of
        None \<Rightarrow> (Err (StatusDataNilFor (ads_Pool deviceStatus) (ads_Device deviceStatus) claimName
                   (ads_ShareID deviceStatus)), h)
      | Some ext \<Rightarrow>
     (case Raw ext of
        None \<Rightarrow> (Err (StatusDataNilFor (ads_Pool deviceStatus) (ads_Device deviceStatus) claimName
                   (ads_ShareID deviceStatus)), h)
      | Some raw \<Rightarrow>
     (case Unmarshal json raw of
        Inl e \<Rightarrow> (Err (FailedToUnmarshalStatus e), h)
      | Inr sd \<Rightarrow>
     (case sd_DeviceConfiguration sd of
        None \<Rightarrow> (Err ConfigurationNilInStatus, h)
      | Some dc \<Rightarrow>
     (case configurators (GetDeviceType dc) of
        None \<Rightarrow> (Err (NoConfiguratorFor (GetDeviceType dc)), h)
      | Some configuration \<Rightarrow>
     (case Configure configuration ns (Some deviceStatus) h of
        (Err e, h') \<Rightarrow> (Err (FailedToConfigure e), h')
      | (Panic, h') \<Rightarrow> (Panic, h')
      | (Diverge, h') \<Rightarrow> (Diverge, h')
      | (Ok _, h') \<Rightarrow> configure_devices json configurators driver ns claimName rest h')))))))"

definition configureResourceClaim ::
  "json_lib \<Rightarrow> (DeviceType \<rightharpoonup> Configurator) \<Rightarrow> string \<Rightarrow> string \<Rightarrow> ResourceClaim \<Rightarrow> khist \<Rightarrow>
   (unit, nri_error) res \<times> khist" where
  "configureResourceClaim json configurators driver ns claim h =
     configure_devices json configurators driver ns (rc_Name claim) (rc_Devices claim) h"

text \<open>The configurator of the type that a status' data names.\<close>

definition status_configurator ::
  "json_lib \<Rightarrow> (DeviceType \<rightharpoonup> Configurator) \<Rightarrow> AllocatedDeviceStatus \<Rightarrow> Configurator option" where
  "status_configurator json configurators st =
     (case ads_Data st of
        None \<Rightarrow> None
      | Some ext \<Rightarrow>
          (case Raw ext of
             None \<Rightarrow> None
           | Some raw \<Rightarrow>
               (case Unmarshal json raw of
                  Inl e \<Rightarrow> None
                | Inr sd \<Rightarrow>
                    (case sd_DeviceConfiguration sd of
                       None \<Rightarrow> None
                     | Some dc \<Rightarrow> configurators (GetDeviceType dc)))))"

inductive configured ::
  "json_lib \<Rightarrow> (DeviceType \<rightharpoonup> Configurator) \<Rightarrow> string \<Rightarrow> AllocatedDeviceStatus list \<Rightarrow> khist \<Rightarrow> khist \<Rightarrow> bool"
  for json configurators ns where
  configured_none: "configured json configurators ns [] h h"
| configured_one: "status_configurator json configurators st = Some c \<Longrightarrow>
    Configure c ns (Some st) h = (Ok out, h1) \<Longrightarrow> configured json configurators ns sts h1 h2 \<Longrightarrow>
    configured json configurators ns (st # sts) h h2"

inductive_simps configured_Nil [simp]: "configured json configurators ns [] h h'"
inductive_simps configured_Cons: "configured json configurators ns (st # sts) h h'"

lemma configure_step:
  assumes "ads_Driver st = driver"
  shows "configure_devices json configurators driver ns name (st # sts) h = (Ok (), h2) \<longleftrightarrow>
    (\<exists>c out h1. status_configurator json configurators st = Some c \<and>
       Configure c ns (Some st) h = (Ok out, h1) \<and>
       configure_devices json configurators driver ns name sts h1 = (Ok (), h2))"
  using assms
  by (auto simp: status_configurator_def split: option.splits sum.splits prod.splits res.splits)

text \<open>
  A claim is configured without an error exactly when every device this driver allocated in it,
  in the order of the claim, was configured successfully by the configurator of its type; the devices
  of other drivers are left alone.
\<close>

theorem configureResourceClaim_succeeds_iff:
  "configureResourceClaim json configurators driver ns claim h = (Ok (), h') \<longleftrightarrow>
     configured json configurators ns (filter (\<lambda>st. ads_Driver st = driver) (rc_Devices claim)) h h'"
proof -
  have "configure_devices json configurators driver ns name sts h = (Ok (), h') \<longleftrightarrow>
      configured json configurators ns (filter (\<lambda>st. ads_Driver st = driver) sts) h h'" for name sts
  proof (induction sts arbitrary: h)
    case (Cons st sts)
    show ?case
    proof (cases "ads_Driver st = driver")
      case True
      then show ?thesis
        by (simp del: configure_devices.simps add: configure_step Cons.IH configured_Cons)
    next
      case False
      with Cons.IH show ?thesis
        by simp
    qed
  qed auto
  then show ?thesis
    by (simp add: configureResourceClaim_def)
qed

text \<open>With the registered configurators a claim never takes the program down, as long as the statuses of this
  driver have the network data that the driver writes into them.\<close>

lemma configureResourceClaim_returns:
  assumes "\<forall>st \<in> set (rc_Devices claim). ads_Driver st = driver \<longrightarrow> ads_NetworkData st \<noteq> None"
  shows "fst (configureResourceClaim json (deviceConfigurators json k) driver ns claim h) \<notin> {Panic, Diverge}"
proof -
  have "\<forall>st \<in> set sts. ads_Driver st = driver \<longrightarrow> ads_NetworkData st \<noteq> None \<Longrightarrow>
      fst (configure_devices json (deviceConfigurators json k) driver ns name sts h) \<notin> {Panic, Diverge}" for sts name
  proof (induction sts arbitrary: h)
    case (Cons st sts)
    have ret: False
      if "Configure c ns (Some st) h = (out, h')" "deviceConfigurators json k ty = Some c" "ads_Data st = Some ext"
        "ads_Driver st = driver" "out \<in> {Panic, Diverge}" for ty c ext out h'
      using registered_Configure_returns [OF that(2), of st ns h] that(1,3-5) Cons.prems by auto
    have "fst (configure_devices json (deviceConfigurators json k) driver ns name sts h') \<notin> {Panic, Diverge}" for h'
      using Cons.prems by (intro Cons.IH) simp
    then show ?case
      by (auto split: option.split sum.split prod.split res.split dest: ret)
  qed simp
  with assms show ?thesis
    by (simp add: configureResourceClaim_def)
qed

section \<open>One process\<close>

text \<open>
  The channel \<open>done\<close> is nil until \<open>run\<close> makes it. \<open>phase\<close> is where the goroutine is: not yet at its
  first statement, in the loop with the claims still to do, or past the close of the channel.
\<close>

datatype channel = NilChannel | OpenChannel | ClosedChannel

datatype phase = Spawned | Configuring "ResourceClaim list" | Closed | Finished

record configurationProcess =
  cp_pod :: uid
  podNetworkNamespace :: string
  claims :: "ResourceClaim list"
  cp_done :: channel
  cancel :: bool
  phase :: phase

definition newConfigurationProcess ::
  "uid \<Rightarrow> string \<Rightarrow> ResourceClaim list \<Rightarrow> configurationProcess" where
  "newConfigurationProcess pod ns resourceClaims =
     \<lparr>cp_pod = pod, podNetworkNamespace = ns, claims = resourceClaims, cp_done = NilChannel,
      cancel = False, phase = Spawned\<rparr>"

definition isDone :: "configurationProcess \<Rightarrow> bool" where
  "isDone cp = (case cp_done cp of NilChannel \<Rightarrow> True | OpenChannel \<Rightarrow> False | ClosedChannel \<Rightarrow> True)"

text \<open>\<open>terminate\<close>: under the mutex it takes \<open>cancel\<close>; then it waits, outside, while the channel is
  open.\<close>

definition terminate_begin :: "configurationProcess \<Rightarrow> configurationProcess" where
  "terminate_begin cp = cp\<lparr>cancel := False\<rparr>"

definition terminate_waits :: "configurationProcess \<Rightarrow> bool" where
  "terminate_waits cp \<longleftrightarrow> cp_done cp = OpenChannel"

text \<open>
  \<open>run\<close>, one step after the other: it terminates a previous run and publishes its own channel; it
  configures one claim, whatever comes of it; it closes the channel; it terminates itself, which
  cannot wait any more. A panic takes the whole program down: there is no step.
\<close>

definition run_step ::
  "json_lib \<Rightarrow> (DeviceType \<rightharpoonup> Configurator) \<Rightarrow> string \<Rightarrow> configurationProcess \<Rightarrow> khist \<Rightarrow>
   (configurationProcess \<times> khist) option" where
  "run_step json configurators driver cp h =
     (case phase cp of
        Spawned \<Rightarrow>
          if terminate_waits cp then None
          else Some ((terminate_begin cp)\<lparr>cancel := True, cp_done := OpenChannel,
                       phase := Configuring (claims cp)\<rparr>, h)
      | Configuring (claim # rest) \<Rightarrow>
          (case configureResourceClaim json configurators driver (podNetworkNamespace cp) claim h of
             (Ok _, h') \<Rightarrow> Some (cp\<lparr>phase := Configuring rest\<rparr>, h')
           | (Err _, h') \<Rightarrow> Some (cp\<lparr>phase := Configuring rest\<rparr>, h')
           | (Panic, h') \<Rightarrow> None
           | (Diverge, h') \<Rightarrow> None)
      | Configuring [] \<Rightarrow> Some (cp\<lparr>cp_done := ClosedChannel, phase := Closed\<rparr>, h)
      | Closed \<Rightarrow>
          if terminate_waits cp then None
          else Some ((terminate_begin cp)\<lparr>phase := Finished\<rparr>, h)
      | Finished \<Rightarrow> None)"

end
