(* ===== verification/NriPlugin.thy ===== *)
theory NriPlugin
  imports NriProcess
begin

text \<open>
  The NRI plugin, \<open>pkg/nri/plugin.go\<close>, with the goroutines of its configuration processes: a state
  machine over the handlers the runtime calls, one at a time, and the steps of the goroutines, in any
  interleaving. Between two handlers the driver may change the store. \<open>RemovePodSandbox\<close> may have to
  wait for a process while it holds the plugin's mutex: it is two steps, and no other handler runs
  in between.
\<close>

record LinuxNamespace =
  ns_Type :: string
  ns_Path :: string

record PodSandbox =
  pod_Uid :: uid
  pod_Name :: string
  pod_Namespace :: string
  pod_LinuxNamespaces :: "LinuxNamespace list"

datatype plugin_error =
    NoNetworkNamespace string string
  | NotConfigured string string

record Plugin =
  nri_store :: Memory
  processes :: "configurationProcess list"
  configurationProcesses :: "uid \<rightharpoonup> nat"
  removing :: "(uid \<times> nat) option"
  kernel_calls :: khist

definition NewPlugin :: "Memory \<Rightarrow> Plugin" where
  "NewPlugin m = \<lparr>nri_store = m, processes = [], configurationProcesses = Map.empty, removing = None,
     kernel_calls = []\<rparr>"

definition getNetworkNamespace :: "PodSandbox \<Rightarrow> string" where
  "getNetworkNamespace pod =
     (case find (\<lambda>namespace. ns_Type namespace = ''network'') (pod_LinuxNamespaces pod) of
        None \<Rightarrow> ''''
      | Some namespace \<Rightarrow> ns_Path namespace)"

text \<open>The goroutine of the new process is at its first statement.\<close>

definition RunPodSandbox :: "PodSandbox \<Rightarrow> Plugin \<Rightarrow> (unit, plugin_error) res \<times> Plugin" where
  "RunPodSandbox pod p =
     (let resourceClaims = Memory_Get (pod_Uid pod) (nri_store p) in
      if length resourceClaims = 0 then (Ok (), p)
      else (let ns = getNetworkNamespace pod in
            if ns = '''' then (Err (NoNetworkNamespace (pod_Name pod) (pod_Namespace pod)), p)
            else (Ok (), p\<lparr>processes := processes p @ [newConfigurationProcess (pod_Uid pod) ns resourceClaims],
                           configurationProcesses :=
                             (configurationProcesses p)(pod_Uid pod \<mapsto> length (processes p))\<rparr>)))"

definition StartContainer :: "PodSandbox \<Rightarrow> Plugin \<Rightarrow> (unit, plugin_error) res \<times> Plugin" where
  "StartContainer pod p =
     (case configurationProcesses p (pod_Uid pod) of
        None \<Rightarrow> (Ok (), p)
      | Some pid \<Rightarrow>
          if \<not> isDone (processes p ! pid)
          then (Err (NotConfigured (pod_Name pod) (pod_Namespace pod)), p)
          else (Ok (), p\<lparr>configurationProcesses := (configurationProcesses p)(pod_Uid pod := None)\<rparr>))"

text \<open>Up to the wait of \<open>terminate\<close>, and from there to the return.\<close>

definition RemovePodSandbox_begin :: "PodSandbox \<Rightarrow> Plugin \<Rightarrow> Plugin" where
  "RemovePodSandbox_begin pod p =
     (case configurationProcesses p (pod_Uid pod) of
        None \<Rightarrow> p
      | Some pid \<Rightarrow>
          p\<lparr>processes := (processes p)[pid := terminate_begin (processes p ! pid)],
            removing := Some (pod_Uid pod, pid)\<rparr>)"

definition RemovePodSandbox_end :: "Plugin \<Rightarrow> Plugin option" where
  "RemovePodSandbox_end p =
     (case removing p of
        None \<Rightarrow> None
      | Some (uid, pid) \<Rightarrow>
          if terminate_waits (processes p ! pid) then None
          else Some (p\<lparr>configurationProcesses := (configurationProcesses p)(uid := None), removing := None\<rparr>))"

section \<open>The steps\<close>

datatype nri_label =
    StoreChanged
  | PodRun uid
  | ContainerStarted uid
  | ContainerRefused uid
  | PodRemoveCalled uid
  | PodRemoved uid nat
  | ClaimConfigured nat ResourceClaim
  | RunAdvanced nat

definition run_label :: "nat \<Rightarrow> configurationProcess \<Rightarrow> nri_label" where
  "run_label pid cp =
     (case phase cp of Configuring (claim # rest) \<Rightarrow> ClaimConfigured pid claim | _ \<Rightarrow> RunAdvanced pid)"

inductive nri_step ::
  "json_lib \<Rightarrow> (DeviceType \<rightharpoonup> Configurator) \<Rightarrow> string \<Rightarrow> Plugin \<Rightarrow> nri_label \<Rightarrow> Plugin \<Rightarrow> bool"
  for json configurators driver where
  step_store: "nri_step json configurators driver p StoreChanged (p\<lparr>nri_store := m\<rparr>)"
| step_run_pod: "removing p = None \<Longrightarrow> snd (RunPodSandbox pod p) = p' \<Longrightarrow>
    nri_step json configurators driver p (PodRun (pod_Uid pod)) p'"
| step_started: "removing p = None \<Longrightarrow> StartContainer pod p = (Ok (), p') \<Longrightarrow>
    nri_step json configurators driver p (ContainerStarted (pod_Uid pod)) p'"
| step_refused: "removing p = None \<Longrightarrow> StartContainer pod p = (Err e, p') \<Longrightarrow>
    nri_step json configurators driver p (ContainerRefused (pod_Uid pod)) p'"
| step_remove: "removing p = None \<Longrightarrow> RemovePodSandbox_begin pod p = p' \<Longrightarrow>
    nri_step json configurators driver p (PodRemoveCalled (pod_Uid pod)) p'"
| step_removed: "removing p = Some (uid, pid) \<Longrightarrow> RemovePodSandbox_end p = Some p' \<Longrightarrow>
    nri_step json configurators driver p (PodRemoved uid pid) p'"
| step_process: "pid < length (processes p) \<Longrightarrow>
    run_step json configurators driver (processes p ! pid) (kernel_calls p) = Some (cp, h) \<Longrightarrow>
    nri_step json configurators driver p (run_label pid (processes p ! pid))
      (p\<lparr>processes := (processes p)[pid := cp], kernel_calls := h\<rparr>)"

inductive_cases nri_stepE: "nri_step json configurators driver p l p'"

text \<open>Runs from a plugin, with the steps they took.\<close>

inductive nri_run ::
  "json_lib \<Rightarrow> (DeviceType \<rightharpoonup> Configurator) \<Rightarrow> string \<Rightarrow> Plugin \<Rightarrow> nri_label list \<Rightarrow> Plugin \<Rightarrow> bool"
  for json configurators driver p0 where
  run_start: "nri_run json configurators driver p0 [] p0"
| run_more: "nri_run json configurators driver p0 ls p \<Longrightarrow> nri_step json configurators driver p l p' \<Longrightarrow>
    nri_run json configurators driver p0 (ls @ [l]) p'"

section \<open>The invariant\<close>

text \<open>The claims that a run has configured for a process.\<close>

definition configured_claims :: "nat \<Rightarrow> nri_label list \<Rightarrow> ResourceClaim list" where
  "configured_claims pid ls =
     concat (map (\<lambda>l. case l of ClaimConfigured pid' claim \<Rightarrow> if pid' = pid then [claim] else [] | _ \<Rightarrow> []) ls)"

lemma configured_claims_snoc:
  "configured_claims pid (ls @ [l]) = configured_claims pid ls @
     (case l of ClaimConfigured pid' claim \<Rightarrow> if pid' = pid then [claim] else [] | _ \<Rightarrow> [])"
  by (simp add: configured_claims_def)

text \<open>A process has configured the claims before those it has still to do, and its channel says
  where it is.\<close>

definition process_inv :: "configurationProcess \<Rightarrow> ResourceClaim list \<Rightarrow> bool" where
  "process_inv cp cs \<longleftrightarrow>
     (case phase cp of
        Spawned \<Rightarrow> cp_done cp = NilChannel \<and> cs = []
      | Configuring rest \<Rightarrow> cp_done cp = OpenChannel \<and> claims cp = cs @ rest
      | Closed \<Rightarrow> cp_done cp = ClosedChannel \<and> claims cp = cs
      | Finished \<Rightarrow> cp_done cp = ClosedChannel \<and> claims cp = cs)"

definition nri_inv :: "nri_label list \<Rightarrow> Plugin \<Rightarrow> bool" where
  "nri_inv ls p \<longleftrightarrow>
     (\<forall>pid < length (processes p). process_inv (processes p ! pid) (configured_claims pid ls)) \<and>
     (\<forall>pid \<ge> length (processes p). configured_claims pid ls = []) \<and>
     (\<forall>uid pid. configurationProcesses p uid = Some pid \<longrightarrow> pid < length (processes p)) \<and>
     (\<forall>uid pid. removing p = Some (uid, pid) \<longrightarrow> pid < length (processes p))"

lemma process_inv_terminate [simp]: "process_inv (terminate_begin cp) cs = process_inv cp cs"
  by (simp add: process_inv_def terminate_begin_def split: phase.split)

lemma process_inv_new: "process_inv (newConfigurationProcess pod ns cs) []"
  by (simp add: process_inv_def newConfigurationProcess_def)

lemma process_inv_run_step:
  assumes "run_step json configurators driver cp h = Some (cp', h')" and "process_inv cp cs"
  shows "process_inv cp' (cs @ (case phase cp of Configuring (claim # rest) \<Rightarrow> [claim] | _ \<Rightarrow> []))"
  using assms
  by (auto simp: run_step_def process_inv_def terminate_begin_def terminate_waits_def
      split: phase.splits list.splits if_splits prod.splits res.splits)

text \<open>What a handler may do to the processes: nothing, a new one, or a \<open>terminate\<close>.\<close>

lemma nri_inv_frame:
  assumes "nri_inv ls p" and "\<And>pid. configured_claims pid (ls @ [l]) = configured_claims pid ls"
    and "length (processes p) \<le> length (processes p')"
    and "\<And>pid. pid < length (processes p) \<Longrightarrow>
      processes p' ! pid \<in> {processes p ! pid, terminate_begin (processes p ! pid)}"
    and "\<And>pid. length (processes p) \<le> pid \<Longrightarrow> pid < length (processes p') \<Longrightarrow>
      \<exists>pod ns cs. processes p' ! pid = newConfigurationProcess pod ns cs"
    and "\<And>uid pid. configurationProcesses p' uid = Some pid \<Longrightarrow> pid < length (processes p')"
    and "\<And>uid pid. removing p' = Some (uid, pid) \<Longrightarrow> pid < length (processes p')"
  shows "nri_inv (ls @ [l]) p'"
proof -
  have "process_inv (processes p' ! pid) (configured_claims pid ls)" if "pid < length (processes p')" for pid
  proof (cases "pid < length (processes p)")
    case True
    with assms(1) assms(4) [OF True] show ?thesis
      by (auto simp: nri_inv_def)
  next
    case False
    with assms(1) have "configured_claims pid ls = []"
      by (simp add: nri_inv_def)
    with assms(5) [of pid] False that show ?thesis
      by (auto simp: process_inv_new)
  qed
  with assms(1-3,6,7) show ?thesis
    by (simp add: nri_inv_def)
qed

text \<open>A step of one process concerns its own claims only.\<close>

lemma nri_inv_process:
  assumes "nri_inv ls p" and "pid < length (processes p)"
    and "run_step json configurators driver (processes p ! pid) (kernel_calls p) = Some (cp, h)"
    and "l = run_label pid (processes p ! pid)"
    and "processes p' = (processes p)[pid := cp]" "configurationProcesses p' = configurationProcesses p"
      "removing p' = removing p"
  shows "nri_inv (ls @ [l]) p'"
proof -
  from assms(1,2) have "process_inv (processes p ! pid) (configured_claims pid ls)"
    by (simp add: nri_inv_def)
  from process_inv_run_step [OF assms(3) this]
  have cp: "process_inv cp (configured_claims pid (ls @ [l]))"
    unfolding assms(4) by (auto simp: configured_claims_snoc run_label_def split: phase.splits list.splits)
  have others: "configured_claims pid' (ls @ [l]) = configured_claims pid' ls" if "pid' \<noteq> pid" for pid'
    unfolding assms(4) using that
    by (simp add: configured_claims_snoc run_label_def split: phase.split list.split)
  show ?thesis
    unfolding nri_inv_def assms(5-7) length_list_update
  proof (intro conjI allI impI)
    fix pid'
    assume "pid' < length (processes p)"
    with assms(1) cp others [of pid'] show "process_inv ((processes p)[pid := cp] ! pid') (configured_claims pid' (ls @ [l]))"
      by (cases "pid' = pid") (simp_all add: nri_inv_def)
  next
    fix pid'
    assume "length (processes p) \<le> pid'"
    with assms(1,2) others [of pid'] show "configured_claims pid' (ls @ [l]) = []"
      by (simp add: nri_inv_def)
  qed (use assms(1) in \<open>auto simp: nri_inv_def\<close>)
qed

lemma nri_inv_step:
  assumes "nri_inv ls p" and "nri_step json configurators driver p l p'"
  shows "nri_inv (ls @ [l]) p'"
  using assms(2)
proof (cases rule: nri_step.cases)
  case (step_process pid cp h)
  then show ?thesis
    by (intro nri_inv_process [OF assms(1) step_process(3,4)]) simp_all
next
  case (step_run_pod pod)
  show ?thesis
    using assms(1) unfolding step_run_pod(3) [symmetric] step_run_pod(1)
    by (intro nri_inv_frame [OF assms(1)])
      (auto simp: configured_claims_snoc RunPodSandbox_def Let_def nri_inv_def nth_append
        intro: less_SucI split: if_splits)
next
  case (step_started pod)
  then show ?thesis
    using assms(1)
    by (intro nri_inv_frame [OF assms(1)])
      (auto simp: configured_claims_snoc StartContainer_def nri_inv_def split: option.splits if_splits)
next
  case (step_refused pod e)
  then show ?thesis
    using assms(1)
    by (intro nri_inv_frame [OF assms(1)])
      (auto simp: configured_claims_snoc StartContainer_def nri_inv_def split: option.splits if_splits)
next
  case (step_remove pod)
  show ?thesis
    using assms(1) unfolding step_remove(3) [symmetric] step_remove(1)
    by (intro nri_inv_frame [OF assms(1)])
      (auto simp: configured_claims_snoc RemovePodSandbox_begin_def nri_inv_def nth_list_update
        split: option.splits if_splits)
next
  case (step_removed uid pid)
  then show ?thesis
    using assms(1)
    by (intro nri_inv_frame [OF assms(1)])
      (auto simp: configured_claims_snoc RemovePodSandbox_end_def nri_inv_def split: option.splits if_splits)
next
  case (step_store m)
  then show ?thesis
    using assms(1) by (intro nri_inv_frame [OF assms(1)]) (auto simp: configured_claims_snoc nri_inv_def)
qed

lemma nri_inv_run:
  "nri_run json configurators driver (NewPlugin m) ls p \<Longrightarrow> nri_inv ls p"
proof (induction rule: nri_run.induct)
  case run_start
  then show ?case
    by (simp add: nri_inv_def NewPlugin_def configured_claims_def)
qed (rule nri_inv_step)

section \<open>Admission\<close>

text \<open>A pod with one claim for the demonstrations, whose configuration fails.\<close>

definition demo_pod :: PodSandbox where
  "demo_pod = \<lparr>pod_Uid = ''pod-1'', pod_Name = ''pod'', pod_Namespace = ''default'',
     pod_LinuxNamespaces = [\<lparr>ns_Type = ''ipc'', ns_Path = ''/ipc''\<rparr>, \<lparr>ns_Type = ''network'', ns_Path = ''/netns/pod''\<rparr>]\<rparr>"

definition demo_pod_claim :: ResourceClaim where
  "demo_pod_claim = \<lparr>rc_Name = ''claim'', rc_Namespace = ''default'', rc_UID = ''uid-1'',
     ReservedFor = [''pod-1''], Allocation = Some [], rc_Devices = [demo_status]\<rparr>"

definition demo_plugin :: Plugin where
  "demo_plugin = NewPlugin (Memory_Add ''pod-1'' demo_pod_claim NewMemory)"

lemma demo_plugin_claims: "Memory_Get ''pod-1'' (nri_store demo_plugin) = [demo_pod_claim]"
  by (simp add: demo_plugin_def NewPlugin_def memory.get_add memory.get_empty)

lemma demo_configure_fails:
  "configureResourceClaim json configurators ''devicenetwork.io'' ns demo_pod_claim h =
     (Err (StatusDataNilFor ''node-a'' ''blue-hostdev-eth0'' ''claim'' None), h)"
  by (simp add: configureResourceClaim_def demo_pod_claim_def demo_status_def)

definition demo_process :: "channel \<Rightarrow> bool \<Rightarrow> phase \<Rightarrow> configurationProcess" where
  "demo_process ch c ph = \<lparr>cp_pod = ''pod-1'', podNetworkNamespace = ''/netns/pod'',
     claims = [demo_pod_claim], cp_done = ch, cancel = c, phase = ph\<rparr>"

definition demo_running :: "channel \<Rightarrow> bool \<Rightarrow> phase \<Rightarrow> Plugin" where
  "demo_running ch c ph = demo_plugin\<lparr>processes := [demo_process ch c ph],
     configurationProcesses := [''pod-1'' \<mapsto> 0]\<rparr>"

lemma demo_run_pod: "RunPodSandbox demo_pod demo_plugin = (Ok (), demo_running NilChannel False Spawned)"
proof -
  have "getNetworkNamespace demo_pod = ''/netns/pod''"
    by (simp add: getNetworkNamespace_def demo_pod_def)
  moreover have "Memory_Get (pod_Uid demo_pod) (nri_store demo_plugin) = [demo_pod_claim]"
    using demo_plugin_claims by (simp add: demo_pod_def)
  ultimately show ?thesis
    by (simp add: RunPodSandbox_def demo_running_def demo_process_def newConfigurationProcess_def
        demo_plugin_def NewPlugin_def demo_pod_def)
qed

lemma demo_run_step:
  "run_step json configurators ''devicenetwork.io'' (demo_process NilChannel False Spawned) h =
     Some (demo_process OpenChannel True (Configuring [demo_pod_claim]), h)"
  "run_step json configurators ''devicenetwork.io'' (demo_process OpenChannel True (Configuring [demo_pod_claim])) h =
     Some (demo_process OpenChannel True (Configuring []), h)"
  "run_step json configurators ''devicenetwork.io'' (demo_process OpenChannel True (Configuring [])) h =
     Some (demo_process ClosedChannel True Closed, h)"
  by (simp_all add: run_step_def demo_process_def terminate_waits_def terminate_begin_def demo_configure_fails)

lemma demo_run_process:
  assumes "nri_run json configurators ''devicenetwork.io'' demo_plugin ls (demo_running ch c ph)"
    and "\<And>h. run_step json configurators ''devicenetwork.io'' (demo_process ch c ph) h =
      Some (demo_process ch' c' ph', h)"
  shows "nri_run json configurators ''devicenetwork.io'' demo_plugin
    (ls @ [run_label 0 (demo_process ch c ph)]) (demo_running ch' c' ph')"
proof -
  let ?p = "demo_running ch c ph"
  have "nri_step json configurators ''devicenetwork.io'' ?p (run_label 0 (processes ?p ! 0))
      (?p\<lparr>processes := (processes ?p)[0 := demo_process ch' c' ph'], kernel_calls := kernel_calls ?p\<rparr>)"
    by (rule step_process) (simp_all add: demo_running_def assms(2))
  then have "nri_step json configurators ''devicenetwork.io'' ?p (run_label 0 (demo_process ch c ph)) (demo_running ch' c' ph')"
    by (simp add: demo_running_def demo_plugin_def NewPlugin_def)
  with assms(1) show ?thesis
    by (rule run_more)
qed

lemma demo_runs:
  "nri_run json configurators ''devicenetwork.io'' demo_plugin [PodRun ''pod-1''] (demo_running NilChannel False Spawned)"
  "nri_run json configurators ''devicenetwork.io'' demo_plugin
     [PodRun ''pod-1'', RunAdvanced 0, ClaimConfigured 0 demo_pod_claim, RunAdvanced 0]
     (demo_running ClosedChannel True Closed)"
proof -
  have "nri_step json configurators ''devicenetwork.io'' demo_plugin (PodRun (pod_Uid demo_pod)) (demo_running NilChannel False Spawned)"
    by (rule step_run_pod) (simp_all add: demo_run_pod, simp add: demo_plugin_def NewPlugin_def)
  from run_more [OF run_start this]
  show one: "nri_run json configurators ''devicenetwork.io'' demo_plugin [PodRun ''pod-1''] (demo_running NilChannel False Spawned)"
    by (simp add: demo_pod_def)
  from demo_run_process [OF demo_run_process [OF demo_run_process [OF one demo_run_step(1)] demo_run_step(2)] demo_run_step(3)]
  show "nri_run json configurators ''devicenetwork.io'' demo_plugin
     [PodRun ''pod-1'', RunAdvanced 0, ClaimConfigured 0 demo_pod_claim, RunAdvanced 0]
     (demo_running ClosedChannel True Closed)"
    by (simp add: run_label_def demo_process_def)
qed

text \<open>What \<open>StartContainer\<close> does while the plugin knows a process of the pod.\<close>

lemma StartContainer_known:
  assumes "nri_inv ls p" and "configurationProcesses p (pod_Uid pod) = Some pid"
  shows "case phase (processes p ! pid) of
      Spawned \<Rightarrow> fst (StartContainer pod p) = Ok () \<and> configured_claims pid ls = []
    | Configuring rest \<Rightarrow> fst (StartContainer pod p) = Err (NotConfigured (pod_Name pod) (pod_Namespace pod)) \<and>
        configured_claims pid ls @ rest = claims (processes p ! pid)
    | _ \<Rightarrow> fst (StartContainer pod p) = Ok () \<and> configured_claims pid ls = claims (processes p ! pid)"
proof -
  from assms have "process_inv (processes p ! pid) (configured_claims pid ls)"
    by (auto simp: nri_inv_def)
  with assms(2) show ?thesis
    by (auto simp: StartContainer_def isDone_def process_inv_def split: phase.splits)
qed

text \<open>
  A start of a pod that makes a process, in a plugin that some run has reached; and steps among which
  there is no further start of the pod, no container of it that is admitted, and no removal of it.
\<close>

definition process_made ::
  "json_lib \<Rightarrow> (DeviceType \<rightharpoonup> Configurator) \<Rightarrow> string \<Rightarrow> nri_label list \<Rightarrow> Plugin \<Rightarrow> PodSandbox \<Rightarrow> Plugin \<Rightarrow> bool" where
  "process_made json configurators driver before p0 pod p1 \<longleftrightarrow>
     (\<exists>m. nri_run json configurators driver (NewPlugin m) before p0) \<and> removing p0 = None \<and>
     RunPodSandbox pod p0 = (Ok (), p1) \<and> length (processes p1) = Suc (length (processes p0))"

definition none_admitted :: "uid \<Rightarrow> nri_label list \<Rightarrow> bool" where
  "none_admitted uid ls \<longleftrightarrow> list_all (\<lambda>l. l \<notin> {PodRun uid, ContainerStarted uid, PodRemoveCalled uid}) ls"

lemma nri_run_append:
  "nri_run json configurators driver p1 ls' p \<Longrightarrow> nri_run json configurators driver p0 ls p1 \<Longrightarrow>
   nri_run json configurators driver p0 (ls @ ls') p"
proof (induction rule: nri_run.induct)
  case (run_more ls' p l p')
  from nri_run.run_more [OF run_more.IH [OF run_more.prems] run_more.hyps(2)] show ?case
    by simp
qed simp

lemma run_step_claims: "run_step json configurators driver cp h = Some (cp', h') \<Longrightarrow> claims cp' = claims cp"
  by (auto simp: run_step_def terminate_begin_def split: phase.splits list.splits if_splits prod.splits res.splits)

lemma claims_terminate_begin [simp]:
  "pid < length ps \<Longrightarrow> claims (ps[i := terminate_begin (ps ! i)] ! pid) = claims (ps ! pid)"
  by (cases "i = pid") (simp_all add: terminate_begin_def)

lemma nri_step_claims:
  assumes "nri_step json configurators driver p l p'" and "pid < length (processes p)"
  shows "pid < length (processes p') \<and> claims (processes p' ! pid) = claims (processes p ! pid)"
  using assms(1)
proof (cases rule: nri_step.cases)
  case (step_process pid' cp h)
  with assms(2) run_step_claims [OF step_process(4)] show ?thesis
    by (cases "pid' = pid") simp_all
qed (use assms(2) in \<open>auto simp: RunPodSandbox_def StartContainer_def RemovePodSandbox_begin_def RemovePodSandbox_end_def
    Let_def nth_append split: if_splits option.splits\<close>)

lemma process_made_entry:
  assumes "process_made json configurators driver before p0 pod p1"
  shows "configurationProcesses p1 (pod_Uid pod) = Some (length (processes p0))" and "removing p1 = None"
    and "claims (processes p1 ! length (processes p0)) = Memory_Get (pod_Uid pod) (nri_store p0)"
    and "\<exists>m. nri_run json configurators driver (NewPlugin m) (before @ [PodRun (pod_Uid pod)]) p1"
proof -
  from assms obtain m where m: "nri_run json configurators driver (NewPlugin m) before p0" "removing p0 = None"
      "snd (RunPodSandbox pod p0) = p1"
    by (auto simp: process_made_def)
  from assms have out: "RunPodSandbox pod p0 = (Ok (), p1)" and len: "length (processes p1) = Suc (length (processes p0))"
    by (simp_all add: process_made_def)
  from out have "p1 = p0 \<or> p1 = p0\<lparr>processes := processes p0 @ [newConfigurationProcess (pod_Uid pod)
      (getNetworkNamespace pod) (Memory_Get (pod_Uid pod) (nri_store p0))],
      configurationProcesses := (configurationProcesses p0)(pod_Uid pod \<mapsto> length (processes p0))\<rparr>"
    by (simp add: RunPodSandbox_def Let_def split: if_splits)
  with len have p1: "p1 = p0\<lparr>processes := processes p0 @ [newConfigurationProcess (pod_Uid pod)
      (getNetworkNamespace pod) (Memory_Get (pod_Uid pod) (nri_store p0))],
      configurationProcesses := (configurationProcesses p0)(pod_Uid pod \<mapsto> length (processes p0))\<rparr>"
    by (elim disjE) simp_all
  show "configurationProcesses p1 (pod_Uid pod) = Some (length (processes p0))" "removing p1 = None"
    "claims (processes p1 ! length (processes p0)) = Memory_Get (pod_Uid pod) (nri_store p0)"
    by (simp_all add: p1 m(2) newConfigurationProcess_def)
  from run_more [OF m(1) step_run_pod [OF m(2,3)]]
  show "\<exists>m. nri_run json configurators driver (NewPlugin m) (before @ [PodRun (pod_Uid pod)]) p1"
    by blast
qed

text \<open>The plugin knows the process for as long as no container is admitted and the pod is not removed.\<close>

lemma entry_kept:
  assumes "nri_run json configurators driver p1 after p" and "none_admitted uid after"
    and "configurationProcesses p1 uid = Some pid" and "removing p1 = None" and "pid < length (processes p1)"
  shows "configurationProcesses p uid = Some pid \<and> (\<forall>pid'. removing p \<noteq> Some (uid, pid')) \<and>
    pid < length (processes p) \<and> claims (processes p ! pid) = claims (processes p1 ! pid)"
  using assms
proof (induction rule: nri_run.induct)
  case (run_more ls p l p')
  from run_more.prems(1) have l: "l \<notin> {PodRun uid, ContainerStarted uid, PodRemoveCalled uid}" and "none_admitted uid ls"
    by (simp_all add: none_admitted_def)
  with run_more.IH run_more.prems have IH: "configurationProcesses p uid = Some pid" "\<forall>pid'. removing p \<noteq> Some (uid, pid')"
      "pid < length (processes p)" "claims (processes p ! pid) = claims (processes p1 ! pid)"
    by simp_all
  from run_more.hyps(2) l IH(1,2) have "configurationProcesses p' uid = Some pid \<and> (\<forall>pid'. removing p' \<noteq> Some (uid, pid'))"
    by (cases rule: nri_step.cases)
      (auto simp: RunPodSandbox_def StartContainer_def RemovePodSandbox_begin_def RemovePodSandbox_end_def
        Let_def split: if_splits option.splits)
  with nri_step_claims [OF run_more.hyps(2) IH(3)] IH(4) show ?case
    by simp
qed simp

lemma made_process_kept:
  assumes "process_made json configurators driver before p0 pod p1"
    and "nri_run json configurators driver p1 after p" and "none_admitted (pod_Uid pod) after"
  shows "configurationProcesses p (pod_Uid pod) = Some (length (processes p0))"
    and "claims (processes p ! length (processes p0)) = Memory_Get (pod_Uid pod) (nri_store p0)"
    and "nri_inv ((before @ [PodRun (pod_Uid pod)]) @ after) p"
    and "configured_claims (length (processes p0)) ((before @ [PodRun (pod_Uid pod)]) @ after) =
      configured_claims (length (processes p0)) after"
proof -
  note entry = process_made_entry [OF assms(1)]
  have len: "length (processes p0) < length (processes p1)"
    using assms(1) by (simp add: process_made_def)
  from entry_kept [OF assms(2,3) entry(1,2) len] entry(3)
  show "configurationProcesses p (pod_Uid pod) = Some (length (processes p0))"
    "claims (processes p ! length (processes p0)) = Memory_Get (pod_Uid pod) (nri_store p0)"
    by simp_all
  from entry(4) obtain m where run: "nri_run json configurators driver (NewPlugin m) (before @ [PodRun (pod_Uid pod)]) p1"
    by blast
  show "nri_inv ((before @ [PodRun (pod_Uid pod)]) @ after) p"
    by (rule nri_inv_run [OF nri_run_append [OF assms(2) run]])
  from assms(1) obtain m where "nri_run json configurators driver (NewPlugin m) before p0"
    by (auto simp: process_made_def)
  from nri_inv_run [OF this] have "configured_claims (length (processes p0)) before = []"
    by (simp add: nri_inv_def)
  then show "configured_claims (length (processes p0)) ((before @ [PodRun (pod_Uid pod)]) @ after) =
      configured_claims (length (processes p0)) after"
    by (simp add: configured_claims_def)
qed

text \<open>
  C5: the first container of a pod is not admitted in the middle of the configuration. After the start of a
  pod that made a process for the claims the store had for it, and as long as no container of the pod was
  admitted and the pod was not started again or removed, in every interleaving of handlers and goroutines,
  \<open>StartContainer\<close> refuses while the process is at its claims, and admits when the process has not run its
  first statement yet, or has gone through all of these claims, each once and in order.
\<close>

theorem StartContainer_admission:
  assumes "process_made json configurators driver before p0 pod p1"
    and "nri_run json configurators driver p1 after p" and "none_admitted (pod_Uid pod) after"
    and "pid = length (processes p0)" and "cs = Memory_Get (pod_Uid pod) (nri_store p0)"
  shows "case phase (processes p ! pid) of
      Spawned \<Rightarrow> fst (StartContainer pod p) = Ok () \<and> configured_claims pid after = []
    | Configuring rest \<Rightarrow> fst (StartContainer pod p) = Err (NotConfigured (pod_Name pod) (pod_Namespace pod)) \<and>
        configured_claims pid after @ rest = cs
    | _ \<Rightarrow> fst (StartContainer pod p) = Ok () \<and> configured_claims pid after = cs"
  using StartContainer_known [OF made_process_kept(3,1) [OF assms(1-3)]]
  unfolding made_process_kept(2,4) [OF assms(1-3)] assms(4,5) .

text \<open>The demonstration pod is started; then its process goes through its claim.\<close>

lemma demo_process_made:
  "process_made json configurators ''devicenetwork.io'' [] demo_plugin demo_pod (demo_running NilChannel False Spawned)"
proof -
  have "\<exists>m. nri_run json configurators ''devicenetwork.io'' (NewPlugin m) [] demo_plugin"
    using run_start [of json configurators "''devicenetwork.io''" demo_plugin] unfolding demo_plugin_def by blast
  then show ?thesis
    by (simp add: process_made_def demo_run_pod) (simp add: demo_running_def demo_plugin_def NewPlugin_def)
qed

lemma demo_goes_on:
  "nri_run json configurators ''devicenetwork.io'' (demo_running NilChannel False Spawned) [RunAdvanced 0]
     (demo_running OpenChannel True (Configuring [demo_pod_claim]))"
  "nri_run json configurators ''devicenetwork.io'' (demo_running NilChannel False Spawned)
     [RunAdvanced 0, ClaimConfigured 0 demo_pod_claim, RunAdvanced 0] (demo_running ClosedChannel True Closed)"
proof -
  have step: "nri_step json configurators ''devicenetwork.io'' (demo_running ch c ph)
      (run_label 0 (demo_process ch c ph)) (demo_running ch' c' ph')"
    if "\<And>h. run_step json configurators ''devicenetwork.io'' (demo_process ch c ph) h = Some (demo_process ch' c' ph', h)"
    for ch c ph ch' c' ph'
  proof -
    have "nri_step json configurators ''devicenetwork.io'' (demo_running ch c ph) (run_label 0 (processes (demo_running ch c ph) ! 0))
        ((demo_running ch c ph)\<lparr>processes := (processes (demo_running ch c ph))[0 := demo_process ch' c' ph'],
          kernel_calls := kernel_calls (demo_running ch c ph)\<rparr>)"
      by (rule step_process) (simp_all add: demo_running_def that)
    then show ?thesis
      by (simp add: demo_running_def demo_plugin_def NewPlugin_def)
  qed
  from run_more [OF run_start step [OF demo_run_step(1)]]
  show one: "nri_run json configurators ''devicenetwork.io'' (demo_running NilChannel False Spawned) [RunAdvanced 0]
     (demo_running OpenChannel True (Configuring [demo_pod_claim]))"
    by (simp add: run_label_def demo_process_def)
  from run_more [OF run_more [OF one step [OF demo_run_step(2)]] step [OF demo_run_step(3)]]
  show "nri_run json configurators ''devicenetwork.io'' (demo_running NilChannel False Spawned)
     [RunAdvanced 0, ClaimConfigured 0 demo_pod_claim, RunAdvanced 0] (demo_running ClosedChannel True Closed)"
    by (simp add: run_label_def demo_process_def)
qed

lemma StartContainer_admission_witness:
  "fst (StartContainer demo_pod (demo_running OpenChannel True (Configuring [demo_pod_claim]))) =
     Err (NotConfigured ''pod'' ''default'') \<and>
   fst (StartContainer demo_pod (demo_running ClosedChannel True Closed)) = Ok () \<and>
   configured_claims 0 [RunAdvanced 0, ClaimConfigured 0 demo_pod_claim, RunAdvanced 0] = [demo_pod_claim]"
proof -
  let ?cfg = "deviceConfigurators demo_json pod_kernel"
  have pid: "0 = length (processes demo_plugin)"
    by (simp add: demo_plugin_def NewPlugin_def)
  note admission = StartContainer_admission [OF demo_process_made [of demo_json ?cfg] _ _ pid refl]
  have "none_admitted (pod_Uid demo_pod) [RunAdvanced 0]"
    "none_admitted (pod_Uid demo_pod) [RunAdvanced 0, ClaimConfigured 0 demo_pod_claim, RunAdvanced 0]"
    by (simp_all add: none_admitted_def)
  with admission [OF demo_goes_on(1)] admission [OF demo_goes_on(2)] show ?thesis
    using demo_plugin_claims by (simp add: demo_running_def demo_process_def demo_pod_def)
qed

text \<open>
  C34: a container that the runtime starts at once is admitted unconfigured. Right after
  \<open>RunPodSandbox\<close> has started the goroutine for a pod with claims, \<open>StartContainer\<close> finds no channel,
  takes the process for done and drops it, while every claim is still to be configured.
\<close>

theorem container_admitted_before_configuration:
  assumes "Memory_Get (pod_Uid pod) (nri_store p) \<noteq> []" and "getNetworkNamespace pod \<noteq> ''''"
    and "RunPodSandbox pod p = (out, p1)" and "StartContainer pod p1 = (out', p2)"
  shows "out = Ok () \<and> out' = Ok () \<and> kernel_calls p2 = kernel_calls p \<and>
    configurationProcesses p2 (pod_Uid pod) = None \<and>
    phase (last (processes p2)) = Spawned \<and>
    claims (last (processes p2)) = Memory_Get (pod_Uid pod) (nri_store p)"
  using assms
  by (auto simp: RunPodSandbox_def StartContainer_def Let_def isDone_def newConfigurationProcess_def)

lemma container_admitted_before_configuration_witness:
  "fst (StartContainer demo_pod (snd (RunPodSandbox demo_pod demo_plugin))) = Ok () \<and>
   claims (last (processes (snd (StartContainer demo_pod (snd (RunPodSandbox demo_pod demo_plugin)))))) = [demo_pod_claim]"
proof -
  have c: "Memory_Get (pod_Uid demo_pod) (nri_store demo_plugin) = [demo_pod_claim]"
    using demo_plugin_claims by (simp add: demo_pod_def)
  have n: "getNetworkNamespace demo_pod \<noteq> ''''"
    by (simp add: getNetworkNamespace_def demo_pod_def)
  obtain out' p2 where s: "StartContainer demo_pod (snd (RunPodSandbox demo_pod demo_plugin)) = (out', p2)"
    by fastforce
  from container_admitted_before_configuration [OF _ n demo_run_pod, of out' p2] c s demo_run_pod show ?thesis
    by simp
qed

text \<open>Once a container was admitted the plugin knows of no process of the pod.\<close>

lemma entry_stays_away:
  assumes "nri_run json configurators driver p1 ls p" and "PodRun uid \<notin> set ls" and "configurationProcesses p1 uid = None"
  shows "configurationProcesses p uid = None"
  using assms
proof (induction rule: nri_run.induct)
  case (run_more ls p l p')
  then have "configurationProcesses p uid = None" "l \<noteq> PodRun uid"
    by auto
  with run_more.hyps(2) show ?case
    by (cases rule: nri_step.cases)
      (auto simp: RunPodSandbox_def StartContainer_def RemovePodSandbox_begin_def RemovePodSandbox_end_def
        Let_def split: if_splits option.splits)
qed simp

text \<open>
  C36: an early admission takes the guard away from the pod. When a container was admitted before the process
  of its pod had run its first statement, the plugin forgets the process, and the goroutine starts on
  the claims all the same: until the pod is started again every further container is admitted, and every
  removal of the pod returns at once, also in the middle of the configuration.
\<close>

theorem early_admission_forgets_the_process:
  assumes "nri_run json configurators driver (NewPlugin m) ls p"
    and "configurationProcesses p (pod_Uid pod) = Some pid" and "phase (processes p ! pid) = Spawned"
    and "StartContainer pod p = (out, p1)"
  shows "out = Ok () \<and>
    (\<forall>ls' p2. nri_run json configurators driver p1 ls' p2 \<and> PodRun (pod_Uid pod) \<notin> set ls' \<longrightarrow>
       StartContainer pod p2 = (Ok (), p2) \<and> RemovePodSandbox_begin pod p2 = p2) \<and>
    (\<exists>p2. nri_run json configurators driver p1 [RunAdvanced pid] p2 \<and>
       phase (processes p2 ! pid) = Configuring (claims (processes p ! pid)))"
proof -
  note inv = nri_inv_run [OF assms(1)]
  from inv assms(2) have pid: "pid < length (processes p)" and "process_inv (processes p ! pid) (configured_claims pid ls)"
    by (auto simp: nri_inv_def)
  with assms(3) have nil: "cp_done (processes p ! pid) = NilChannel"
    by (simp add: process_inv_def)
  with assms(2,4) have out: "out = Ok ()"
    and p1: "p1 = p\<lparr>configurationProcesses := (configurationProcesses p)(pod_Uid pod := None)\<rparr>"
    by (simp_all add: StartContainer_def isDone_def)
  have forgotten: "StartContainer pod p2 = (Ok (), p2) \<and> RemovePodSandbox_begin pod p2 = p2"
    if "nri_run json configurators driver p1 ls' p2" "PodRun (pod_Uid pod) \<notin> set ls'" for ls' p2
    using entry_stays_away [OF that] by (simp add: p1 StartContainer_def RemovePodSandbox_begin_def)
  obtain cp where step: "run_step json configurators driver (processes p1 ! pid) (kernel_calls p1) = Some (cp, kernel_calls p1)"
    and cp: "phase cp = Configuring (claims (processes p ! pid))"
    using nil assms(3) by (simp add: p1 run_step_def terminate_waits_def)
  have label: "run_label pid (processes p1 ! pid) = RunAdvanced pid" and len: "pid < length (processes p1)"
    using assms(3) pid by (simp_all add: p1 run_label_def)
  from run_more [OF run_start step_process [OF len step]] cp len
  have "\<exists>p2. nri_run json configurators driver p1 [RunAdvanced pid] p2 \<and>
      phase (processes p2 ! pid) = Configuring (claims (processes p ! pid))"
    unfolding label by fastforce
  with out forgotten show ?thesis
    by blast
qed

lemma early_admission_forgets_the_process_witness:
  "\<exists>p1 p2. StartContainer demo_pod (demo_running NilChannel False Spawned) = (Ok (), p1) \<and>
     nri_run demo_json (deviceConfigurators demo_json pod_kernel) ''devicenetwork.io'' p1 [RunAdvanced 0] p2 \<and>
     phase (processes p2 ! 0) = Configuring [demo_pod_claim] \<and>
     StartContainer demo_pod p2 = (Ok (), p2) \<and> RemovePodSandbox_begin demo_pod p2 = p2"
proof -
  let ?p = "demo_running NilChannel False Spawned"
  obtain out p1 where s: "StartContainer demo_pod ?p = (out, p1)"
    by fastforce
  have "configurationProcesses ?p (pod_Uid demo_pod) = Some 0" "phase (processes ?p ! 0) = Spawned"
      "claims (processes ?p ! 0) = [demo_pod_claim]"
    by (simp_all add: demo_running_def demo_pod_def demo_process_def)
  with early_admission_forgets_the_process [where json = demo_json and configurators = "deviceConfigurators demo_json pod_kernel",
      OF demo_runs(1) [unfolded demo_plugin_def] _ _ s, of 0] s
  show ?thesis
    by fastforce
qed

section \<open>Removal\<close>

text \<open>
  C21: \<open>RemovePodSandbox\<close> waits for the configuration. After the start of a pod that made a process, as long
  as no container of the pod was admitted and the pod was not started again or removed, a removal waits
  for this process: when it returns, whatever happened in between, the process has either not run its
  first statement yet, or has gone through all its claims, each once and in order.
\<close>

theorem RemovePodSandbox_waits:
  assumes "process_made json configurators driver before p0 pod p1"
    and "nri_run json configurators driver p1 after p" and "none_admitted (pod_Uid pod) after" and "removing p = None"
    and "pid = length (processes p0)" and "cs = Memory_Get (pod_Uid pod) (nri_store p0)"
  shows "removing (RemovePodSandbox_begin pod p) = Some (pod_Uid pod, pid) \<and>
    (\<forall>ls p' p''. nri_run json configurators driver (RemovePodSandbox_begin pod p) ls p' \<and>
       list_all (\<lambda>l. l \<noteq> PodRemoved (pod_Uid pod) pid) ls \<and> RemovePodSandbox_end p' = Some p'' \<longrightarrow>
       phase (processes p'' ! pid) = Spawned \<or>
       phase (processes p'' ! pid) \<in> {Closed, Finished} \<and> configured_claims pid (after @ ls) = cs)"
proof -
  note kept = made_process_kept [OF assms(1-3), folded assms(5,6)]
  let ?p2 = "RemovePodSandbox_begin pod p"
  have waits: "removing ?p2 = Some (pod_Uid pod, pid)"
    by (simp add: RemovePodSandbox_begin_def kept(1))
  from process_made_entry(4) [OF assms(1)] obtain m where
    "nri_run json configurators driver (NewPlugin m) (before @ [PodRun (pod_Uid pod)]) p1"
    by blast
  from run_more [OF nri_run_append [OF assms(2) this] step_remove [OF assms(4) refl]]
  have run: "nri_run json configurators driver (NewPlugin m)
      (((before @ [PodRun (pod_Uid pod)]) @ after) @ [PodRemoveCalled (pod_Uid pod)]) ?p2" .
  from kept(1,3) have pid: "pid < length (processes p)"
    by (simp add: nri_inv_def)
  then have pid2: "pid < length (processes ?p2)" "claims (processes ?p2 ! pid) = cs"
    by (simp_all add: RemovePodSandbox_begin_def kept(1,2) terminate_begin_def)
  have "phase (processes p'' ! pid) = Spawned \<or>
       phase (processes p'' ! pid) \<in> {Closed, Finished} \<and> configured_claims pid (after @ ls) = cs"
    if go: "nri_run json configurators driver ?p2 ls p'" "list_all (\<lambda>l. l \<noteq> PodRemoved (pod_Uid pod) pid) ls"
      and ret: "RemovePodSandbox_end p' = Some p''" for ls p' p''
  proof -
    have "removing p' = Some (pod_Uid pod, pid) \<and> pid < length (processes p') \<and> claims (processes p' ! pid) = cs"
      using go
    proof (induction rule: nri_run.induct)
      case run_start
      then show ?case
        using waits pid2 by simp
    next
      case (run_more ls p l p')
      then have IH: "removing p = Some (pod_Uid pod, pid)" "pid < length (processes p)" "claims (processes p ! pid) = cs"
          "l \<noteq> PodRemoved (pod_Uid pod) pid"
        by simp_all
      from run_more.hyps(2) IH(1,4) have "removing p' = Some (pod_Uid pod, pid)"
        by (cases rule: nri_step.cases) auto
      with nri_step_claims [OF run_more.hyps(2) IH(2)] IH(3) show ?case
        by simp
    qed
    then have p': "removing p' = Some (pod_Uid pod, pid)" "pid < length (processes p')" "claims (processes p' ! pid) = cs"
      by simp_all
    from nri_inv_run [OF nri_run_append [OF go(1) run]] p'(2)
    have "process_inv (processes p' ! pid)
        (configured_claims pid ((((before @ [PodRun (pod_Uid pod)]) @ after) @ [PodRemoveCalled (pod_Uid pod)]) @ ls))"
      by (simp add: nri_inv_def)
    moreover have "configured_claims pid ((((before @ [PodRun (pod_Uid pod)]) @ after) @ [PodRemoveCalled (pod_Uid pod)]) @ ls) =
        configured_claims pid (after @ ls)"
      using kept(4) by (simp add: configured_claims_def)
    moreover from ret p'(1) have "processes p'' = processes p'" "\<not> terminate_waits (processes p' ! pid)"
      by (auto simp: RemovePodSandbox_end_def split: if_splits)
    ultimately show ?thesis
      using p'(3) by (auto simp: terminate_waits_def process_inv_def split: phase.splits)
  qed
  with waits show ?thesis
    by blast
qed

lemma RemovePodSandbox_waits_witness:
  "\<exists>p'. RemovePodSandbox_end (RemovePodSandbox_begin demo_pod (demo_running ClosedChannel True Closed)) = Some p' \<and>
     phase (processes p' ! 0) = Closed \<and>
     configured_claims 0 [RunAdvanced 0, ClaimConfigured 0 demo_pod_claim, RunAdvanced 0] = claims (processes p' ! 0)"
proof -
  let ?cfg = "deviceConfigurators demo_json pod_kernel" and ?p = "demo_running ClosedChannel True Closed"
  have pid: "0 = length (processes demo_plugin)" and none: "removing ?p = None"
    by (simp_all add: demo_running_def demo_plugin_def NewPlugin_def)
  have quiet: "none_admitted (pod_Uid demo_pod) [RunAdvanced 0, ClaimConfigured 0 demo_pod_claim, RunAdvanced 0]"
    by (simp add: none_admitted_def)
  obtain p' where p': "RemovePodSandbox_end (RemovePodSandbox_begin demo_pod ?p) = Some p'"
      "phase (processes p' ! 0) = Closed" "claims (processes p' ! 0) = [demo_pod_claim]"
    by (simp add: RemovePodSandbox_begin_def RemovePodSandbox_end_def demo_running_def demo_pod_def demo_process_def
        terminate_begin_def terminate_waits_def)
  from RemovePodSandbox_waits [OF demo_process_made [of demo_json ?cfg] demo_goes_on(2) quiet none pid refl]
    run_start [of demo_json ?cfg "''devicenetwork.io''" "RemovePodSandbox_begin demo_pod ?p"] p'
  have "configured_claims 0 [RunAdvanced 0, ClaimConfigured 0 demo_pod_claim, RunAdvanced 0] =
      Memory_Get (pod_Uid demo_pod) (nri_store demo_plugin)"
    by fastforce
  with p' demo_plugin_claims show ?thesis
    by (intro exI [of _ p']) (simp add: demo_pod_def)
qed

text \<open>The steps of a process in the middle of its claims can be taken up to the close of its channel.\<close>

lemma waiting_process_closes:
  assumes "pid < length (processes p)" and "phase (processes p ! pid) = Configuring rest"
    and "podNetworkNamespace (processes p ! pid) = ns"
    and "\<forall>claim \<in> set rest. \<forall>h.
      fst (configureResourceClaim json configurators driver ns claim h) \<notin> {Panic, Diverge}"
    and "nri_run json configurators driver p0 ls p"
  shows "\<exists>ls' p'. nri_run json configurators driver p0 (ls @ ls') p' \<and> cp_done (processes p' ! pid) = ClosedChannel \<and>
    removing p' = removing p"
  using assms
proof (induction rest arbitrary: p ls)
  case Nil
  let ?cp = "processes p ! pid"
  have "run_step json configurators driver ?cp (kernel_calls p) =
      Some (?cp\<lparr>cp_done := ClosedChannel, phase := Closed\<rparr>, kernel_calls p)"
    by (simp add: run_step_def Nil.prems(2))
  from run_more [OF Nil.prems(5) step_process [OF Nil.prems(1) this]] show ?case
    using Nil.prems(1) by fastforce
next
  case (Cons claim rest)
  let ?cp = "processes p ! pid"
  obtain out h where run: "configureResourceClaim json configurators driver ns claim (kernel_calls p) = (out, h)"
    by fastforce
  with Cons.prems(4) have "out \<noteq> Panic" "out \<noteq> Diverge"
    by (auto dest: spec [of _ "kernel_calls p"])
  with run have "run_step json configurators driver ?cp (kernel_calls p) = Some (?cp\<lparr>phase := Configuring rest\<rparr>, h)"
    by (cases out) (simp_all add: run_step_def Cons.prems(2,3))
  from run_more [OF Cons.prems(5) step_process [OF Cons.prems(1) this]]
  have step: "nri_run json configurators driver p0 (ls @ [run_label pid ?cp])
      (p\<lparr>processes := (processes p)[pid := ?cp\<lparr>phase := Configuring rest\<rparr>], kernel_calls := h\<rparr>)" .
  from Cons.IH [OF _ _ _ _ step] Cons.prems(1,3,4) obtain ls' p' where
    "nri_run json configurators driver p0 ((ls @ [run_label pid ?cp]) @ ls') p'"
    "cp_done (processes p' ! pid) = ClosedChannel" "removing p' = removing p"
    by auto
  then show ?case
    by (intro exI [of _ "run_label pid ?cp # ls'"] exI [of _ p']) simp
qed

lemma RemovePodSandbox_end_enabled:
  "removing p = Some (uid, pid) \<Longrightarrow> cp_done (processes p ! pid) \<noteq> OpenChannel \<Longrightarrow>
   \<exists>p'. RemovePodSandbox_end p = Some p' \<and> removing p' = None"
  by (simp add: RemovePodSandbox_end_def terminate_waits_def)

text \<open>
  C22: a call of \<open>RemovePodSandbox\<close> that waits can always come back. With the configurators of \<open>run\<close>, from
  every state it waits in and whatever the kernel answers, the process it waits for can go on to close
  its channel, provided that the statuses of this driver in its claims have network data, as the driver
  writes them (without it the macvlan configurator panics).
\<close>

theorem RemovePodSandbox_can_return:
  assumes "nri_run json (deviceConfigurators json k) driver (NewPlugin m) ls p" and "removing p = Some (uid, pid)"
    and "\<forall>claim \<in> set (claims (processes p ! pid)). \<forall>st \<in> set (rc_Devices claim).
      ads_Driver st = driver \<longrightarrow> ads_NetworkData st \<noteq> None"
  shows "\<exists>ls' p' p''. nri_run json (deviceConfigurators json k) driver (NewPlugin m) (ls @ ls') p' \<and>
    removing p' = Some (uid, pid) \<and> RemovePodSandbox_end p' = Some p'' \<and> removing p'' = None"
proof -
  let ?cfg = "deviceConfigurators json k"
  from nri_inv_run [OF assms(1)] assms(2) have pid: "pid < length (processes p)"
    and inv: "process_inv (processes p ! pid) (configured_claims pid ls)"
    by (auto simp: nri_inv_def)
  show ?thesis
  proof (cases "cp_done (processes p ! pid) = OpenChannel")
    case False
    from RemovePodSandbox_end_enabled [OF assms(2) False] assms(1,2) show ?thesis
      by (metis append_Nil2)
  next
    case True
    with inv obtain rest where rest: "phase (processes p ! pid) = Configuring rest"
      and all: "claims (processes p ! pid) = configured_claims pid ls @ rest"
      by (auto simp: process_inv_def split: phase.splits)
    have "\<forall>claim \<in> set rest. \<forall>st \<in> set (rc_Devices claim). ads_Driver st = driver \<longrightarrow> ads_NetworkData st \<noteq> None"
      using assms(3) unfolding all set_append by blast
    then have "\<forall>claim \<in> set rest. \<forall>h. fst (configureResourceClaim json ?cfg driver
        (podNetworkNamespace (processes p ! pid)) claim h) \<notin> {Panic, Diverge}"
      by (intro ballI allI configureResourceClaim_returns) blast
    from waiting_process_closes [OF pid rest refl this assms(1)] obtain ls' p' where
      "nri_run json ?cfg driver (NewPlugin m) (ls @ ls') p'"
      "cp_done (processes p' ! pid) = ClosedChannel" "removing p' = removing p"
      by blast
    with RemovePodSandbox_end_enabled [of p' uid pid] assms(2) show ?thesis
      by auto
  qed
qed

lemma RemovePodSandbox_can_return_witness:
  "\<exists>ls p ls' p' p''. nri_run demo_json (deviceConfigurators demo_json pod_kernel) ''devicenetwork.io'' demo_plugin ls p \<and>
     RemovePodSandbox_end p = None \<and> removing p \<noteq> None \<and>
     nri_run demo_json (deviceConfigurators demo_json pod_kernel) ''devicenetwork.io'' demo_plugin (ls @ ls') p' \<and>
     RemovePodSandbox_end p' = Some p''"
proof -
  let ?cfg = "deviceConfigurators demo_json pod_kernel"
  let ?run = "nri_run demo_json ?cfg ''devicenetwork.io'' demo_plugin"
  let ?p = "demo_running OpenChannel True (Configuring [demo_pod_claim])"
  have start: "?run ([PodRun ''pod-1''] @ [run_label 0 (demo_process NilChannel False Spawned)]) ?p"
    by (rule demo_run_process [OF demo_runs(1) demo_run_step(1)])
  obtain p where p: "RemovePodSandbox_begin demo_pod ?p = p" and rem: "removing p = Some (''pod-1'', 0)"
    and procs: "processes p = [demo_process OpenChannel False (Configuring [demo_pod_claim])]"
    by (simp add: RemovePodSandbox_begin_def demo_running_def demo_pod_def demo_process_def terminate_begin_def)
  have "removing ?p = None"
    by (simp add: demo_running_def demo_plugin_def NewPlugin_def)
  from run_more [OF start step_remove [OF this p]] obtain ls where run: "?run ls p"
    by blast
  have "\<forall>claim \<in> set (claims (processes p ! 0)). \<forall>st \<in> set (rc_Devices claim).
      ads_Driver st = ''devicenetwork.io'' \<longrightarrow> ads_NetworkData st \<noteq> None"
    by (simp add: procs demo_process_def demo_pod_claim_def demo_status_def)
  from RemovePodSandbox_can_return [OF run [unfolded demo_plugin_def] rem this] obtain ls' p' p'' where
    "?run (ls @ ls') p'" "RemovePodSandbox_end p' = Some p''"
    unfolding demo_plugin_def by blast
  moreover have "RemovePodSandbox_end p = None"
    using rem procs by (simp add: RemovePodSandbox_end_def terminate_waits_def demo_process_def)
  ultimately show ?thesis
    using run rem by blast
qed

text \<open>
  C35: a pod that is removed before its process has run its first statement is configured all the same:
  \<open>RemovePodSandbox\<close> finds nothing to wait for, returns and forgets the process, and the goroutine then
  starts on the claims of the removed pod.
\<close>

theorem removed_pod_is_configured_later:
  assumes "nri_run json configurators driver (NewPlugin m) ls p" and "removing p = None"
    and "configurationProcesses p (pod_Uid pod) = Some pid" and "phase (processes p ! pid) = Spawned"
  shows "\<exists>p1 p2. RemovePodSandbox_end (RemovePodSandbox_begin pod p) = Some p1 \<and>
    configurationProcesses p1 (pod_Uid pod) = None \<and> removing p1 = None \<and>
    nri_step json configurators driver p1 (RunAdvanced pid) p2 \<and>
    phase (processes p2 ! pid) = Configuring (claims (processes p ! pid))"
proof -
  from nri_inv_run [OF assms(1)] assms(3) have pid: "pid < length (processes p)"
    and "process_inv (processes p ! pid) (configured_claims pid ls)"
    by (auto simp: nri_inv_def)
  with assms(4) have nil: "cp_done (processes p ! pid) = NilChannel"
    by (simp add: process_inv_def)
  define p1 where "p1 = p\<lparr>processes := (processes p)[pid := terminate_begin (processes p ! pid)],
      configurationProcesses := (configurationProcesses p)(pod_Uid pod := None), removing := None\<rparr>"
  have e: "RemovePodSandbox_end (RemovePodSandbox_begin pod p) = Some p1"
    using assms(3) pid nil
    by (simp add: p1_def RemovePodSandbox_begin_def RemovePodSandbox_end_def terminate_waits_def terminate_begin_def)
  have p1: "processes p1 ! pid = terminate_begin (processes p ! pid)" "pid < length (processes p1)"
    "configurationProcesses p1 (pod_Uid pod) = None" "removing p1 = None"
    using pid by (simp_all add: p1_def)
  obtain cp where step: "run_step json configurators driver (processes p1 ! pid) (kernel_calls p1) = Some (cp, kernel_calls p1)"
    and cp: "phase cp = Configuring (claims (processes p ! pid))"
    using nil assms(4) by (simp add: p1(1) run_step_def terminate_waits_def terminate_begin_def)
  have label: "run_label pid (processes p1 ! pid) = RunAdvanced pid"
    using assms(4) by (simp add: p1(1) run_label_def terminate_begin_def)
  define p2 where "p2 = p1\<lparr>processes := (processes p1)[pid := cp], kernel_calls := kernel_calls p1\<rparr>"
  have "nri_step json configurators driver p1 (RunAdvanced pid) p2"
    using step_process [OF p1(2) step] unfolding label p2_def .
  moreover have "phase (processes p2 ! pid) = Configuring (claims (processes p ! pid))"
    using cp p1(2) by (simp add: p2_def)
  ultimately show ?thesis
    using e p1(3,4) by blast
qed

lemma removed_pod_is_configured_later_witness:
  "\<exists>p1 p2. RemovePodSandbox_end (RemovePodSandbox_begin demo_pod (demo_running NilChannel False Spawned)) = Some p1 \<and>
     configurationProcesses p1 ''pod-1'' = None \<and>
     phase (processes p2 ! 0) = Configuring [demo_pod_claim] \<and>
     nri_step demo_json (deviceConfigurators demo_json pod_kernel) ''devicenetwork.io'' p1 (RunAdvanced 0) p2"
proof -
  let ?p = "demo_running NilChannel False Spawned"
  have "removing ?p = None" "configurationProcesses ?p (pod_Uid demo_pod) = Some 0" "phase (processes ?p ! 0) = Spawned"
    by (simp_all add: demo_running_def demo_plugin_def NewPlugin_def demo_pod_def demo_process_def)
  from removed_pod_is_configured_later [OF demo_runs(1) [unfolded demo_plugin_def] this,
      of demo_json "deviceConfigurators demo_json pod_kernel"]
  show ?thesis
    by (auto simp: demo_running_def demo_process_def demo_pod_def)
qed

text \<open>
  The plugin never deletes from the store of claims. Whatever pods are run, started and removed,
  and however far their processes get, the store changes only when something else changes it; the
  claims of a removed pod stay.
\<close>

lemma plugin_keeps_the_store:
  assumes "nri_run json configurators driver p0 ls p" and "StoreChanged \<notin> set ls"
  shows "nri_store p = nri_store p0"
  using assms
proof (induction rule: nri_run.induct)
  case (run_more ls p l p')
  from run_more.hyps(2) run_more.prems have "nri_store p' = nri_store p"
    by (cases rule: nri_step.cases)
      (auto simp: RunPodSandbox_def StartContainer_def RemovePodSandbox_begin_def RemovePodSandbox_end_def
        Let_def split: if_splits option.splits)
  with run_more show ?case
    by simp
qed simp

lemma plugin_keeps_the_store_witness:
  "\<exists>p. nri_run demo_json (deviceConfigurators demo_json pod_kernel) ''devicenetwork.io'' demo_plugin
      [PodRun ''pod-1'', PodRemoveCalled ''pod-1'', PodRemoved ''pod-1'' 0] p \<and>
     Memory_Get ''pod-1'' (nri_store p) = [demo_pod_claim]"
proof -
  let ?run = "nri_run demo_json (deviceConfigurators demo_json pod_kernel) ''devicenetwork.io'' demo_plugin"
  let ?p = "demo_running NilChannel False Spawned"
  obtain p1 where p1: "RemovePodSandbox_begin demo_pod ?p = p1" and rem: "removing p1 = Some (''pod-1'', 0)"
    and procs: "processes p1 = [demo_process NilChannel False Spawned]"
    by (simp add: RemovePodSandbox_begin_def demo_running_def demo_pod_def demo_process_def terminate_begin_def)
  obtain p2 where p2: "RemovePodSandbox_end p1 = Some p2"
    using rem procs by (simp add: RemovePodSandbox_end_def terminate_waits_def demo_process_def)
  have none: "removing ?p = None"
    by (simp add: demo_running_def demo_plugin_def NewPlugin_def)
  from run_more [OF run_more [OF demo_runs(1) step_remove [OF none p1]] step_removed [OF rem p2]]
  have run: "?run [PodRun ''pod-1'', PodRemoveCalled ''pod-1'', PodRemoved ''pod-1'' 0] p2"
    by (simp add: demo_pod_def)
  from plugin_keeps_the_store [OF run] demo_plugin_claims run show ?thesis
    by auto
qed

end
