(* ===== verification/Node.thy ===== *)
theory Node
  imports Driver NriPlugin
begin

text \<open>
  One node: the DRA driver and the NRI plugin over the store of claims they share, in any interleaving of
  the preparations the kubelet asks for, the handlers the container runtime calls and the steps of the
  configuration goroutines. A preparation touches the shared store in its last statement only, so it is
  one step here. The events of the node are those of its parts, and the plugin sees a preparation as
  a change of the store.
\<close>

section \<open>The steps of a node\<close>

datatype node_event =
    ClaimPrepared ResourceClaim "KubeletDevice list" uid ResourceClaim
  | PrepareFailed ResourceClaim driver_error
  | PluginStep nri_label

text \<open>A successful preparation is known by the claim that the API server answered its request with, and by the
  pod it was stored for.\<close>

inductive node_step ::
  "driver_env \<Rightarrow> Driver \<Rightarrow> json_lib \<Rightarrow> (DeviceType \<rightharpoonup> Configurator) \<Rightarrow> string \<Rightarrow>
   driver_state \<times> Plugin \<Rightarrow> node_event \<Rightarrow> driver_state \<times> Plugin \<Rightarrow> bool"
  for env d json configurators driver where
  node_prepared: "nodePrepareResource env d claim s = (Ok devices, s') \<Longrightarrow>
    env_ApplyStatus env (applied s) (last (applied s')) = Inr stored \<Longrightarrow> ReservedFor stored = pod # others \<Longrightarrow>
    node_step env d json configurators driver (s, p) (ClaimPrepared claim devices pod stored)
      (s', p\<lparr>nri_store := podResourceStore s'\<rparr>)"
| node_failed: "nodePrepareResource env d claim s = (Err e, s') \<Longrightarrow>
    node_step env d json configurators driver (s, p) (PrepareFailed claim e) (s', p\<lparr>nri_store := podResourceStore s'\<rparr>)"
| node_plugin: "nri_step json configurators driver p l p' \<Longrightarrow> l \<noteq> StoreChanged \<Longrightarrow>
    node_step env d json configurators driver (s, p) (PluginStep l) (s, p')"

text \<open>Runs from the start of the program, when the store is empty.\<close>

inductive node_run ::
  "driver_env \<Rightarrow> Driver \<Rightarrow> json_lib \<Rightarrow> (DeviceType \<rightharpoonup> Configurator) \<Rightarrow> string \<Rightarrow>
   node_event list \<Rightarrow> driver_state \<times> Plugin \<Rightarrow> bool"
  for env d json configurators driver where
  node_start: "podResourceStore s = NewMemory \<Longrightarrow>
    node_run env d json configurators driver [] (s, NewPlugin NewMemory)"
| node_more: "node_run env d json configurators driver es sp \<Longrightarrow>
    node_step env d json configurators driver sp e sp' \<Longrightarrow>
    node_run env d json configurators driver (es @ [e]) sp'"

section \<open>The node as its parts see it\<close>

text \<open>The operations on the store, and the steps of the plugin.\<close>

definition store_ops :: "node_event list \<Rightarrow> store_op list" where
  "store_ops es =
     concat (map (\<lambda>e. case e of ClaimPrepared claim devices pod stored \<Rightarrow> [StoreAdd pod stored] | _ \<Rightarrow> []) es)"

definition plugin_events :: "node_event list \<Rightarrow> nri_label list" where
  "plugin_events es = map (\<lambda>e. case e of PluginStep l \<Rightarrow> l | _ \<Rightarrow> StoreChanged) es"

lemma events_simps [simp]:
  "store_ops [] = []" "store_ops (es @ [e]) =
     store_ops es @ (case e of ClaimPrepared claim devices pod stored \<Rightarrow> [StoreAdd pod stored] | _ \<Rightarrow> [])"
  "plugin_events [] = []" "plugin_events (es @ [e]) =
     plugin_events es @ [case e of PluginStep l \<Rightarrow> l | _ \<Rightarrow> StoreChanged]"
  by (simp_all add: store_ops_def plugin_events_def)

lemma prepare_store:
  assumes "nodePrepareResource env d claim s = (out, s')"
  shows "case out of
      Ok devices \<Rightarrow> \<exists>stored pod others. env_ApplyStatus env (applied s) (last (applied s')) = Inr stored \<and>
        ReservedFor stored = pod # others \<and> podResourceStore s' = Memory_Add pod stored (podResourceStore s)
    | _ \<Rightarrow> podResourceStore s' = podResourceStore s"
  using assms
  by (auto simp: nodePrepareResource_def Let_def split: if_splits option.splits prod.splits res.splits sum.splits list.splits)

text \<open>Every successful preparation is a step.\<close>

lemma prepared_steps:
  assumes "nodePrepareResource env d claim s = (Ok devices, s')"
  shows "\<exists>pod stored. node_step env d json configurators driver (s, p) (ClaimPrepared claim devices pod stored)
    (s', p\<lparr>nri_store := podResourceStore s'\<rparr>)"
proof -
  from prepare_store [OF assms] obtain stored pod others where
    "env_ApplyStatus env (applied s) (last (applied s')) = Inr stored" "ReservedFor stored = pod # others"
    by auto
  from node_prepared [OF assms this] show ?thesis
    by blast
qed

lemma plugin_store: "nri_step json configurators driver p l p' \<Longrightarrow> l \<noteq> StoreChanged \<Longrightarrow> nri_store p' = nri_store p"
  by (erule nri_stepE)
    (auto simp: RunPodSandbox_def StartContainer_def RemovePodSandbox_begin_def RemovePodSandbox_end_def
      Let_def split: if_splits option.splits)

lemma node_run_store:
  "node_run env d json configurators driver es (s, p) \<Longrightarrow>
    podResourceStore s = fold run_store_op (store_ops es) NewMemory \<and> nri_store p = podResourceStore s"
proof (induction es "(s, p)" arbitrary: s p rule: node_run.induct)
  case (node_more es sp e)
  obtain s0 p0 where sp: "sp = (s0, p0)"
    by fastforce
  from node_more(2) [OF sp] have IH: "podResourceStore s0 = fold run_store_op (store_ops es) NewMemory"
    "nri_store p0 = podResourceStore s0"
    by simp_all
  from node_more(3) [unfolded sp] show ?case
  proof (cases rule: node_step.cases)
    case (node_prepared claim devices stored pod others)
    with prepare_store [OF node_prepared(3)] IH show ?thesis
      by simp
  next
    case (node_failed claim e')
    with prepare_store [OF node_failed(3)] IH show ?thesis
      by simp
  next
    case (node_plugin l)
    with plugin_store IH show ?thesis
      by simp
  qed
qed (simp add: NewPlugin_def)

text \<open>To the plugin a run of the node is one of its own runs.\<close>

lemma node_run_plugin:
  "node_run env d json configurators driver es (s, p) \<Longrightarrow>
    nri_run json configurators driver (NewPlugin NewMemory) (plugin_events es) p"
proof (induction es "(s, p)" arbitrary: s p rule: node_run.induct)
  case (node_more es sp e)
  obtain s0 p0 where sp: "sp = (s0, p0)"
    by fastforce
  from node_more(3) [unfolded sp] have "nri_step json configurators driver p0 (last (plugin_events (es @ [e]))) p"
    by (cases rule: node_step.cases) (auto intro: step_store)
  with run_more [OF node_more(2) [OF sp]] show ?case
    by simp
qed (simp add: run_start)

section \<open>Where the claims of a process come from\<close>

definition pod_claims :: "configurationProcess \<Rightarrow> uid \<times> ResourceClaim list" where
  "pod_claims cp = (cp_pod cp, claims cp)"

lemma pod_claims_simps [simp]:
  "pod_claims (newConfigurationProcess pod ns cs) = (pod, cs)" "pod_claims (terminate_begin cp) = pod_claims cp"
  by (simp_all add: pod_claims_def newConfigurationProcess_def terminate_begin_def)

lemma run_step_pod_claims: "run_step json configurators driver cp h = Some (cp', h') \<Longrightarrow> pod_claims cp' = pod_claims cp"
  by (auto simp: run_step_def pod_claims_def terminate_begin_def
      split: phase.splits list.splits if_splits prod.splits res.splits)

lemma map_update_same: "f x = f (xs ! i) \<Longrightarrow> map f (xs[i := x]) = map f xs"
  by (cases "i < length xs") (simp_all add: map_update list_update_same_conv list_update_beyond)

lemma nri_step_pod_claims:
  assumes "nri_step json configurators driver p l p'"
  shows "map pod_claims (processes p') = map pod_claims (processes p) @
    (case l of PodRun pod \<Rightarrow>
       (if length (processes p') = length (processes p) then [] else [(pod, Memory_Get pod (nri_store p))])
     | _ \<Rightarrow> [])"
  using assms
  by (cases rule: nri_step.cases)
    (auto simp: RunPodSandbox_def StartContainer_def RemovePodSandbox_begin_def RemovePodSandbox_end_def run_label_def
      Let_def map_update_same run_step_pod_claims split: if_splits option.splits phase.splits list.splits)

text \<open>A process was made by the start of its pod, with what the store held for the pod then.\<close>

definition made_by :: "node_event list \<Rightarrow> uid \<times> ResourceClaim list \<Rightarrow> bool" where
  "made_by es pc \<longleftrightarrow> (\<exists>before after. es = before @ PluginStep (PodRun (fst pc)) # after \<and>
     snd pc = claims_of (fst pc) (store_ops before) [])"

lemma made_by_more: "made_by es pc \<Longrightarrow> made_by (es @ [e]) pc"
  unfolding made_by_def by (metis append_Cons append_assoc)

lemma node_run_made_by:
  "node_run env d json configurators driver es (s, p) \<Longrightarrow> cp \<in> set (processes p) \<Longrightarrow> made_by es (pod_claims cp)"
proof (induction es "(s, p)" arbitrary: s p cp rule: node_run.induct)
  case (node_more es sp e)
  obtain s0 p0 where sp: "sp = (s0, p0)"
    by fastforce
  note store = node_run_store [OF node_more(1) [unfolded sp]]
  have pc: "pod_claims cp \<in> set (map pod_claims (processes p))"
    using node_more(4) by simp
  have old: "made_by es pc" if "pc \<in> set (map pod_claims (processes p0))" for pc
    using that node_more(2) [OF sp] by auto
  from node_more(3) [unfolded sp] show ?case
  proof (cases rule: node_step.cases)
    case (node_plugin l)
    from pc nri_step_pod_claims [OF node_plugin(3)]
    consider "pod_claims cp \<in> set (map pod_claims (processes p0))"
      | (new) pod where "l = PodRun pod" "pod_claims cp = (pod, Memory_Get pod (nri_store p0))"
      by (auto split: nri_label.splits if_splits)
    then show ?thesis
    proof cases
      case new
      have "Memory_Get pod (nri_store p0) = claims_of pod (store_ops es) []"
        using store by (simp add: Memory_Get_run memory.get_empty)
      with new node_plugin(1) show ?thesis
        unfolding made_by_def by fastforce
    qed (blast intro: made_by_more old)
  qed (use pc in \<open>auto intro!: made_by_more old\<close>)
qed (simp add: NewPlugin_def)

text \<open>
  C6: the plugin configures for a pod exactly what the driver had prepared for it. In every interleaving of
  preparations, handlers and goroutines, each configuration process goes back to a start of its pod, and
  its claims are the claims that the driver had stored for that pod before that start: the API server's
  first answer for each claim, in the order of the preparations. What has been configured is a beginning
  of this list, and all of it once the process has closed its channel.
\<close>

theorem plugin_configures_what_was_prepared:
  assumes "node_run env d json configurators driver es (s, p)" and "pid < length (processes p)"
  shows "\<exists>before after rest. let pod = cp_pod (processes p ! pid) in
    es = before @ PluginStep (PodRun pod) # after \<and>
    configured_claims pid (plugin_events es) @ rest = claims_of pod (store_ops before) [] \<and>
    (cp_done (processes p ! pid) = ClosedChannel \<longrightarrow> rest = [])"
proof -
  let ?cp = "processes p ! pid"
  from node_run_made_by [OF assms(1), of ?cp] assms(2) obtain before after where
    es: "es = before @ PluginStep (PodRun (cp_pod ?cp)) # after" "claims ?cp = claims_of (cp_pod ?cp) (store_ops before) []"
    by (auto simp: made_by_def pod_claims_def)
  from nri_inv_run [OF node_run_plugin [OF assms(1)]] assms(2)
  have "process_inv ?cp (configured_claims pid (plugin_events es))"
    by (simp add: nri_inv_def)
  then obtain rest where "configured_claims pid (plugin_events es) @ rest = claims ?cp"
      "cp_done ?cp = ClosedChannel \<longrightarrow> rest = []"
    by (cases "phase ?cp") (auto simp: process_inv_def)
  with es show ?thesis
    unfolding Let_def by metis
qed

text \<open>A claim is prepared, then its pod is started.\<close>

lemma demo_node_run:
  "\<exists>kd stored s p. node_run demo_driver_env demo_driver (status_json demo_foreign) (deviceConfigurators (status_json demo_foreign) pod_kernel) ''devicenetwork.io''
       [ClaimPrepared demo_claim [kd] ''pod-1'' stored, PluginStep (PodRun ''pod-1'')] (s, p) \<and>
     length (processes p) = 1 \<and> cp_pod (processes p ! 0) = ''pod-1''"
proof -
  let ?cfg = "deviceConfigurators (status_json demo_foreign) pod_kernel"
  let ?run = "node_run demo_driver_env demo_driver (status_json demo_foreign) ?cfg ''devicenetwork.io''"
  let ?s = "empty_driver_state"
  obtain kd a where prep: "nodePrepareResource demo_driver_env demo_driver demo_claim ?s =
      (Ok [kd], ?s\<lparr>applied := applied ?s @ [apply_request demo_driver demo_claim [a]],
        podResourceStore := Memory_Add ''pod-1'' (demo_answer [a]) (podResourceStore ?s)\<rparr>)"
      (is "_ = (_, ?s1)")
    using demo_prepare [of ?s] by blast
  define stored where "stored = demo_answer [a]"
  define p1 where "p1 = (NewPlugin NewMemory)\<lparr>nri_store := podResourceStore ?s1\<rparr>"
  have "env_ApplyStatus demo_driver_env (applied ?s) (last (applied ?s1)) = Inr stored" "ReservedFor stored = ''pod-1'' # []"
    by (simp_all add: demo_driver_env_def apply_request_def stored_def demo_claim_def)
  from node_prepared [OF prep this]
  have "node_step demo_driver_env demo_driver (status_json demo_foreign) ?cfg ''devicenetwork.io'' (?s, NewPlugin NewMemory)
      (ClaimPrepared demo_claim [kd] ''pod-1'' stored) (?s1, p1)"
    unfolding p1_def .
  moreover have "?run [] (?s, NewPlugin NewMemory)"
    by (rule node_start) (simp add: empty_driver_state_def)
  ultimately have one: "?run [ClaimPrepared demo_claim [kd] ''pod-1'' stored] (?s1, p1)"
    using node_more by fastforce
  have get: "Memory_Get ''pod-1'' (nri_store p1) = [stored]"
    by (simp add: p1_def stored_def memory.get_add memory.get_empty empty_driver_state_def)
  define p2 where "p2 = snd (RunPodSandbox demo_pod p1)"
  have "nri_step (status_json demo_foreign) ?cfg ''devicenetwork.io'' p1 (PodRun (pod_Uid demo_pod)) p2"
    by (rule step_run_pod) (simp_all add: p2_def p1_def NewPlugin_def)
  then have "nri_step (status_json demo_foreign) ?cfg ''devicenetwork.io'' p1 (PodRun ''pod-1'') p2"
    by (simp add: demo_pod_def)
  from node_more [OF one node_plugin [OF this]] get show ?thesis
    by (intro exI [of _ kd] exI [of _ stored] exI [of _ ?s1] exI [of _ p2])
      (simp add: p2_def RunPodSandbox_def getNetworkNamespace_def demo_pod_def p1_def NewPlugin_def
        newConfigurationProcess_def)
qed

lemma plugin_configures_what_was_prepared_witness:
  "\<exists>kd stored s p. node_run demo_driver_env demo_driver (status_json demo_foreign) (deviceConfigurators (status_json demo_foreign) pod_kernel) ''devicenetwork.io''
       [ClaimPrepared demo_claim [kd] ''pod-1'' stored, PluginStep (PodRun ''pod-1'')] (s, p) \<and>
     length (processes p) = 1 \<and>
     (\<exists>rest. configured_claims 0 [StoreChanged, PodRun ''pod-1''] @ rest = [stored])"
proof -
  obtain kd stored s p where run: "node_run demo_driver_env demo_driver (status_json demo_foreign) (deviceConfigurators (status_json demo_foreign) pod_kernel)
      ''devicenetwork.io'' [ClaimPrepared demo_claim [kd] ''pod-1'' stored, PluginStep (PodRun ''pod-1'')] (s, p)"
    and procs: "length (processes p) = 1" "cp_pod (processes p ! 0) = ''pod-1''"
    using demo_node_run by blast
  then have "0 < length (processes p)"
    by simp
  from plugin_configures_what_was_prepared [OF run this] obtain before after rest where
    es: "[ClaimPrepared demo_claim [kd] ''pod-1'' stored, PluginStep (PodRun ''pod-1'')] =
        before @ PluginStep (PodRun ''pod-1'') # after"
    and rest: "configured_claims 0 (plugin_events [ClaimPrepared demo_claim [kd] ''pod-1'' stored,
        PluginStep (PodRun ''pod-1'')]) @ rest = claims_of ''pod-1'' (store_ops before) []"
    by (auto simp: procs(2) Let_def)
  from es have "before = [ClaimPrepared demo_claim [kd] ''pod-1'' stored]"
    by (cases before; cases "tl before") auto
  with rest have "configured_claims 0 [StoreChanged, PodRun ''pod-1''] @ rest = [stored]"
    by (simp add: store_ops_def plugin_events_def)
  with run procs(1) show ?thesis
    by blast
qed

end
