(* ===== verification/Reconciler.thy ===== *)
theory Reconciler
  imports Registry HostCache
begin

text \<open>
  What a node advertises: \<open>pkg/controllers/devicenetwork/reconciler.go\<close>. The listers, the matching
  of node selectors (\<open>k8s.io/component-helpers\<close>) and the publication are parameters. Go iterates
  over a map in an order of its own, so the order is a parameter too, a permutation that may be
  another one in every loop. One reconciliation sees one state of the device cache.
\<close>

record KubeNode =
  node_Name :: string
  node_Labels :: "string \<rightharpoonup> string"

record PublishedSlice =
  slice_Devices :: "KubeDevice list"
  slice_SharedCounters :: "KubeCounterSet list"

record DriverResources =
  Pools :: "string \<rightharpoonup> PublishedSlice list"

datatype reconcile_error =
    FailedToGetNode string liberr
  | FailedToListDeviceNetworks liberr
  | FailedToPublish liberr

record DeviceNetworkReconciler =
  nodeName :: string
  podNetworkKind :: string
  dnr_ListDevices :: "(listOption \<Rightarrow> listOption) list \<Rightarrow> HostDevice list"
  dnr_GetNode :: "string \<Rightarrow> liberr + KubeNode"
  dnr_ListDeviceNetworks :: "liberr + DeviceNetwork list"
  publishResourcesFunc :: "(DriverResources \<Rightarrow> liberr option) option"
  dnr_deviceConfigurators :: "DeviceType \<rightharpoonup> Configurator"

text \<open>The code outside the repository and the language: the constants of the multi-network API,
  the matching of node selectors, and the two iteration orders.\<close>

record reconciler_env =
  env_mn :: multinetwork_api
  env_MatchNodeSelectorTerms :: "KubeNode \<Rightarrow> NodeSelector \<Rightarrow> liberr + bool"
  env_device_order :: "DeviceNetwork \<Rightarrow> DeviceConfiguration \<Rightarrow> HostDevice list \<Rightarrow> HostDevice list"
  env_counter_order :: "string list \<Rightarrow> string list"

definition DeviceName :: "string \<Rightarrow> string \<Rightarrow> string \<Rightarrow> string" where
  "DeviceName deviceNetworkName deviceConfigurationName deviceName =
     deviceNetworkName @ ''-'' @ deviceConfigurationName @ ''-'' @ deviceName"

section \<open>The devices of a selector and of a configuration\<close>

text \<open>The first loop: the devices of every selector whose node selector, if any, matches.\<close>

fun deviceForSelector ::
  "reconciler_env \<Rightarrow> DeviceNetworkReconciler \<Rightarrow> KubeNode \<Rightarrow> DeviceSelector list \<Rightarrow>
   (string \<rightharpoonup> HostDevice list) \<Rightarrow> (string \<rightharpoonup> HostDevice list)" where
  "deviceForSelector env dnr node [] acc = acc"
| "deviceForSelector env dnr node (deviceSelector # rest) acc =
     (let found = acc(ds_Name deviceSelector \<mapsto>
            dnr_ListDevices dnr [WithSelectors (ds_Selectors deviceSelector)])
      in case ds_NodeSelector deviceSelector of
           None \<Rightarrow> deviceForSelector env dnr node rest found
         | Some nodeSelector \<Rightarrow>
             (case env_MatchNodeSelectorTerms env node nodeSelector of
                Inl _ \<Rightarrow> deviceForSelector env dnr node rest acc
              | Inr applyToNode \<Rightarrow>
                  if applyToNode then deviceForSelector env dnr node rest found
                  else deviceForSelector env dnr node rest acc))"

text \<open>A Go map with string keys, as the list of its entries.\<close>

fun map_put :: "string \<Rightarrow> 'v \<Rightarrow> (string \<times> 'v) list \<Rightarrow> (string \<times> 'v) list" where
  "map_put key v [] = [(key, v)]"
| "map_put key v ((key', v') # rest) =
     (if key' = key then (key, v) # rest else (key', v') # map_put key v rest)"

text \<open>The devices of the selectors a configuration names, by device name.\<close>

fun deviceForDeviceConfiguration ::
  "(string \<rightharpoonup> HostDevice list) \<Rightarrow> string list \<Rightarrow> (string \<times> HostDevice) list \<Rightarrow>
   (string \<times> HostDevice) list" where
  "deviceForDeviceConfiguration forSelector [] acc = acc"
| "deviceForDeviceConfiguration forSelector (selector # rest) acc =
     (case forSelector selector of
        None \<Rightarrow> deviceForDeviceConfiguration forSelector rest acc
      | Some devices \<Rightarrow>
          deviceForDeviceConfiguration forSelector rest
            (fold (\<lambda>dvc m. map_put (hd_Name dvc) dvc m) devices acc))"

section \<open>One device\<close>

definition with_attributes ::
  "multinetwork_api \<Rightarrow> DeviceNetworkReconciler \<Rightarrow> DeviceNetwork \<Rightarrow> DeviceConfiguration \<Rightarrow>
   HostDevice \<Rightarrow> KubeDevice \<Rightarrow> KubeDevice" where
  "with_attributes mn dnr deviceNetwork deviceConfiguration dvc resourceDevice =
     (let attrs = (case Attributes resourceDevice of None \<Rightarrow> Map.empty | Some m \<Rightarrow> m);
          str = (\<lambda>s. \<lparr>StringValue = Some s\<rparr>)
      in resourceDevice
           \<lparr>dev_Name := DeviceName (dn_Name deviceNetwork) (dc_Name deviceConfiguration) (hd_Name dvc),
            Attributes := Some (attrs
              (NetworkInterfaceAttributeDeviceType \<mapsto> str (GetDeviceType deviceConfiguration),
               NetworkInterfaceAttributePodNetwork mn \<mapsto> str (dn_Name deviceNetwork),
               NetworkInterfaceAttributePodNetworkKind mn \<mapsto> str (podNetworkKind dnr),
               NetworkInterfaceAttributeDeviceConfiguration \<mapsto> str (dc_Name deviceConfiguration),
               NetworkInterfaceAttributeHostDeviceName \<mapsto> str (hd_Name dvc)))\<rparr>)"

definition expose_device ::
  "reconciler_env \<Rightarrow> DeviceNetworkReconciler \<Rightarrow> Configurator \<Rightarrow> DeviceNetwork \<Rightarrow>
   DeviceConfiguration \<Rightarrow> HostDevice \<Rightarrow> (KubeDevice option, reconcile_error) res" where
  "expose_device env dnr configurator deviceNetwork deviceConfiguration dvc =
     (case IsSupported configurator (Some dvc) (Some deviceConfiguration) of
        Panic \<Rightarrow> Panic
      | Diverge \<Rightarrow> Diverge
      | Err _ \<Rightarrow> Ok None
      | Ok isSupported \<Rightarrow>
          if \<not> isSupported then Ok None
          else (case ExposedDevice configurator (Some dvc) None of
                  Panic \<Rightarrow> Panic
                | Diverge \<Rightarrow> Diverge
                | Err _ \<Rightarrow> Ok None
                | Ok None \<Rightarrow> Ok None
                | Ok (Some resourceDevice) \<Rightarrow>
                    Ok (Some (with_attributes (env_mn env) dnr deviceNetwork deviceConfiguration dvc
                                resourceDevice))))"

section \<open>The loops\<close>

text \<open>The accumulator: \<open>resourceDevices\<close> and \<open>counterSetDevices\<close>.\<close>

type_synonym exposed = "KubeDevice list \<times> string list"

fun expose_devices ::
  "reconciler_env \<Rightarrow> DeviceNetworkReconciler \<Rightarrow> Configurator \<Rightarrow> DeviceNetwork \<Rightarrow>
   DeviceConfiguration \<Rightarrow> HostDevice list \<Rightarrow> exposed \<Rightarrow> (exposed, reconcile_error) res" where
  "expose_devices env dnr c dn dc [] acc = Ok acc"
| "expose_devices env dnr c dn dc (dvc # rest) acc =
     (case expose_device env dnr c dn dc dvc of
        Ok None \<Rightarrow> expose_devices env dnr c dn dc rest acc
      | Ok (Some d) \<Rightarrow>
          expose_devices env dnr c dn dc rest (fst acc @ [d], List.insert (hd_Name dvc) (snd acc))
      | Err e \<Rightarrow> Err e
      | Panic \<Rightarrow> Panic
      | Diverge \<Rightarrow> Diverge)"

fun expose_configurations ::
  "reconciler_env \<Rightarrow> DeviceNetworkReconciler \<Rightarrow> (DeviceType \<rightharpoonup> Configurator) \<Rightarrow> DeviceNetwork \<Rightarrow>
   (string \<rightharpoonup> HostDevice list) \<Rightarrow> DeviceConfiguration list \<Rightarrow> exposed \<Rightarrow>
   (exposed, reconcile_error) res" where
  "expose_configurations env dnr configurators dn forSelector [] acc = Ok acc"
| "expose_configurations env dnr configurators dn forSelector (dc # rest) acc =
     (case configurators (GetDeviceType dc) of
        None \<Rightarrow> expose_configurations env dnr configurators dn forSelector rest acc
      | Some configurator \<Rightarrow>
          (let devices = map snd (deviceForDeviceConfiguration forSelector (dc_DeviceSelectors dc) [])
           in case expose_devices env dnr configurator dn dc (env_device_order env dn dc devices) acc of
                Ok acc' \<Rightarrow> expose_configurations env dnr configurators dn forSelector rest acc'
              | Err e \<Rightarrow> Err e
              | Panic \<Rightarrow> Panic
              | Diverge \<Rightarrow> Diverge))"

fun expose_networks ::
  "reconciler_env \<Rightarrow> DeviceNetworkReconciler \<Rightarrow> KubeNode \<Rightarrow> (DeviceType \<rightharpoonup> Configurator) \<Rightarrow>
   DeviceNetwork list \<Rightarrow> exposed \<Rightarrow> (exposed, reconcile_error) res" where
  "expose_networks env dnr node configurators [] acc = Ok acc"
| "expose_networks env dnr node configurators (dn # rest) acc =
     (let forSelector = deviceForSelector env dnr node (DeviceSelectors (Spec dn)) Map.empty
      in case expose_configurations env dnr configurators dn forSelector
                (DeviceConfigurations (Spec dn)) acc of
           Ok acc' \<Rightarrow> expose_networks env dnr node configurators rest acc'
         | Err e \<Rightarrow> Err e
         | Panic \<Rightarrow> Panic
         | Diverge \<Rightarrow> Diverge)"

definition counter_set :: "string \<Rightarrow> KubeCounterSet" where
  "counter_set deviceName =
     \<lparr>cs_Name = deviceName,
      cs_Counters = [mutual_exclusion \<mapsto> \<lparr>counter_Value = MustParse ''65536''\<rparr>]\<rparr>"

definition getResources ::
  "reconciler_env \<Rightarrow> DeviceNetworkReconciler \<Rightarrow> DeviceNetwork list \<Rightarrow> KubeNode \<Rightarrow>
   (DeviceType \<rightharpoonup> Configurator) \<Rightarrow> (DriverResources, reconcile_error) res" where
  "getResources env dnr deviceNetworks currentNode configurators =
     (case expose_networks env dnr currentNode configurators deviceNetworks ([], []) of
        Ok (resourceDevices, counterSetDevices) \<Rightarrow>
          Ok \<lparr>Pools = [node_Name currentNode \<mapsto>
                [\<lparr>slice_Devices = resourceDevices, slice_SharedCounters = []\<rparr>,
                 \<lparr>slice_Devices = [],
                  slice_SharedCounters = map counter_set (env_counter_order env counterSetDevices)\<rparr>]]\<rparr>
      | Err e \<Rightarrow> Err e
      | Panic \<Rightarrow> Panic
      | Diverge \<Rightarrow> Diverge)"

text \<open>The second component is what was handed to the publication.\<close>

definition Reconcile ::
  "reconciler_env \<Rightarrow> DeviceNetworkReconciler \<Rightarrow> (unit, reconcile_error) res \<times> DriverResources list" where
  "Reconcile env dnr =
     (case dnr_GetNode dnr (nodeName dnr) of
        Inl e \<Rightarrow> (Err (FailedToGetNode (nodeName dnr) e), [])
      | Inr node \<Rightarrow>
          (case dnr_ListDeviceNetworks dnr of
             Inl e \<Rightarrow> (Err (FailedToListDeviceNetworks e), [])
           | Inr deviceNetworks \<Rightarrow>
               (case getResources env dnr deviceNetworks node (dnr_deviceConfigurators dnr) of
                  Err e \<Rightarrow> (Err e, [])
                | Panic \<Rightarrow> (Panic, [])
                | Diverge \<Rightarrow> (Diverge, [])
                | Ok driverResources \<Rightarrow>
                    (case publishResourcesFunc dnr of
                       None \<Rightarrow> (Ok (), [])
                     | Some publish \<Rightarrow>
                         (case publish driverResources of
                            Some e \<Rightarrow> (Err (FailedToPublish e), [driverResources])
                          | None \<Rightarrow> (Ok (), [driverResources]))))))"

section \<open>What the loops collect\<close>

definition applies :: "reconciler_env \<Rightarrow> KubeNode \<Rightarrow> DeviceSelector \<Rightarrow> bool" where
  "applies env node s \<longleftrightarrow>
     (\<forall>ns. ds_NodeSelector s = Some ns \<longrightarrow> env_MatchNodeSelectorTerms env node ns = Inr True)"

definition selected :: "DeviceNetworkReconciler \<Rightarrow> DeviceSelector \<Rightarrow> HostDevice list" where
  "selected dnr s = dnr_ListDevices dnr [WithSelectors (ds_Selectors s)]"

text \<open>The host devices a configuration gets, from the declarations alone.\<close>

definition hosts_of ::
  "reconciler_env \<Rightarrow> DeviceNetworkReconciler \<Rightarrow> KubeNode \<Rightarrow> DeviceNetwork \<Rightarrow> DeviceConfiguration \<Rightarrow>
   HostDevice set" where
  "hosts_of env dnr node dn dc =
     (\<Union>s \<in> {s \<in> set (DeviceSelectors (Spec dn)). ds_Name s \<in> set (dc_DeviceSelectors dc) \<and> applies env node s}.
        set (selected dnr s))"

text \<open>The cache has one device per name, and iteration orders are permutations.\<close>

definition reconciler_ok :: "reconciler_env \<Rightarrow> DeviceNetworkReconciler \<Rightarrow> bool" where
  "reconciler_ok env dnr \<longleftrightarrow>
     inj_on hd_Name (\<Union>opts. set (dnr_ListDevices dnr opts)) \<and>
     (\<forall>dn dc. order_ok (env_device_order env dn dc)) \<and> order_ok (env_counter_order env)"

lemma deviceForSelector_fold:
  "deviceForSelector env dnr node ss acc =
     fold (\<lambda>s m. if applies env node s then m(ds_Name s \<mapsto> selected dnr s) else m) ss acc"
  by (induction ss arbitrary: acc)
    (auto simp: applies_def selected_def Let_def split: option.split sum.split)

lemma deviceForSelector_distinct:
  assumes "distinct (map ds_Name ss)"
  shows "deviceForSelector env dnr node ss Map.empty name = Some devs \<longleftrightarrow>
    (\<exists>s \<in> set ss. ds_Name s = name \<and> applies env node s \<and> devs = selected dnr s)"
proof -
  let ?f = "\<lambda>s m. if applies env node s then m(ds_Name s \<mapsto> selected dnr s) else m"
  have other: "name \<notin> ds_Name ` set ss \<Longrightarrow> fold ?f ss acc name = acc name" for ss acc
    by (induction ss arbitrary: acc) auto
  have "fold ?f ss acc name = Some devs \<longleftrightarrow>
      (if name \<in> ds_Name ` {s \<in> set ss. applies env node s}
       then \<exists>s \<in> set ss. ds_Name s = name \<and> applies env node s \<and> devs = selected dnr s
       else acc name = Some devs)" for acc
    using assms
  proof (induction ss arbitrary: acc)
    case (Cons s ss)
    show ?case
    proof (cases "ds_Name s = name")
      case True
      with Cons.prems have no: "name \<notin> ds_Name ` set ss"
        by auto
      then have "\<forall>s' \<in> set ss. ds_Name s' \<noteq> name"
        by blast
      with True other [OF no] show ?thesis
        by auto
    next
      case False
      with Cons.prems Cons.IH show ?thesis
        by auto
    qed
  qed simp
  from this [of Map.empty] show ?thesis
    unfolding deviceForSelector_fold by auto
qed

text \<open>Entries are keyed by the name of their device.\<close>

definition named_entries :: "(string \<times> HostDevice) list \<Rightarrow> bool" where
  "named_entries m \<longleftrightarrow> (\<forall>p \<in> set m. fst p = hd_Name (snd p)) \<and> distinct (map fst m)"

lemma named_entries_Cons:
  "named_entries ((k, v) # m) \<longleftrightarrow> k = hd_Name v \<and> k \<notin> fst ` set m \<and> named_entries m"
  by (auto simp: named_entries_def)

lemma map_put_keys: "fst ` set (map_put key v m) = insert key (fst ` set m)"
  by (induction key v m rule: map_put.induct) auto

lemma map_put_entries:
  assumes "named_entries m" and "inj_on hd_Name (insert d (snd ` set m))"
  shows "named_entries (map_put (hd_Name d) d m) \<and> snd ` set (map_put (hd_Name d) d m) = insert d (snd ` set m)"
  using assms
proof (induction "hd_Name d" d m rule: map_put.induct)
  case (2 v k' v' rest)
  show ?case
  proof (cases "k' = hd_Name v")
    case True
    from "2.prems"(1) have "k' = hd_Name v'"
      by (simp add: named_entries_def)
    with True have "hd_Name v = hd_Name v'"
      by simp
    from inj_onD [OF "2.prems"(2) this] have v: "v = v'"
      by simp
    with True have same: "map_put (hd_Name v) v ((k', v') # rest) = (k', v') # rest"
      by simp
    have "insert v (snd ` set ((k', v') # rest)) = snd ` set ((k', v') # rest)"
      unfolding v by (rule insert_absorb) simp
    with "2.prems"(1) show ?thesis
      unfolding same by blast
  next
    case False
    from "2.prems"(1) have n: "named_entries rest"
      by (simp add: named_entries_def)
    from "2.prems"(2) have "inj_on hd_Name (insert v (snd ` set rest))"
      by (rule inj_on_subset) auto
    from "2.hyps" [OF False n this] False "2.prems"(1) show ?thesis
      by (simp add: named_entries_Cons map_put_keys insert_commute) blast
  qed
qed (simp add: named_entries_def)

lemma fold_map_put_entries:
  assumes "named_entries m" and "inj_on hd_Name (set ds \<union> snd ` set m)"
  shows "named_entries (fold (\<lambda>d m. map_put (hd_Name d) d m) ds m) \<and>
    snd ` set (fold (\<lambda>d m. map_put (hd_Name d) d m) ds m) = set ds \<union> snd ` set m"
  using assms
proof (induction ds arbitrary: m)
  case (Cons d ds)
  from Cons.prems(2) have "inj_on hd_Name (insert d (snd ` set m))"
    by (rule inj_on_subset) auto
  note put = map_put_entries [OF Cons.prems(1) this]
  from Cons.prems(2) have "inj_on hd_Name (set ds \<union> snd ` set (map_put (hd_Name d) d m))"
    by (rule inj_on_subset) (use put in auto)
  from Cons.IH [OF _ this] put show ?case
    by auto
qed simp

lemma deviceForDeviceConfiguration_entries:
  assumes "named_entries m" and "inj_on hd_Name U" and "snd ` set m \<subseteq> U"
    and "\<And>sel devs. forSelector sel = Some devs \<Longrightarrow> set devs \<subseteq> U"
  shows "snd ` set (deviceForDeviceConfiguration forSelector sels m) =
    (\<Union>sel \<in> set sels. \<Union>devs \<in> {devs. forSelector sel = Some devs}. set devs) \<union> snd ` set m"
  using assms(1,3)
proof (induction sels arbitrary: m)
  case (Cons sel sels)
  show ?case
  proof (cases "forSelector sel")
    case None
    with Cons show ?thesis
      by auto
  next
    case (Some devs)
    with assms(4) Cons.prems(2) have sub: "set devs \<union> snd ` set m \<subseteq> U"
      by blast
    with assms(2) have "inj_on hd_Name (set devs \<union> snd ` set m)"
      by (rule inj_on_subset)
    note put = fold_map_put_entries [OF Cons.prems(1) this]
    from Cons.IH [of "fold (\<lambda>d m. map_put (hd_Name d) d m) devs m"] put sub Some show ?thesis
      by auto
  qed
qed simp

lemma configuration_hosts:
  assumes "reconciler_ok env dnr" and "distinct (map ds_Name (DeviceSelectors (Spec dn)))"
  shows "set (env_device_order env dn dc (map snd (deviceForDeviceConfiguration
      (deviceForSelector env dnr node (DeviceSelectors (Spec dn)) Map.empty) (dc_DeviceSelectors dc) []))) =
    hosts_of env dnr node dn dc"
proof -
  let ?sel = "deviceForSelector env dnr node (DeviceSelectors (Spec dn)) Map.empty"
  note iff = deviceForSelector_distinct [OF assms(2), of env dnr node]
  have "snd ` set (deviceForDeviceConfiguration ?sel (dc_DeviceSelectors dc) []) =
      (\<Union>sel \<in> set (dc_DeviceSelectors dc). \<Union>devs \<in> {devs. ?sel sel = Some devs}. set devs) \<union>
      snd ` set ([] :: (string \<times> HostDevice) list)"
  proof (rule deviceForDeviceConfiguration_entries)
    show "inj_on hd_Name (\<Union>opts. set (dnr_ListDevices dnr opts))"
      using assms(1) by (simp add: reconciler_ok_def)
    show "set devs \<subseteq> (\<Union>opts. set (dnr_ListDevices dnr opts))" if "?sel sel = Some devs" for sel devs
      using that by (auto simp: iff selected_def)
  qed (simp_all add: named_entries_def)
  also have "\<dots> = hosts_of env dnr node dn dc"
    by (auto simp: iff hosts_of_def)
  finally show ?thesis
    using assms(1) by (simp add: reconciler_ok_def order_ok_set)
qed

section \<open>What is exposed\<close>

text \<open>\<open>b\<close> has, after \<open>a\<close>, the devices \<open>D\<close> and the counter sets of the devices \<open>N\<close> more.\<close>

definition grows :: "exposed \<Rightarrow> exposed \<Rightarrow> KubeDevice set \<Rightarrow> string set \<Rightarrow> bool" where
  "grows a b D N \<longleftrightarrow>
     (\<exists>devs. fst b = fst a @ devs \<and> set devs = D) \<and> set (snd b) = set (snd a) \<union> N \<and>
     (distinct (snd a) \<longrightarrow> distinct (snd b))"

lemma grows_refl: "grows a a {} {}"
  by (simp add: grows_def)

lemma grows_trans: "grows a b D N \<Longrightarrow> grows b c D' N' \<Longrightarrow> grows a c (D \<union> D') (N \<union> N')"
  by (fastforce simp: grows_def)

lemma grows_device: "grows a (fst a @ [d], List.insert n (snd a)) {d} {n}"
  by (simp add: grows_def)

text \<open>A host device a configurator exposes for a configuration, and how.\<close>

definition exposes ::
  "reconciler_env \<Rightarrow> DeviceNetworkReconciler \<Rightarrow> (DeviceType \<rightharpoonup> Configurator) \<Rightarrow> DeviceNetwork \<Rightarrow>
   DeviceConfiguration \<Rightarrow> HostDevice \<Rightarrow> KubeDevice \<Rightarrow> bool" where
  "exposes env dnr configurators dn dc host dev \<longleftrightarrow>
     (\<exists>c d. configurators (GetDeviceType dc) = Some c \<and> IsSupported c (Some host) (Some dc) = Ok True \<and>
        ExposedDevice c (Some host) None = Ok (Some d) \<and>
        dev = with_attributes (env_mn env) dnr dn dc host d)"

definition advertised ::
  "reconciler_env \<Rightarrow> DeviceNetworkReconciler \<Rightarrow> KubeNode \<Rightarrow> (DeviceType \<rightharpoonup> Configurator) \<Rightarrow>
   DeviceNetwork list \<Rightarrow> DeviceNetwork \<Rightarrow> DeviceConfiguration \<Rightarrow> HostDevice \<Rightarrow> KubeDevice \<Rightarrow> bool" where
  "advertised env dnr node configurators dns dn dc host dev \<longleftrightarrow>
     dn \<in> set dns \<and> dc \<in> set (DeviceConfigurations (Spec dn)) \<and> host \<in> hosts_of env dnr node dn dc \<and>
     exposes env dnr configurators dn dc host dev"

context configurator_registry
begin

lemma expose_device_answers:
  assumes "configurators (GetDeviceType dc) = Some c"
  shows "\<exists>out. expose_device env dnr c dn dc dvc = Ok out \<and>
    (\<forall>dev. out = Some dev \<longleftrightarrow> exposes env dnr configurators dn dc dvc dev)"
proof -
  note contract = registered [OF assms]
  obtain b where b: "IsSupported c (Some dvc) (Some dc) = Ok b"
    using configurator_contract.supported_answers [OF contract] by blast
  obtain d where "ExposedDevice c (Some dvc) None = Ok (Some d)"
    using configurator_contract.exposed [OF contract] by blast
  with b assms show ?thesis
    by (auto simp: expose_device_def exposes_def)
qed

lemma expose_devices_grows:
  assumes "configurators (GetDeviceType dc) = Some c"
  shows "\<exists>acc'. expose_devices env dnr c dn dc ds acc = Ok acc' \<and>
    grows acc acc' {dev. \<exists>h \<in> set ds. exposes env dnr configurators dn dc h dev}
      {hd_Name h | h. h \<in> set ds \<and> (\<exists>dev. exposes env dnr configurators dn dc h dev)}"
proof (induction ds arbitrary: acc)
  case Nil
  then show ?case
    using grows_refl by simp
next
  case (Cons h ds)
  let ?D = "\<lambda>ds. {dev. \<exists>h \<in> set ds. exposes env dnr configurators dn dc h dev}"
  let ?N = "\<lambda>ds. {hd_Name h | h. h \<in> set ds \<and> (\<exists>dev. exposes env dnr configurators dn dc h dev)}"
  obtain out where out: "expose_device env dnr c dn dc h = Ok out"
    and iff: "\<And>dev. out = Some dev \<longleftrightarrow> exposes env dnr configurators dn dc h dev"
    using expose_device_answers [OF assms] by blast
  show ?case
  proof (cases out)
    case None
    with iff have "?D (h # ds) = ?D ds" and "?N (h # ds) = ?N ds"
      by auto
    with Cons.IH [of acc] out None show ?thesis
      by simp
  next
    case (Some d)
    have E: "exposes env dnr configurators dn dc h dev \<longleftrightarrow> dev = d" for dev
      using iff [of dev, symmetric] Some by auto
    then have D: "?D (h # ds) = {d} \<union> ?D ds" and N: "?N (h # ds) = {hd_Name h} \<union> ?N ds"
      by auto
    from Cons.IH [of "(fst acc @ [d], List.insert (hd_Name h) (snd acc))"] obtain acc' where
      "expose_devices env dnr c dn dc ds (fst acc @ [d], List.insert (hd_Name h) (snd acc)) = Ok acc'"
      "grows (fst acc @ [d], List.insert (hd_Name h) (snd acc)) acc' (?D ds) (?N ds)"
      by blast
    with grows_trans [OF grows_device] out Some show ?thesis
      unfolding D N by auto
  qed
qed

lemma expose_configurations_grows:
  assumes "\<And>dc. dc \<in> set dcs \<Longrightarrow>
    set (env_device_order env dn dc (map snd (deviceForDeviceConfiguration forSelector (dc_DeviceSelectors dc) []))) = H dc"
  shows "\<exists>acc'. expose_configurations env dnr configurators dn forSelector dcs acc = Ok acc' \<and>
    grows acc acc' {dev. \<exists>dc \<in> set dcs. \<exists>h \<in> H dc. exposes env dnr configurators dn dc h dev}
      {hd_Name h | h. \<exists>dc \<in> set dcs. h \<in> H dc \<and> (\<exists>dev. exposes env dnr configurators dn dc h dev)}"
  using assms
proof (induction dcs arbitrary: acc)
  case Nil
  then show ?case
    using grows_refl by simp
next
  case (Cons dc dcs)
  let ?E = "exposes env dnr configurators dn"
  let ?D = "\<lambda>dcs. {dev. \<exists>dc \<in> set dcs. \<exists>h \<in> H dc. ?E dc h dev}"
  let ?N = "\<lambda>dcs. {hd_Name h | h. \<exists>dc \<in> set dcs. h \<in> H dc \<and> (\<exists>dev. ?E dc h dev)}"
  show ?case
  proof (cases "configurators (GetDeviceType dc)")
    case None
    then have "?D (dc # dcs) = ?D dcs" and "?N (dc # dcs) = ?N dcs"
      by (auto simp: exposes_def)
    with Cons None show ?thesis
      by simp
  next
    case (Some c)
    let ?ds = "env_device_order env dn dc (map snd (deviceForDeviceConfiguration forSelector (dc_DeviceSelectors dc) []))"
    have H: "set ?ds = H dc"
      using Cons.prems by simp
    from expose_devices_grows [OF Some, of env dnr dn ?ds acc] H obtain acc1 where
      one: "expose_devices env dnr c dn dc ?ds acc = Ok acc1"
        "grows acc acc1 {dev. \<exists>h \<in> H dc. ?E dc h dev} {hd_Name h | h. h \<in> H dc \<and> (\<exists>dev. ?E dc h dev)}"
      by auto
    from Cons obtain acc2 where
      rest: "expose_configurations env dnr configurators dn forSelector dcs acc1 = Ok acc2"
        "grows acc1 acc2 (?D dcs) (?N dcs)"
      by fastforce
    have D: "?D (dc # dcs) = {dev. \<exists>h \<in> H dc. ?E dc h dev} \<union> ?D dcs"
      and N: "?N (dc # dcs) = {hd_Name h | h. h \<in> H dc \<and> (\<exists>dev. ?E dc h dev)} \<union> ?N dcs"
      by auto
    show ?thesis
      unfolding D N using grows_trans [OF one(2) rest(2)] Some one(1) rest(1) by auto
  qed
qed

lemma expose_networks_grows:
  assumes "reconciler_ok env dnr"
    and "\<forall>dn \<in> set dns. distinct (map ds_Name (DeviceSelectors (Spec dn)))"
  shows "\<exists>acc'. expose_networks env dnr node configurators dns acc = Ok acc' \<and>
    grows acc acc' {dev. \<exists>dn dc h. advertised env dnr node configurators dns dn dc h dev}
      {hd_Name h | h. \<exists>dn dc dev. advertised env dnr node configurators dns dn dc h dev}"
  using assms(2)
proof (induction dns arbitrary: acc)
  case Nil
  then show ?case
    using grows_refl by (simp add: advertised_def)
next
  case (Cons dn dns)
  let ?A = "advertised env dnr node configurators"
  let ?D = "\<lambda>dns. {dev. \<exists>dn dc h. ?A dns dn dc h dev}"
  let ?N = "\<lambda>dns. {hd_Name h | h. \<exists>dn dc dev. ?A dns dn dc h dev}"
  let ?H = "hosts_of env dnr node dn"
  let ?E = "exposes env dnr configurators dn"
  let ?D1 = "{dev. \<exists>dc \<in> set (DeviceConfigurations (Spec dn)). \<exists>h \<in> ?H dc. ?E dc h dev}"
  let ?N1 = "{hd_Name h | h. \<exists>dc \<in> set (DeviceConfigurations (Spec dn)). h \<in> ?H dc \<and> (\<exists>dev. ?E dc h dev)}"
  have "distinct (map ds_Name (DeviceSelectors (Spec dn)))"
    using Cons.prems by simp
  from expose_configurations_grows [OF configuration_hosts [OF assms(1) this]] obtain acc1 where
    one: "expose_configurations env dnr configurators dn
        (deviceForSelector env dnr node (DeviceSelectors (Spec dn)) Map.empty)
        (DeviceConfigurations (Spec dn)) acc = Ok acc1"
      "grows acc acc1 ?D1 ?N1"
    by blast
  from Cons obtain acc2 where
    rest: "expose_networks env dnr node configurators dns acc1 = Ok acc2" "grows acc1 acc2 (?D dns) (?N dns)"
    by fastforce
  have D: "?D (dn # dns) = ?D1 \<union> ?D dns" and N: "?N (dn # dns) = ?N1 \<union> ?N dns"
    by (auto simp: advertised_def)
  show ?case
    unfolding D N using grows_trans [OF one(2) rest(2)] one(1) rest(1) by (auto simp: Let_def)
qed

lemma getResources_spec:
  assumes "reconciler_ok env dnr"
    and "\<forall>dn \<in> set dns. distinct (map ds_Name (DeviceSelectors (Spec dn)))"
  shows "\<exists>devs names. getResources env dnr dns node configurators =
      Ok \<lparr>Pools = [node_Name node \<mapsto>
           [\<lparr>slice_Devices = devs, slice_SharedCounters = []\<rparr>,
            \<lparr>slice_Devices = [], slice_SharedCounters = map counter_set names\<rparr>]]\<rparr> \<and>
    set devs = {dev. \<exists>dn dc h. advertised env dnr node configurators dns dn dc h dev} \<and>
    set names = {hd_Name h | h. \<exists>dn dc dev. advertised env dnr node configurators dns dn dc h dev} \<and>
    distinct names"
proof -
  from expose_networks_grows [OF assms, of node "([], [])"] obtain devs names where
    run: "expose_networks env dnr node configurators dns ([], []) = Ok (devs, names)"
    and sets: "set devs = {dev. \<exists>dn dc h. advertised env dnr node configurators dns dn dc h dev}"
      "set names = {hd_Name h | h. \<exists>dn dc dev. advertised env dnr node configurators dns dn dc h dev}"
      "distinct names"
    by (auto simp: grows_def)
  have "mset (env_counter_order env names) = mset names"
    using assms(1) by (simp add: reconciler_ok_def order_ok_def)
  with sets(2,3) have "set (env_counter_order env names) = set names" "distinct (env_counter_order env names)"
    by (metis mset_eq_setD, metis mset_eq_imp_distinct_iff)
  with run sets show ?thesis
    by (intro exI [of _ devs] exI [of _ "env_counter_order env names"]) (simp add: getResources_def)
qed

lemma expose_networks_answers: "\<exists>acc'. expose_networks env dnr node configurators dns acc = Ok acc'"
proof (induction dns arbitrary: acc)
  case (Cons dn dns)
  from expose_configurations_grows [OF refl] obtain acc1 where
    "expose_configurations env dnr configurators dn
       (deviceForSelector env dnr node (DeviceSelectors (Spec dn)) Map.empty)
       (DeviceConfigurations (Spec dn)) acc = Ok acc1"
    by blast
  with Cons.IH [of acc1] show ?case
    by (simp add: Let_def)
qed simp

lemma getResources_answers: "\<exists>res. getResources env dnr dns node configurators = Ok res"
  using expose_networks_answers [of env dnr node dns "([], [])"]
  by (auto simp: getResources_def)

lemma advertised_consumes_own_counter:
  assumes "advertised env dnr node configurators dns dn dc h dev"
  shows "ConsumesCounters dev = [consumption (hd_Name h) (share (GetDeviceType dc))]"
proof -
  from assms obtain c d where "configurators (GetDeviceType dc) = Some c"
    "ExposedDevice c (Some h) None = Ok (Some d)" "dev = with_attributes (env_mn env) dnr dn dc h d"
    by (auto simp: advertised_def exposes_def)
  with registered_exposed [of "GetDeviceType dc" c h "Some d"] show ?thesis
    by (simp add: with_attributes_def Let_def)
qed

end

section \<open>What a node advertises\<close>

text \<open>The device cache behind \<open>dnr_ListDevices\<close> gives each device under one name.\<close>

lemma apply_selectors_subset:
  assumes "order_ok unsorted"
  shows "set (apply_selectors cel unsorted sels ds) \<subseteq> set ds"
proof (induction sels arbitrary: ds)
  case (Cons s sels)
  have sub: "set out \<subseteq> set ds" if "EvalDevices cel e (unsorted ds) = Ok out" for e out
    using EvalDevices_OkD [OF that] by (auto simp: order_ok_set [OF assms])
  show ?case
  proof (cases "CEL s")
    case None
    with Cons show ?thesis
      by simp
  next
    case (Some c)
    show ?thesis
    proof (cases "EvalDevices cel (Expression c) (unsorted ds)")
      case (Ok out)
      from Some Ok have "apply_selectors cel unsorted (s # sels) ds = apply_selectors cel unsorted sels out"
        by simp
      with sub [OF Ok] Cons.IH [of out] show ?thesis
        by auto
    qed (use Some Cons.IH [of ds] in simp_all)
  qed
qed simp

lemma DeviceCache_List_subset:
  assumes "informer_store_ok S" and "order_ok unsorted" and "store_matches S st m"
  shows "set (DeviceCache_List S cel unsorted st opts) \<subseteq> ran m"
proof -
  have "set (listed_devices (st_List S st)) = ran m"
    using assms(3) by (auto simp: set_listed_devices informer_store_okD(4) [OF assms(1)]
        store_matches_def ran_def)
  with apply_selectors_subset [OF assms(2)] show ?thesis
    by (fastforce simp: DeviceCache_List_def Let_def order_ok_set [OF assms(2)])
qed

lemma reconciler_ok_of_cache:
  assumes "informer_store_ok S" and "order_ok unsorted" and "cache_inv S dc"
    and "dnr_ListDevices dnr = DeviceCache_List S cel unsorted (store dc)"
    and "\<And>dn c. order_ok (env_device_order env dn c)" and "order_ok (env_counter_order env)"
  shows "reconciler_ok env dnr"
proof -
  have "inj_on hd_Name (ran (snapshot dc))"
    using cache_invD(1) [OF assms(3)] by (auto simp: inj_on_def ran_def)
  moreover have "(\<Union>opts. set (dnr_ListDevices dnr opts)) \<subseteq> ran (snapshot dc)"
    using DeviceCache_List_subset [OF assms(1,2) cache_inv_matches [OF assms(3)]] by (auto simp: assms(4))
  ultimately show ?thesis
    using assms(5,6) by (auto simp: reconciler_ok_def intro: inj_on_subset)
qed

text \<open>
  C8: a reconciliation always produces resources: one pool, named after the node, with the exposed
  form of exactly the host devices that a declared configuration selects and its configurator supports,
  and the counter sets, each once, of exactly these host devices. Every advertised device draws on
  one counter set, and this set is published with it.
\<close>

theorem getResources_advertises:
  assumes "reconciler_ok env dnr"
    and "\<forall>dn \<in> set dns. distinct (map ds_Name (DeviceSelectors (Spec dn)))"
  shows "\<exists>devs names. getResources env dnr dns node (deviceConfigurators json k) =
      Ok \<lparr>Pools = [node_Name node \<mapsto>
           [\<lparr>slice_Devices = devs, slice_SharedCounters = []\<rparr>,
            \<lparr>slice_Devices = [], slice_SharedCounters = map counter_set names\<rparr>]]\<rparr> \<and>
    set devs = {dev. \<exists>dn dc h. advertised env dnr node (deviceConfigurators json k) dns dn dc h dev} \<and>
    set names = {hd_Name h | h. \<exists>dn dc dev. advertised env dnr node (deviceConfigurators json k) dns dn dc h dev} \<and>
    distinct names \<and>
    (\<forall>dev \<in> set devs. \<exists>name \<in> set names. \<exists>q. ConsumesCounters dev = [consumption name q])"
proof -
  from run_configurators.getResources_spec [where node = node and json = json and k = k,
      OF assms]
  obtain devs names where
    run: "getResources env dnr dns node (deviceConfigurators json k) =
      Ok \<lparr>Pools = [node_Name node \<mapsto>
           [\<lparr>slice_Devices = devs, slice_SharedCounters = []\<rparr>,
            \<lparr>slice_Devices = [], slice_SharedCounters = map counter_set names\<rparr>]]\<rparr>"
    and devs: "set devs = {dev. \<exists>dn dc h. advertised env dnr node (deviceConfigurators json k) dns dn dc h dev}"
    and names: "set names = {hd_Name h | h. \<exists>dn dc dev. advertised env dnr node (deviceConfigurators json k) dns dn dc h dev}"
    and dist: "distinct names"
    by (elim exE conjE) (rule that; assumption)
  have "\<forall>dev \<in> set devs. \<exists>name \<in> set names. \<exists>q. ConsumesCounters dev = [consumption name q]"
  proof
    fix dev
    assume "dev \<in> set devs"
    with devs obtain dn dc h where adv: "advertised env dnr node (deviceConfigurators json k) dns dn dc h dev"
      by blast
    then have "hd_Name h \<in> set names"
      using names by blast
    with run_configurators.advertised_consumes_own_counter [OF adv]
    show "\<exists>name \<in> set names. \<exists>q. ConsumesCounters dev = [consumption name q]"
      by blast
  qed
  with run devs names dist show ?thesis
    by (intro exI [of _ devs] exI [of _ names] conjI)
qed

definition demo_node :: KubeNode where
  "demo_node = \<lparr>node_Name = ''node-a'', node_Labels = Map.empty\<rparr>"

definition demo_env :: reconciler_env where
  "demo_env =
     \<lparr>env_mn = demo_multinetwork_api,
      env_MatchNodeSelectorTerms = (\<lambda>node sel. Inr (NodeSelectorTerms sel \<noteq> [])),
      env_device_order = (\<lambda>dn dc. rev), env_counter_order = rev\<rparr>"

definition demo_cache :: "(string \<times> HostDevice) list DeviceCache" where
  "demo_cache = \<lparr>snapshot = [''eth0'' \<mapsto> demo_host], store = [(''eth0'', demo_host)],
     events = [Added demo_host], calls = []\<rparr>"

definition demo_reconciler :: DeviceNetworkReconciler where
  "demo_reconciler =
     \<lparr>nodeName = ''node-a'', podNetworkKind = ''devicenetwork-io-devicenetwork'',
      dnr_ListDevices = DeviceCache_List list_store demo_cel rev (store demo_cache),
      dnr_GetNode = (\<lambda>name. Inr demo_node), dnr_ListDeviceNetworks = Inr [],
      publishResourcesFunc = None, dnr_deviceConfigurators = Map.empty\<rparr>"

definition demo_blue :: DeviceNetwork where
  "demo_blue =
     \<lparr>dn_Name = ''blue'',
      Spec = \<lparr>DeviceSelectors = [\<lparr>ds_Name = ''all'', ds_Selectors = [], ds_NodeSelector = None\<rparr>],
              DeviceConfigurations = [demo_hostdev_config, demo_macvlan_config],
              spec_NetworkInterfaceConfiguration = \<lparr>nic_IPAM = []\<rparr>\<rparr>\<rparr>"

lemma demo_cache_inv: "cache_inv list_store demo_cache"
  by (simp add: cache_inv_def demo_cache_def store_matches_def list_store_def replay_def device_of_def
      demo_host_def kind_def GroupVersion_String_def)

lemma demo_reconciler_ok: "reconciler_ok demo_env demo_reconciler"
  by (rule reconciler_ok_of_cache [OF list_store_ok order_ok_id(2) demo_cache_inv, where cel = demo_cel])
    (simp_all add: demo_env_def demo_reconciler_def)

lemma demo_hosts:
  assumes "dc \<in> {demo_hostdev_config, demo_macvlan_config}"
  shows "hosts_of demo_env demo_reconciler demo_node demo_blue dc = {demo_host}"
proof -
  have "dc_DeviceSelectors dc = [''all'']"
    using assms by (auto simp: demo_hostdev_config_def demo_macvlan_config_def)
  moreover have "selected demo_reconciler \<lparr>ds_Name = ''all'', ds_Selectors = [], ds_NodeSelector = None\<rparr> = [demo_host]"
    by (simp add: selected_def demo_reconciler_def DeviceCache_List_def WithSelectors_def listed_devices_def
        list_store_def demo_cache_def)
  ultimately show ?thesis
    by (simp add: hosts_of_def demo_blue_def applies_def)
qed

lemma demo_exposed:
  "IsSupported (HostDevice_Configurator json k run_HostDevice) (Some demo_host) (Some demo_hostdev_config) = Ok True"
  "IsSupported (Macvlan_Configurator json k run_Macvlan) (Some demo_host) (Some demo_macvlan_config) = Ok True"
  by (simp_all add: HostDevice_Configurator_def HostDevice_IsSupported_def Macvlan_Configurator_def
      Macvlan_IsSupported_def GetMacvlan_def macvlanModeMap_def macvlan_mode_defs demo_simps)

lemma demo_advertised:
  "\<exists>dev. advertised demo_env demo_reconciler demo_node (deviceConfigurators json k) [demo_blue]
     demo_blue demo_hostdev_config demo_host dev"
proof -
  have "demo_hostdev_config \<in> set (DeviceConfigurations (Spec demo_blue))"
    by (simp add: demo_blue_def)
  moreover have "GetDeviceType demo_hostdev_config = DeviceTypeHostDevice"
    by (simp add: GetDeviceType_def demo_hostdev_config_def)
  ultimately show ?thesis
    using demo_exposed(1) HostDevice_ExposedDevice_new [of demo_host] demo_hosts [of demo_hostdev_config]
    by (auto simp: advertised_def exposes_def HostDevice_Configurator_def)
qed

lemma getResources_advertises_witness:
  "\<exists>devs names. getResources demo_env demo_reconciler [demo_blue] demo_node
       (deviceConfigurators demo_json pod_kernel) =
      Ok \<lparr>Pools = [node_Name demo_node \<mapsto>
           [\<lparr>slice_Devices = devs, slice_SharedCounters = []\<rparr>,
            \<lparr>slice_Devices = [], slice_SharedCounters = map counter_set names\<rparr>]]\<rparr> \<and>
     devs \<noteq> [] \<and> set names = {''eth0''}"
proof -
  let ?cfg = "deviceConfigurators demo_json pod_kernel"
  have "\<forall>dn \<in> set [demo_blue]. distinct (map ds_Name (DeviceSelectors (Spec dn)))"
    by (simp add: demo_blue_def)
  from getResources_advertises [OF demo_reconciler_ok this, of demo_node demo_json pod_kernel]
  obtain devs names where
    run: "getResources demo_env demo_reconciler [demo_blue] demo_node ?cfg =
      Ok \<lparr>Pools = [node_Name demo_node \<mapsto>
           [\<lparr>slice_Devices = devs, slice_SharedCounters = []\<rparr>,
            \<lparr>slice_Devices = [], slice_SharedCounters = map counter_set names\<rparr>]]\<rparr>"
    and devs: "set devs = {dev. \<exists>dn dc h. advertised demo_env demo_reconciler demo_node ?cfg [demo_blue] dn dc h dev}"
    and names: "set names = {hd_Name h | h. \<exists>dn dc dev. advertised demo_env demo_reconciler demo_node ?cfg [demo_blue] dn dc h dev}"
    by (elim exE conjE) (rule that; assumption)
  have "h = demo_host" if "advertised demo_env demo_reconciler demo_node ?cfg [demo_blue] dn dc h dev" for dn dc h dev
  proof -
    from that have "dn = demo_blue" "dc \<in> {demo_hostdev_config, demo_macvlan_config}"
      and h: "h \<in> hosts_of demo_env demo_reconciler demo_node dn dc"
      by (auto simp: advertised_def demo_blue_def)
    with demo_hosts show ?thesis
      by simp
  qed
  with demo_advertised [of demo_json pod_kernel]
  have "(\<exists>dn dc dev. advertised demo_env demo_reconciler demo_node ?cfg [demo_blue] dn dc h dev) \<longleftrightarrow> h = demo_host" for h
    by (intro iffI) blast+
  then have "set names = {hd_Name demo_host}"
    by (simp add: names)
  moreover have "devs \<noteq> []"
    using devs demo_advertised by (metis (mono_tags, lifting) empty_iff list.set(1) mem_Collect_eq)
  moreover have "hd_Name demo_host = ''eth0''"
    by (simp add: demo_host_def)
  ultimately show ?thesis
    using run by (intro exI [of _ devs] exI [of _ names]) simp
qed

lemma split_at_dash:
  assumes "CHR ''-'' \<notin> set a" and "CHR ''-'' \<notin> set a'"
  shows "a @ CHR ''-'' # x = a' @ CHR ''-'' # x' \<longleftrightarrow> a = a' \<and> x = x'"
proof -
  have "takeWhile (\<lambda>c. c \<noteq> CHR ''-'') (a @ CHR ''-'' # x) = a" if "CHR ''-'' \<notin> set a" for a x
    using that by (induction a) auto
  with assms show ?thesis
    by (metis list.inject same_append_eq)
qed

text \<open>
  The name a device is advertised under identifies network, configuration and host device when
  neither of the first two names contains a hyphen; in general it does not: moving a hyphenated part
  from the name of the network to the name of the configuration gives the same device name.
\<close>

theorem DeviceName_identifies:
  "(CHR ''-'' \<notin> set dn \<union> set dn' \<union> set dc \<union> set dc' \<longrightarrow>
      (DeviceName dn dc h = DeviceName dn' dc' h' \<longleftrightarrow> dn = dn' \<and> dc = dc' \<and> h = h')) \<and>
   DeviceName (dn @ ''-'' @ a) b h = DeviceName dn (a @ ''-'' @ b) h"
  by (auto simp: DeviceName_def split_at_dash)

lemma DeviceName_identifies_witness:
  "DeviceName ''blue'' ''hostdev'' ''eth0'' \<noteq> DeviceName ''blue'' ''macvlan'' ''eth0'' \<and>
   DeviceName ''a-b'' ''c'' ''d'' = DeviceName ''a'' ''b-c'' ''d''"
  using DeviceName_identifies [of "''blue''" "''blue''" "''hostdev''" "''macvlan''" "''eth0''" "''eth0''"]
    DeviceName_identifies [of "''a''" "''a''" "''b''" "''b''" "''d''" "''d''" "''b''" "''c''"]
  by simp

end
