(* ===== verification/Controller.thy ===== *)
theory Controller
  imports Reconciler
begin

text \<open>
  The controller, \<open>pkg/controllers/devicenetwork/devicenetwork.go\<close>: every event of a DeviceNetwork or
  of a host device queues one and the same item, and every item taken reconciles the whole node. The
  reconciler is an interface there; its state is the list of what has been published.
\<close>

type_synonym 's reconcile_fun = "'s \<Rightarrow> (unit, reconcile_error) res \<times> 's"

text \<open>The handlers of both informers, for additions, updates and deletions alike.\<close>

definition onEvent :: "queue_op list" where
  "onEvent = [QAdd ''Event'']"

definition Controller_processNextWorkItem ::
  "'s reconcile_fun \<Rightarrow> string option \<Rightarrow> 's \<Rightarrow> bool \<times> queue_op list \<times> 's" where
  "Controller_processNextWorkItem reconcile item s =
     (case item of
        None \<Rightarrow> (False, [], s)
      | Some key \<Rightarrow>
          (case reconcile s of
             (Ok _, s') \<Rightarrow> (True, [QForget key, QDone key], s')
           | (Err _, s') \<Rightarrow> (True, [QAddRateLimited key, QDone key], s')
           | (Panic, s') \<Rightarrow> (False, [QDone key], s')
           | (Diverge, s') \<Rightarrow> (False, [], s')))"

definition Controller_runWorker ::
  "'s reconcile_fun \<Rightarrow> string option list \<Rightarrow> 's \<Rightarrow> queue_op list \<times> 's" where
  "Controller_runWorker reconcile = run_worker (Controller_processNextWorkItem reconcile)"

text \<open>The reconciler of the program behind the interface, with the configurators of \<open>run.go\<close>.\<close>

definition run_reconciler ::
  "json_lib \<Rightarrow> kernel \<Rightarrow> DeviceNetworkReconciler \<Rightarrow> DeviceNetworkReconciler" where
  "run_reconciler json k dnr = dnr\<lparr>dnr_deviceConfigurators := deviceConfigurators json k\<rparr>"

definition reconcile_log ::
  "reconciler_env \<Rightarrow> DeviceNetworkReconciler \<Rightarrow> DriverResources list reconcile_fun" where
  "reconcile_log env dnr log = (let (out, published) = Reconcile env dnr in (out, log @ published))"

definition reconcile_key ::
  "reconciler_env \<Rightarrow> DeviceNetworkReconciler \<Rightarrow> string \<Rightarrow> DriverResources list \<Rightarrow>
   bool \<times> DriverResources list" where
  "reconcile_key env dnr key log =
     (is_ok (fst (Reconcile env dnr)), log @ snd (Reconcile env dnr))"

lemma Reconcile_no_panic:
  "fst (Reconcile env (run_reconciler json k dnr)) \<noteq> Panic"
  "fst (Reconcile env (run_reconciler json k dnr)) \<noteq> Diverge"
proof -
  have "\<exists>res. getResources env (run_reconciler json k dnr) dns node (deviceConfigurators json k) = Ok res"
    for dns node
    by (rule run_configurators.getResources_answers)
  then have "getResources env (run_reconciler json k dnr) dns node
      (dnr_deviceConfigurators (run_reconciler json k dnr)) \<notin> {Panic, Diverge}" for dns node
    by (simp add: run_reconciler_def) (metis res.distinct(3,5))
  then show "fst (Reconcile env (run_reconciler json k dnr)) \<noteq> Panic"
    "fst (Reconcile env (run_reconciler json k dnr)) \<noteq> Diverge"
    by (auto simp: Reconcile_def split: split_results)
qed

interpretation controller_worker: work_loop
  "Controller_processNextWorkItem (reconcile_log env (run_reconciler json k dnr))"
  "reconcile_key env (run_reconciler json k dnr)"
proof unfold_locales
  let ?process = "Controller_processNextWorkItem (reconcile_log env (run_reconciler json k dnr))"
  let ?sync = "reconcile_key env (run_reconciler json k dnr)"
  show "?process None s = (False, [], s)" for s
    by (simp add: Controller_processNextWorkItem_def)
  show "?process (Some key) s =
      (True, [if fst (?sync key s) then QForget key else QAddRateLimited key, QDone key], snd (?sync key s))"
    for key s
    using Reconcile_no_panic [of env json k dnr]
    by (cases "fst (Reconcile env (run_reconciler json k dnr))")
      (simp_all add: Controller_processNextWorkItem_def reconcile_log_def reconcile_key_def
        case_prod_beta Let_def)
qed

lemma failing_reconciles:
  "failing_keys (reconcile_key env dnr) keys log = (if is_ok (fst (Reconcile env dnr)) then [] else keys)"
  by (induction keys arbitrary: log) (simp_all add: reconcile_key_def)

lemma reconciled_log:
  "sync_keys (reconcile_key env dnr) keys log = log @ concat (replicate (length keys) (snd (Reconcile env dnr)))"
  by (induction keys arbitrary: log) (simp_all add: reconcile_key_def)

text \<open>
  While the cluster and the host stay as they are, the worker reconciles the node once per item
  and reports every item as done; when the reconciliation works nothing is queued again, and when
  it fails every item is.
\<close>

theorem Controller_runWorker_reconciles:
  "let dnr' = run_reconciler json k dnr;
       (ops, log) = Controller_runWorker (reconcile_log env dnr') items []
   in done_keys ops = taken items \<and>
      retried_keys ops = (if is_ok (fst (Reconcile env dnr')) then [] else taken items) \<and>
      log = concat (replicate (length (taken items)) (snd (Reconcile env dnr')))"
  unfolding Controller_runWorker_def Let_def case_prod_beta
    controller_worker.run_worker_done controller_worker.run_worker_retried
    controller_worker.run_worker_state failing_reconciles reconciled_log
  by simp

end
