(* ===== verification/Informer.thy ===== *)
theory Informer
  imports HostCache
begin

text \<open>
  The cache together with its synthetic informer, \<open>NewDeviceCache\<close> of \<open>pkg/host/cache.go\<close>. A
  synchronisation writes the informer's store itself and broadcasts an event; the informer receives
  the event later, through the channel of its watch, and writes the store a second time. The channel
  holds 1000 events; an event for a full channel is dropped.

  The informer is client-go's: its write is the parameter \<open>reflect\<close> with the documented law
  \<open>reflects\<close> (after an event the store has the event's object, or none after a deletion). The
  informer lists and watches before the workers start, on an empty cache.
\<close>

section \<open>The constructor\<close>

record DeviceList =
  dl_Kind :: string
  dl_APIVersion :: string
  Items :: "HostDevice list"

definition watch_capacity :: nat where
  "watch_capacity = 1000"

definition NewDeviceCache :: "'s \<Rightarrow> 's DeviceCache" where
  "NewDeviceCache emptyStore = \<lparr>snapshot = Map.empty, store = emptyStore, events = [], calls = []\<rparr>"

text \<open>What the informer lists: the cache's own \<open>List\<close>.\<close>

definition ListWithContext ::
  "'s informer_store \<Rightarrow> cel_lib \<Rightarrow> (HostDevice list \<Rightarrow> HostDevice list) \<Rightarrow> 's DeviceCache \<Rightarrow> DeviceList" where
  "ListWithContext S cel unsorted dc =
     \<lparr>dl_Kind = kind, dl_APIVersion = GroupVersion_String,
      Items = DeviceCache_List S cel unsorted (store dc) []\<rparr>"

section \<open>The steps\<close>

text \<open>A broadcast, \<open>DropIfChannelFull\<close>.\<close>

definition deliver :: "watch_event list \<Rightarrow> watch_event \<Rightarrow> watch_event list" where
  "deliver channel e = (if length channel < watch_capacity then channel @ [e] else channel)"

record 's cache_system =
  sys_cache :: "'s DeviceCache"
  undelivered :: "watch_event list"

datatype system_label =
    Synced string "HostDevice option"
  | SyncedAndDropped string "HostDevice option"
  | SyncFailed string
  | Reflected

text \<open>A synchronisation that failed has put nothing into the channel: the failure is the store's,
  before the broadcast, or the broadcaster's, which did not take the event.\<close>

inductive system_step ::
  "'s informer_store \<Rightarrow> (watch_event \<Rightarrow> 's \<Rightarrow> 's) \<Rightarrow> broadcaster \<Rightarrow> kernel \<Rightarrow> string \<Rightarrow>
   's cache_system \<Rightarrow> system_label \<Rightarrow> 's cache_system \<Rightarrow> bool"
  for S reflect action k root where
  step_sync: "syncDevice S action k root key (sys_cache s) = (Ok (), dc') \<Longrightarrow>
    new = drop (length (events (sys_cache s))) (events dc') \<Longrightarrow>
    channel = fold (\<lambda>e ch. deliver ch e) new (undelivered s) \<Longrightarrow>
    obs = observed k (calls (sys_cache s)) root key \<Longrightarrow>
    system_step S reflect action k root s
      (if channel = undelivered s @ new then Synced key obs else SyncedAndDropped key obs)
      \<lparr>sys_cache = dc', undelivered = channel\<rparr>"
| step_failed: "syncDevice S action k root key (sys_cache s) = (Err e, dc') \<Longrightarrow>
    system_step S reflect action k root s (SyncFailed key) (s\<lparr>sys_cache := dc'\<rparr>)"
| step_reflect: "undelivered s = e # rest \<Longrightarrow>
    system_step S reflect action k root s Reflected
      \<lparr>sys_cache = (sys_cache s)\<lparr>store := reflect e (store (sys_cache s))\<rparr>, undelivered = rest\<rparr>"

inductive system_run ::
  "'s informer_store \<Rightarrow> (watch_event \<Rightarrow> 's \<Rightarrow> 's) \<Rightarrow> broadcaster \<Rightarrow> kernel \<Rightarrow> string \<Rightarrow>
   's cache_system \<Rightarrow> system_label list \<Rightarrow> 's cache_system \<Rightarrow> bool"
  for S reflect action k root s0 where
  sys_start: "system_run S reflect action k root s0 [] s0"
| sys_more: "system_run S reflect action k root s0 ls s \<Longrightarrow> system_step S reflect action k root s l s' \<Longrightarrow>
    system_run S reflect action k root s0 (ls @ [l]) s'"

definition new_system :: "'s \<Rightarrow> 's cache_system" where
  "new_system emptyStore = \<lparr>sys_cache = NewDeviceCache emptyStore, undelivered = []\<rparr>"

section \<open>Laws and specification\<close>

definition reflects :: "'s informer_store \<Rightarrow> (watch_event \<Rightarrow> 's \<Rightarrow> 's) \<Rightarrow> bool" where
  "reflects S reflect \<longleftrightarrow>
     (\<forall>e st name. st_GetByKey S name (reflect e st) =
        (case e of
           Added d \<Rightarrow> if name = hd_Name d then Inr (Some (DeviceObj d)) else st_GetByKey S name st
         | Modified d \<Rightarrow> if name = hd_Name d then Inr (Some (DeviceObj d)) else st_GetByKey S name st
         | Deleted d \<Rightarrow> if name = hd_Name d then Inr None else st_GetByKey S name st))"

text \<open>What the kernel answered the last time an interface was synchronised.\<close>

fun last_observed :: "string \<Rightarrow> system_label list \<Rightarrow> HostDevice option \<Rightarrow> HostDevice option" where
  "last_observed name [] obs = obs"
| "last_observed name (Synced key obs' # ls) obs = last_observed name ls (if key = name then obs' else obs)"
| "last_observed name (SyncedAndDropped key obs' # ls) obs = last_observed name ls (if key = name then obs' else obs)"
| "last_observed name (_ # ls) obs = last_observed name ls obs"

lemma last_observed_append [simp]:
  "last_observed name (ls @ ls') obs = last_observed name ls' (last_observed name ls obs)"
  by (induction name ls obs rule: last_observed.induct) auto

lemma last_observed_Reflected [simp]: "last_observed name (replicate n Reflected) obs = obs"
  by (induction n) auto

section \<open>The invariant\<close>

text \<open>Applying what is still in the channel to what the store holds gives the snapshot.\<close>

definition system_inv :: "'s informer_store \<Rightarrow> 's cache_system \<Rightarrow> bool" where
  "system_inv S s \<longleftrightarrow>
     (\<forall>key d. snapshot (sys_cache s) key = Some d \<longrightarrow> d = device_of key (hd_Spec d)) \<and>
     (\<exists>m. store_matches S (store (sys_cache s)) m \<and>
        fold apply_event (undelivered s) m = snapshot (sys_cache s))"

fun event_key :: "watch_event \<Rightarrow> string" where
  "event_key (Added d) = hd_Name d"
| "event_key (Modified d) = hd_Name d"
| "event_key (Deleted d) = hd_Name d"

fun event_value :: "watch_event \<Rightarrow> HostDevice option" where
  "event_value (Added d) = Some d"
| "event_value (Modified d) = Some d"
| "event_value (Deleted d) = None"

lemma apply_event_upd: "apply_event e m = m(event_key e := event_value e)"
  by (cases e) auto

lemma fold_apply_agree:
  "(\<And>x. x \<noteq> key \<Longrightarrow> m x = m' x) \<Longrightarrow> x \<noteq> key \<Longrightarrow>
   fold apply_event es m x = fold apply_event es m' x"
proof (induction es arbitrary: m m')
  case (Cons e es)
  show ?case
    unfolding fold_Cons comp_def
    by (rule Cons.IH) (use Cons.prems in \<open>auto simp: apply_event_upd\<close>)
qed simp

lemma apply_event_late:
  "apply_event e (fold apply_event es (apply_event e m)) = apply_event e (fold apply_event es m)"
proof
  fix x
  show "apply_event e (fold apply_event es (apply_event e m)) x = apply_event e (fold apply_event es m) x"
    using fold_apply_agree [of "event_key e" "apply_event e m" m x es] by (auto simp: apply_event_upd)
qed

lemma fold_deliver_once:
  assumes "length new \<le> 1"
  shows "fold (\<lambda>e ch. deliver ch e) new ch = ch @ new \<or>
    new \<noteq> [] \<and> fold (\<lambda>e ch. deliver ch e) new ch = ch \<and> watch_capacity \<le> length ch"
  using assms by (cases new) (auto simp: deliver_def)

lemma fold_change_late:
  "fold apply_event (change_event old new) (fold apply_event es (fold apply_event (change_event old new) m)) =
   fold apply_event (change_event old new) (fold apply_event es m)"
  by (auto simp: change_event_def apply_event_late simp del: apply_event.simps split: option.split)

lemma reflects_matches:
  assumes "reflects S reflect" and "store_matches S st m"
  shows "store_matches S (reflect e st) (apply_event e m)"
  using assms by (cases e) (auto simp: reflects_def store_matches_def)

lemma system_inv_step:
  assumes S: "informer_store_ok S" and R: "reflects S reflect" and k: "link_names_ok k"
    and inv: "system_inv S s" and step: "system_step S reflect action k root s l s'"
    and l: "l = Reflected \<or> (\<exists>key obs. l = Synced key obs)"
  shows "system_inv S s' \<and>
    (\<forall>name. snapshot (sys_cache s') name = last_observed name [l] (snapshot (sys_cache s) name))"
  using step
proof cases
  case (step_sync key dc' new channel obs)
  let ?c = "sys_cache s"
  from inv obtain m where m: "store_matches S (store ?c) m"
    "fold apply_event (undelivered s) m = snapshot ?c"
    and wf: "\<And>key d. snapshot ?c key = Some d \<Longrightarrow> d = device_of key (hd_Spec d)"
    by (auto simp: system_inv_def)
  from syncDevice_Ok [OF S k wf m(1) step_sync(3), unfolded sync_effect_def Let_def] step_sync(6)
  have f: "snapshot dc' = (snapshot ?c)(key := obs)"
    "events dc' = events ?c @ change_event (snapshot ?c key) obs"
    "store_matches S (store dc') (fold apply_event (change_event (snapshot ?c key) obs) m)"
    by auto
  from step_sync(1,4,5) l f(2) have ch: "channel = undelivered s @ change_event (snapshot ?c key) obs"
    and lbl: "l = Synced key obs"
    by (auto split: if_splits)
  have nm: "hd_Name d = key" if "snapshot ?c key = Some d" for d
    using wf [OF that] by (metis device_of_simps(1))
  have nm': "hd_Name d = key" if "obs = Some d" for d
    using observed_device_of [OF k] that step_sync(6) by (metis device_of_simps(1))
  have "fold apply_event channel (fold apply_event (change_event (snapshot ?c key) obs) m) = snapshot dc'"
    using apply_change_event [of "snapshot ?c" key obs] nm nm'
    by (simp add: ch fold_change_late m(2) f(1))
  moreover have "\<forall>key' d. snapshot dc' key' = Some d \<longrightarrow> d = device_of key' (hd_Spec d)"
    using wf observed_device_of [OF k] step_sync(6) by (auto simp: f(1))
  ultimately show ?thesis
    using f(3) by (auto simp: system_inv_def step_sync(2) lbl f(1))
next
  case (step_reflect e rest)
  with inv show ?thesis
    using reflects_matches [OF R] by (fastforce simp: system_inv_def)
qed (use l in auto)

lemma system_inv_new:
  assumes "store_matches S emptyStore Map.empty"
  shows "system_inv S (new_system emptyStore)"
  using assms by (auto simp: system_inv_def new_system_def NewDeviceCache_def)

lemma system_inv_run:
  assumes "informer_store_ok S" and "reflects S reflect" and "link_names_ok k"
    and "system_run S reflect action k root (new_system emptyStore) ls s"
    and "store_matches S emptyStore Map.empty"
    and "\<forall>l \<in> set ls. l = Reflected \<or> (\<exists>key obs. l = Synced key obs)"
  shows "system_inv S s \<and> (\<forall>name. snapshot (sys_cache s) name = last_observed name ls None)"
  using assms(4,6)
proof (induction rule: system_run.induct)
  case sys_start
  show ?case
    using system_inv_new [OF assms(5)] by (simp add: new_system_def NewDeviceCache_def)
next
  case (sys_more ls s l s')
  then have inv: "system_inv S s" "\<forall>name. snapshot (sys_cache s) name = last_observed name ls None"
    and l: "l = Reflected \<or> (\<exists>key obs. l = Synced key obs)"
    by auto
  from system_inv_step [OF assms(1-3) inv(1) sys_more.hyps(2) l] inv(2) show ?case
    by simp
qed

text \<open>
  C10: when the informer has caught up, the cache is right. As long as no synchronisation failed and no
  event was dropped, in every interleaving of the synchronisations with the informer's own writes, the
  store of an informer that has received everything gives for each interface what the kernel answered
  the last time the interface was synchronised; and while it has not, applying the events still in the
  channel would give that.
\<close>

theorem caught_up_cache_is_current:
  assumes "informer_store_ok S" and "reflects S reflect" and "link_names_ok k"
    and "store_matches S emptyStore Map.empty"
    and "system_run S reflect action k root (new_system emptyStore) ls s"
    and "\<forall>l \<in> set ls. l = Reflected \<or> (\<exists>key obs. l = Synced key obs)"
  shows "(undelivered s = [] \<longrightarrow> DeviceCache_Get S (store (sys_cache s)) name =
      (case last_observed name ls None of None \<Rightarrow> Err (DeviceNotFound name) | Some d \<Rightarrow> Ok d)) \<and>
    (\<exists>m. store_matches S (store (sys_cache s)) m \<and>
      (\<forall>name. fold apply_event (undelivered s) m name = last_observed name ls None))"
proof -
  from system_inv_run [OF assms(1-3,5,4,6)] obtain m where
    m: "store_matches S (store (sys_cache s)) m" "fold apply_event (undelivered s) m = snapshot (sys_cache s)"
    and obs: "\<forall>name. snapshot (sys_cache s) name = last_observed name ls None"
    by (auto simp: system_inv_def)
  have "DeviceCache_Get S (store (sys_cache s)) name =
      (case last_observed name ls None of None \<Rightarrow> Err (DeviceNotFound name) | Some d \<Rightarrow> Ok d)"
    if "undelivered s = []"
    using Get_of_store_matches [OF m(1), of name] m(2) obs that by simp
  with m obs show ?thesis
    by auto
qed

section \<open>Reads while events are under way\<close>

text \<open>The demonstration informer over the demonstration store, and a host whose interface gets a
  master between its two synchronisations.\<close>

definition list_reflect :: "watch_event \<Rightarrow> (string \<times> HostDevice) list \<Rightarrow> (string \<times> HostDevice) list" where
  "list_reflect e st =
     (let rest = filter (\<lambda>p. fst p \<noteq> event_key e) st in
      case event_value e of None \<Rightarrow> rest | Some d \<Rightarrow> (event_key e, d) # rest)"

lemma list_reflects: "reflects list_store list_reflect"
proof -
  have filt: "map_of (filter (\<lambda>p. fst p \<noteq> n) s) k = (if k = n then None else map_of s k)"
    for n k and s :: "(string \<times> HostDevice) list"
    by (induction s) auto
  show ?thesis
    by (auto simp: reflects_def list_store_def list_reflect_def filt split: watch_event.split)
qed

definition moving_kernel :: kernel where
  "moving_kernel = demo_kernel
     \<lparr>k_LinkByName := (\<lambda>h name. if name = ''eth0''
        then Inr (if h = [] then demo_link else demo_link\<lparr>link_MasterIndex := 7\<rparr>)
        else Inl LinkNotFoundError)\<rparr>"

definition demo_device :: "int \<Rightarrow> HostDevice" where
  "demo_device master = device_of ''eth0''
     \<lparr>InterfaceName = ''eth0'', InterfaceIndex = 2, RDMACapable = True, ParentIndex = 0,
      MasterIndex = master, LinkLayerType = ''ether'', hs_DeviceType = ''device''\<rparr>"

lemma demo_device_simps [simp]: "hd_Name (demo_device i) = ''eth0''" "demo_device i = demo_device j \<longleftrightarrow> i = j"
  by (auto simp: demo_device_def device_of_def)

lemma buildDevice_demo:
  "buildDevice (k_ReadDir demo_kernel h) DefaultSysfsNetRoot (demo_link\<lparr>link_MasterIndex := i\<rparr>) = demo_device i"
  "buildDevice (k_ReadDir demo_kernel h) DefaultSysfsNetRoot demo_link = demo_device 0"
  by (simp_all add: buildDevice_def demo_kernel_def demo_link_def demo_device_def device_of_def
      isRDMACapable_def RDMADevicesForNetdev_def Let_def)

text \<open>One synchronisation of the interface as a step, on the demonstration store.\<close>

lemma list_sync_found:
  assumes "k_LinkByName k (calls dc) ''eth0'' = Inr link"
    and "buildDevice (k_ReadDir k (calls dc @ [LinkByName ''eth0''])) root link = d" and "hd_Name d = ''eth0''"
  shows "syncDevice list_store (\<lambda>evs e. None) k root ''eth0'' dc =
    (Ok (), dc\<lparr>calls := calls dc @ [LinkByName ''eth0'', ReadDir (ib_root root (link_Name link))],
       snapshot := (snapshot dc)(''eth0'' \<mapsto> d),
       store := (case snapshot dc ''eth0'' of
           Some d' \<Rightarrow> if hd_Spec d' = hd_Spec d then store dc else (''eth0'', d) # filter (\<lambda>p. fst p \<noteq> ''eth0'') (store dc)
         | None \<Rightarrow> (''eth0'', d) # filter (\<lambda>p. fst p \<noteq> ''eth0'') (store dc)),
       events := events dc @ (case snapshot dc ''eth0'' of
           Some d' \<Rightarrow> if hd_Spec d' = hd_Spec d then [] else [Modified d]
         | None \<Rightarrow> [Added d])\<rparr>)"
  using assms
  by (auto simp: syncDevice_def Let_def store_and_broadcast_def list_store_def split: option.split)

lemma list_sync_gone:
  assumes "k_LinkByName k (calls dc) ''eth0'' = Inl LinkNotFoundError"
    and "snapshot dc ''eth0'' = Some d" and "hd_Name d = ''eth0''"
  shows "syncDevice list_store (\<lambda>evs e. None) k root ''eth0'' dc =
    (Ok (), dc\<lparr>calls := calls dc @ [LinkByName ''eth0''], snapshot := (snapshot dc)(''eth0'' := None),
       store := filter (\<lambda>p. fst p \<noteq> ''eth0'') (store dc), events := events dc @ [Deleted d]\<rparr>)"
  using assms by (auto simp: syncDevice_def Let_def store_and_broadcast_def list_store_def)

definition demo_step ::
  "kernel \<Rightarrow> (string \<times> HostDevice) list cache_system \<Rightarrow> system_label \<Rightarrow>
   (string \<times> HostDevice) list cache_system \<Rightarrow> bool" where
  "demo_step k = system_step list_store list_reflect (\<lambda>evs e. None) k DefaultSysfsNetRoot"

definition demo_run ::
  "kernel \<Rightarrow> (string \<times> HostDevice) list cache_system \<Rightarrow> system_label list \<Rightarrow>
   (string \<times> HostDevice) list cache_system \<Rightarrow> bool" where
  "demo_run k = system_run list_store list_reflect (\<lambda>evs e. None) k DefaultSysfsNetRoot"

lemma demo_sync:
  assumes "syncDevice list_store (\<lambda>evs e. None) k DefaultSysfsNetRoot key dc = (Ok (), dc')"
    and "events dc' = events dc @ new" and "length new \<le> 1" and "length ch < watch_capacity"
    and "observed k (calls dc) DefaultSysfsNetRoot key = obs"
  shows "demo_step k \<lparr>sys_cache = dc, undelivered = ch\<rparr> (Synced key obs) \<lparr>sys_cache = dc', undelivered = ch @ new\<rparr>"
proof -
  have "fold (\<lambda>e ch. deliver ch e) new ch = ch @ new"
    using fold_deliver_once [OF assms(3), of ch] assms(4) by auto
  with assms show ?thesis
    unfolding demo_step_def
    using step_sync [of list_store "\<lambda>evs e. None" k DefaultSysfsNetRoot key "\<lparr>sys_cache = dc, undelivered = ch\<rparr>" dc'
        new "ch @ new" obs list_reflect]
    by simp
qed

lemma demo_reflect:
  "demo_step k \<lparr>sys_cache = dc, undelivered = e # rest\<rparr> Reflected
     \<lparr>sys_cache = dc\<lparr>store := list_reflect e (store dc)\<rparr>, undelivered = rest\<rparr>"
  unfolding demo_step_def
  using step_reflect [of "\<lparr>sys_cache = dc, undelivered = e # rest\<rparr>" e rest] by simp

lemma moving_kernel_simps:
  "link_Name demo_link = ''eth0''" "hd_Spec (demo_device 0) \<noteq> hd_Spec (demo_device 7)"
  "k_ReadDir moving_kernel = k_ReadDir demo_kernel"
  "k_LinkByName moving_kernel [] ''eth0'' = Inr demo_link"
  "k_LinkByName moving_kernel (x # h) ''eth0'' = Inr (demo_link\<lparr>link_MasterIndex := 7\<rparr>)"
  by (simp_all add: moving_kernel_def demo_link_def demo_device_def)

lemma moving_kernel_observed:
  "observed moving_kernel [] DefaultSysfsNetRoot ''eth0'' = Some (demo_device 0)"
  "observed moving_kernel (x # h) DefaultSysfsNetRoot ''eth0'' = Some (demo_device 7)"
  by (simp_all add: observed_def moving_kernel_simps buildDevice_demo)

text \<open>
  C31: a reader of the cache can see it step back. A second change of an interface is written to the
  store at once; when the informer then receives the event of the first change, the store has the first
  version again until the second event arrives.
\<close>

theorem cache_steps_back:
  "\<exists>ls s s'. demo_run moving_kernel (new_system []) ls s \<and> demo_step moving_kernel s Reflected s' \<and>
     last_observed ''eth0'' ls None = Some (demo_device 7) \<and>
     DeviceCache_Get list_store (store (sys_cache s)) ''eth0'' = Ok (demo_device 7) \<and>
     DeviceCache_Get list_store (store (sys_cache s')) ''eth0'' = Ok (demo_device 0)"
proof -
  let ?root = DefaultSysfsNetRoot
  let ?rd = "ReadDir (ib_root ?root ''eth0'')"
  let ?dc1 = "\<lparr>snapshot = [''eth0'' \<mapsto> demo_device 0], store = [(''eth0'', demo_device 0)],
    events = [Added (demo_device 0)], calls = [LinkByName ''eth0'', ?rd]\<rparr>"
  let ?dc2 = "\<lparr>snapshot = [''eth0'' \<mapsto> demo_device 7], store = [(''eth0'', demo_device 7)],
    events = [Added (demo_device 0), Modified (demo_device 7)],
    calls = [LinkByName ''eth0'', ?rd, LinkByName ''eth0'', ?rd]\<rparr>"
  let ?s0 = "new_system [] :: (string \<times> HostDevice) list cache_system"
  let ?s1 = "\<lparr>sys_cache = ?dc1, undelivered = [Added (demo_device 0)]\<rparr>"
  let ?s2 = "\<lparr>sys_cache = ?dc2, undelivered = [Added (demo_device 0), Modified (demo_device 7)]\<rparr>"
  have one: "syncDevice list_store (\<lambda>evs e. None) moving_kernel ?root ''eth0'' (sys_cache ?s0) = (Ok (), ?dc1)"
    by (subst list_sync_found [where link = demo_link and d = "demo_device 0"])
      (simp_all add: new_system_def NewDeviceCache_def moving_kernel_simps buildDevice_demo)
  have two: "syncDevice list_store (\<lambda>evs e. None) moving_kernel ?root ''eth0'' ?dc1 = (Ok (), ?dc2)"
    by (subst list_sync_found [where link = "demo_link\<lparr>link_MasterIndex := 7\<rparr>" and d = "demo_device 7"])
      (use moving_kernel_simps in \<open>simp_all add: buildDevice_demo\<close>)
  have st1: "demo_step moving_kernel ?s0 (Synced ''eth0'' (Some (demo_device 0))) ?s1"
    using demo_sync [OF one, of "[Added (demo_device 0)]" "[]"]
    by (simp add: new_system_def NewDeviceCache_def moving_kernel_observed watch_capacity_def)
  have st2: "demo_step moving_kernel ?s1 (Synced ''eth0'' (Some (demo_device 7))) ?s2"
    using demo_sync [OF two, of "[Modified (demo_device 7)]" "[Added (demo_device 0)]"]
    by (simp add: moving_kernel_observed watch_capacity_def)
  have st3: "demo_step moving_kernel ?s2 Reflected
      \<lparr>sys_cache = ?dc2\<lparr>store := list_reflect (Added (demo_device 0)) (store ?dc2)\<rparr>,
       undelivered = [Modified (demo_device 7)]\<rparr>"
    by (rule demo_reflect)
  have "demo_run moving_kernel ?s0 [Synced ''eth0'' (Some (demo_device 0)), Synced ''eth0'' (Some (demo_device 7))] ?s2"
    using sys_more [OF sys_more [OF sys_start st1 [unfolded demo_step_def]] st2 [unfolded demo_step_def]]
    by (simp add: demo_run_def)
  with st3 show ?thesis
    by (intro exI conjI)
      (assumption+, simp_all add: DeviceCache_Get_def list_store_def list_reflect_def Let_def)
qed


section \<open>A dropped event\<close>

text \<open>An interface that comes and goes a thousand times and then stays.\<close>

definition lookups :: "khist \<Rightarrow> nat" where
  "lookups h = length (filter (\<lambda>op. op = LinkByName ''eth0'') h)"

definition flapping_kernel :: kernel where
  "flapping_kernel = demo_kernel
     \<lparr>k_LinkByName := (\<lambda>h name. if name = ''eth0'' \<and> (even (lookups h) \<or> watch_capacity \<le> lookups h)
        then Inr demo_link else Inl LinkNotFoundError)\<rparr>"

abbreviation flap_events :: "nat \<Rightarrow> watch_event list" where
  "flap_events n \<equiv> concat (replicate n [Added (demo_device 0), Deleted (demo_device 0)])"

lemma lookups_simps [simp]:
  "lookups [] = 0" "lookups (h @ h') = lookups h + lookups h'"
  "lookups (LinkByName ''eth0'' # h) = Suc (lookups h)" "lookups (ReadDir p # h) = lookups h"
  by (simp_all add: lookups_def)

lemma length_flap_events [simp]: "length (flap_events n) = 2 * n"
  by (induction n) auto

lemma flap_events_snoc: "flap_events n @ [Added (demo_device 0), Deleted (demo_device 0)] = flap_events (Suc n)"
  by (induction n) auto

lemma link_Name_demo [simp]: "link_Name demo_link = ''eth0''"
  by (simp add: demo_link_def)

lemma flapping_sync_found:
  assumes "even (lookups (calls dc)) \<or> watch_capacity \<le> lookups (calls dc)"
    and "snapshot dc ''eth0'' = None \<or> snapshot dc ''eth0'' = Some (demo_device 0)"
  shows "syncDevice list_store (\<lambda>evs e. None) flapping_kernel DefaultSysfsNetRoot ''eth0'' dc =
      (Ok (), dc\<lparr>calls := calls dc @ [LinkByName ''eth0'', ReadDir (ib_root DefaultSysfsNetRoot ''eth0'')],
         snapshot := (snapshot dc)(''eth0'' \<mapsto> demo_device 0),
         store := (if snapshot dc ''eth0'' = None
           then (''eth0'', demo_device 0) # filter (\<lambda>p. fst p \<noteq> ''eth0'') (store dc) else store dc),
         events := events dc @ (if snapshot dc ''eth0'' = None then [Added (demo_device 0)] else [])\<rparr>)"
    and "observed flapping_kernel (calls dc) DefaultSysfsNetRoot ''eth0'' = Some (demo_device 0)"
proof -
  have link: "k_LinkByName flapping_kernel (calls dc) ''eth0'' = Inr demo_link"
    using assms(1) by (auto simp: flapping_kernel_def)
  have dir: "k_ReadDir flapping_kernel = k_ReadDir demo_kernel"
    by (simp add: flapping_kernel_def)
  show "observed flapping_kernel (calls dc) DefaultSysfsNetRoot ''eth0'' = Some (demo_device 0)"
    by (simp add: observed_def link dir buildDevice_demo)
  show "syncDevice list_store (\<lambda>evs e. None) flapping_kernel DefaultSysfsNetRoot ''eth0'' dc =
      (Ok (), dc\<lparr>calls := calls dc @ [LinkByName ''eth0'', ReadDir (ib_root DefaultSysfsNetRoot ''eth0'')],
         snapshot := (snapshot dc)(''eth0'' \<mapsto> demo_device 0),
         store := (if snapshot dc ''eth0'' = None
           then (''eth0'', demo_device 0) # filter (\<lambda>p. fst p \<noteq> ''eth0'') (store dc) else store dc),
         events := events dc @ (if snapshot dc ''eth0'' = None then [Added (demo_device 0)] else [])\<rparr>)"
    using list_sync_found [OF link, of DefaultSysfsNetRoot "demo_device 0"] assms(2)
    by (auto simp: dir buildDevice_demo)
qed

lemma flapping_sync_gone:
  assumes "odd (lookups (calls dc))" and "lookups (calls dc) < watch_capacity"
    and "snapshot dc ''eth0'' = Some (demo_device 0)"
  shows "syncDevice list_store (\<lambda>evs e. None) flapping_kernel DefaultSysfsNetRoot ''eth0'' dc =
      (Ok (), dc\<lparr>calls := calls dc @ [LinkByName ''eth0''], snapshot := (snapshot dc)(''eth0'' := None),
         store := filter (\<lambda>p. fst p \<noteq> ''eth0'') (store dc), events := events dc @ [Deleted (demo_device 0)]\<rparr>)"
    and "observed flapping_kernel (calls dc) DefaultSysfsNetRoot ''eth0'' = None"
proof -
  have link: "k_LinkByName flapping_kernel (calls dc) ''eth0'' = Inl LinkNotFoundError"
    using assms(1,2) by (auto simp: flapping_kernel_def)
  then show "observed flapping_kernel (calls dc) DefaultSysfsNetRoot ''eth0'' = None"
    by (simp add: observed_def)
  show "syncDevice list_store (\<lambda>evs e. None) flapping_kernel DefaultSysfsNetRoot ''eth0'' dc =
      (Ok (), dc\<lparr>calls := calls dc @ [LinkByName ''eth0''], snapshot := (snapshot dc)(''eth0'' := None),
         store := filter (\<lambda>p. fst p \<noteq> ''eth0'') (store dc), events := events dc @ [Deleted (demo_device 0)]\<rparr>)"
    by (rule list_sync_gone [OF link assms(3)]) simp
qed

lemma demo_run_more: "demo_run k s0 ls s \<Longrightarrow> demo_step k s l s' \<Longrightarrow> demo_run k s0 (ls @ [l]) s'"
  unfolding demo_run_def demo_step_def by (rule sys_more)

lemma flapping_fills_the_channel:
  assumes "2 * n \<le> watch_capacity"
  shows "\<exists>ls dc. demo_run flapping_kernel (new_system []) ls \<lparr>sys_cache = dc, undelivered = flap_events n\<rparr> \<and>
    snapshot dc = Map.empty \<and> store dc = [] \<and> lookups (calls dc) = 2 * n"
  using assms
proof (induction n)
  case 0
  show ?case
    using sys_start [of list_store list_reflect "\<lambda>evs e. None" flapping_kernel DefaultSysfsNetRoot "new_system []"]
    by (intro exI conjI) (auto simp: demo_run_def new_system_def NewDeviceCache_def)
next
  case (Suc n)
  then obtain ls dc where run: "demo_run flapping_kernel (new_system []) ls \<lparr>sys_cache = dc, undelivered = flap_events n\<rparr>"
    and dc: "snapshot dc = Map.empty" "store dc = []" "lookups (calls dc) = 2 * n"
    by (auto simp del: replicate_Suc)
  let ?dc1 = "dc\<lparr>calls := calls dc @ [LinkByName ''eth0'', ReadDir (ib_root DefaultSysfsNetRoot ''eth0'')],
    snapshot := [''eth0'' \<mapsto> demo_device 0], store := [(''eth0'', demo_device 0)],
    events := events dc @ [Added (demo_device 0)]\<rparr>"
  let ?dc2 = "?dc1\<lparr>calls := calls ?dc1 @ [LinkByName ''eth0''], snapshot := Map.empty, store := [],
    events := events ?dc1 @ [Deleted (demo_device 0)]\<rparr>"
  have "syncDevice list_store (\<lambda>evs e. None) flapping_kernel DefaultSysfsNetRoot ''eth0'' dc = (Ok (), ?dc1)"
    using flapping_sync_found(1) [of dc] dc by simp
  from demo_sync [OF this, of "[Added (demo_device 0)]" "flap_events n"]
  have "demo_step flapping_kernel \<lparr>sys_cache = dc, undelivered = flap_events n\<rparr>
      (Synced ''eth0'' (Some (demo_device 0))) \<lparr>sys_cache = ?dc1, undelivered = flap_events n @ [Added (demo_device 0)]\<rparr>"
    using flapping_sync_found(2) [of dc] dc Suc.prems by (simp del: replicate_Suc)
  note run1 = demo_run_more [OF run this]
  have "syncDevice list_store (\<lambda>evs e. None) flapping_kernel DefaultSysfsNetRoot ''eth0'' ?dc1 = (Ok (), ?dc2)"
    using flapping_sync_gone(1) [of ?dc1] dc Suc.prems by simp
  from demo_sync [OF this, of "[Deleted (demo_device 0)]" "flap_events n @ [Added (demo_device 0)]"]
  have "demo_step flapping_kernel \<lparr>sys_cache = ?dc1, undelivered = flap_events n @ [Added (demo_device 0)]\<rparr>
      (Synced ''eth0'' None) \<lparr>sys_cache = ?dc2, undelivered = flap_events (Suc n)\<rparr>"
    using flapping_sync_gone(2) [of ?dc1] dc Suc.prems
    by (simp del: replicate_Suc add: flap_events_snoc [symmetric])
  note run2 = demo_run_more [OF run1 this]
  show ?case
    by (rule exI, rule exI, rule conjI, rule run2) (use dc in simp)
qed

lemma demo_drain:
  "demo_run k s0 ls \<lparr>sys_cache = dc, undelivered = ch\<rparr> \<Longrightarrow>
   demo_run k s0 (ls @ replicate (length ch) Reflected)
     \<lparr>sys_cache = dc\<lparr>store := fold list_reflect ch (store dc)\<rparr>, undelivered = []\<rparr>"
proof (induction ch arbitrary: ls dc)
  case (Cons e ch)
  from Cons.IH [OF demo_run_more [OF Cons.prems demo_reflect]] show ?case
    by simp
qed simp

lemma fold_flap_events: "0 < n \<Longrightarrow> fold list_reflect (flap_events n) st = filter (\<lambda>p. fst p \<noteq> ''eth0'') st"
proof (induction n arbitrary: st)
  case (Suc n)
  then show ?case
    by (cases n) (auto simp: list_reflect_def Let_def comp_def)
qed simp

lemma demo_sync_dropped:
  assumes "syncDevice list_store (\<lambda>evs e. None) k DefaultSysfsNetRoot key dc = (Ok (), dc')"
    and "events dc' = events dc @ [e]" and "watch_capacity \<le> length ch"
    and "observed k (calls dc) DefaultSysfsNetRoot key = obs"
  shows "demo_step k \<lparr>sys_cache = dc, undelivered = ch\<rparr> (SyncedAndDropped key obs)
    \<lparr>sys_cache = dc', undelivered = ch\<rparr>"
proof -
  have "deliver ch e = ch"
    using assms(3) by (simp add: deliver_def)
  with assms show ?thesis
    unfolding demo_step_def
    using step_sync [of list_store "\<lambda>evs e. None" k DefaultSysfsNetRoot key "\<lparr>sys_cache = dc, undelivered = ch\<rparr>" dc'
        "[e]" ch obs list_reflect]
    by simp
qed

text \<open>The interface stays from now on, the snapshot has it, the store and the channel are empty.\<close>

definition lost :: "(string \<times> HostDevice) list cache_system \<Rightarrow> bool" where
  "lost s \<longleftrightarrow> undelivered s = [] \<and> store (sys_cache s) = [] \<and>
     snapshot (sys_cache s) = [''eth0'' \<mapsto> demo_device 0] \<and> watch_capacity \<le> lookups (calls (sys_cache s))"

lemma lookups_other: "key \<noteq> ''eth0'' \<Longrightarrow> lookups (LinkByName key # h) = lookups h"
  by (simp add: lookups_def)

lemma lost_sync:
  assumes "lost s"
  shows "\<exists>dc'. syncDevice list_store (\<lambda>evs e. None) flapping_kernel DefaultSysfsNetRoot key (sys_cache s) = (Ok (), dc') \<and>
    events dc' = events (sys_cache s) \<and> lost \<lparr>sys_cache = dc', undelivered = []\<rparr>"
proof (cases "key = ''eth0''")
  case True
  with assms flapping_sync_found(1) [of "sys_cache s"] show ?thesis
    by (auto simp: lost_def)
next
  case False
  then have "k_LinkByName flapping_kernel h key = Inl LinkNotFoundError" for h
    by (simp add: flapping_kernel_def)
  with assms False show ?thesis
    by (auto simp: lost_def syncDevice_def Let_def lookups_other)
qed

lemma lost_step:
  assumes "lost s" and "demo_step flapping_kernel s l s'"
  shows "lost s' \<and> (last_observed ''eth0'' [l] (Some (demo_device 0)) = Some (demo_device 0))"
  using assms(2) unfolding demo_step_def
proof cases
  case (step_sync key dc' new channel obs)
  from lost_sync [OF assms(1), of key] step_sync(3) have dc': "events dc' = events (sys_cache s)"
    "lost \<lparr>sys_cache = dc', undelivered = []\<rparr>"
    by auto
  then have "channel = []"
    using step_sync(4,5) assms(1) by (simp add: lost_def)
  moreover have "key = ''eth0'' \<Longrightarrow> obs = Some (demo_device 0)"
    using flapping_sync_found(2) [of "sys_cache s"] assms(1) step_sync(6) by (simp add: lost_def)
  ultimately show ?thesis
    using dc' step_sync(1,2) by auto
next
  case (step_failed key e dc')
  with lost_sync [OF assms(1), of key] show ?thesis
    by auto
qed (use assms(1) in \<open>simp add: lost_def\<close>)

lemma lost_run:
  assumes "lost s" and "demo_run flapping_kernel s ls s'"
  shows "lost s' \<and> last_observed ''eth0'' ls (Some (demo_device 0)) = Some (demo_device 0)"
  using assms(2) unfolding demo_run_def
proof (induction rule: system_run.induct)
  case (sys_more ls s' l s'')
  with lost_step [of s' l s'', unfolded demo_step_def] show ?case
    by simp
qed (simp add: assms(1))

lemma lost_Get: "lost s \<Longrightarrow> DeviceCache_Get list_store (store (sys_cache s)) ''eth0'' = Err (DeviceNotFound ''eth0'')"
  by (simp add: lost_def DeviceCache_Get_def list_store_def)

lemma lost_goes_on:
  assumes "lost s"
  shows "\<exists>s'. demo_step flapping_kernel s (Synced ''eth0'' (Some (demo_device 0))) s' \<and> lost s'"
proof -
  from lost_sync [OF assms, of "''eth0''"] obtain dc' where
    "syncDevice list_store (\<lambda>evs e. None) flapping_kernel DefaultSysfsNetRoot ''eth0'' (sys_cache s) = (Ok (), dc')"
    "events dc' = events (sys_cache s) @ []" and lost': "lost \<lparr>sys_cache = dc', undelivered = []\<rparr>"
    by auto
  from demo_sync [OF this(1,2), of "[]" "Some (demo_device 0)"] flapping_sync_found(2) [of "sys_cache s"] assms
  have "demo_step flapping_kernel \<lparr>sys_cache = sys_cache s, undelivered = []\<rparr>
      (Synced ''eth0'' (Some (demo_device 0))) \<lparr>sys_cache = dc', undelivered = []\<rparr>"
    by (simp add: lost_def watch_capacity_def)
  moreover have "\<lparr>sys_cache = sys_cache s, undelivered = []\<rparr> = s"
    using assms by (simp add: lost_def)
  ultimately show ?thesis
    using lost' by auto
qed

lemma event_can_get_lost:
  "\<exists>s ls. demo_run flapping_kernel (new_system []) ls s \<and> lost s \<and>
     last_observed ''eth0'' ls None = Some (demo_device 0)"
proof -
  obtain n where cap: "2 * n = watch_capacity" and n: "0 < n"
    by (rule that [of 500]) (simp_all add: watch_capacity_def)
  from flapping_fills_the_channel [of n, unfolded cap, OF order_refl] obtain ls dc where
    run: "demo_run flapping_kernel (new_system []) ls \<lparr>sys_cache = dc, undelivered = flap_events n\<rparr>"
    and dc: "snapshot dc = Map.empty" "store dc = []" "lookups (calls dc) = watch_capacity"
    by (elim exE conjE) (rule that)
  let ?ch = "flap_events n" and ?d = "demo_device 0"
  let ?dc1 = "dc\<lparr>calls := calls dc @ [LinkByName ''eth0'', ReadDir (ib_root DefaultSysfsNetRoot ''eth0'')],
    snapshot := [''eth0'' \<mapsto> ?d], store := [(''eth0'', ?d)], events := events dc @ [Added ?d]\<rparr>"
  let ?dc2 = "?dc1\<lparr>store := []\<rparr>"
  have full: "length ?ch = watch_capacity"
    using cap by simp
  have "syncDevice list_store (\<lambda>evs e. None) flapping_kernel DefaultSysfsNetRoot ''eth0'' dc = (Ok (), ?dc1)"
    using flapping_sync_found(1) [of dc] dc by simp
  from demo_sync_dropped [OF this, of "Added ?d" ?ch]
  have "demo_step flapping_kernel \<lparr>sys_cache = dc, undelivered = ?ch\<rparr>
      (SyncedAndDropped ''eth0'' (Some ?d)) \<lparr>sys_cache = ?dc1, undelivered = ?ch\<rparr>"
    using flapping_sync_found(2) [of dc] dc full by simp
  note run1 = demo_drain [OF demo_run_more [OF run this]]
  have drained: "?dc1\<lparr>store := fold list_reflect ?ch (store ?dc1)\<rparr> = ?dc2"
    by (subst fold_flap_events) (simp_all add: n)
  have "lost \<lparr>sys_cache = ?dc2, undelivered = []\<rparr>"
    using dc by (simp add: lost_def)
  with run1 [unfolded drained] show ?thesis
    by (intro exI conjI) (assumption+, simp)
qed

text \<open>
  C32: a dropped event is never made up for while the interface stays as it is. When the informer does
  not keep up with an interface that comes and goes until the channel is full, the event of the
  interface's last arrival is dropped, and once the informer has received what the channel held, the
  store has no device for an interface that exists. The interface stays from then on; whatever
  synchronisations, of this interface and of others, and deliveries follow, in any number and order,
  the last answer of the kernel for the interface is still that it exists, and the store never has it
  again; and it can always be synchronised once more.
\<close>

theorem dropped_event_loses_interface:
  "\<exists>s ls. demo_run flapping_kernel (new_system []) ls s \<and> undelivered s = [] \<and>
     last_observed ''eth0'' ls None = Some (demo_device 0) \<and>
     DeviceCache_Get list_store (store (sys_cache s)) ''eth0'' = Err (DeviceNotFound ''eth0'') \<and>
     (\<forall>later s'. demo_run flapping_kernel s later s' \<longrightarrow>
        last_observed ''eth0'' (ls @ later) None = Some (demo_device 0) \<and>
        DeviceCache_Get list_store (store (sys_cache s')) ''eth0'' = Err (DeviceNotFound ''eth0'') \<and>
        (\<exists>s''. demo_step flapping_kernel s' (Synced ''eth0'' (Some (demo_device 0))) s''))"
proof -
  from event_can_get_lost obtain s ls where run: "demo_run flapping_kernel (new_system []) ls s" and "lost s"
    and obs: "last_observed ''eth0'' ls None = Some (demo_device 0)"
    by blast
  moreover have "last_observed ''eth0'' (ls @ later) None = Some (demo_device 0) \<and>
      DeviceCache_Get list_store (store (sys_cache s')) ''eth0'' = Err (DeviceNotFound ''eth0'') \<and>
      (\<exists>s''. demo_step flapping_kernel s' (Synced ''eth0'' (Some (demo_device 0))) s'')"
    if "demo_run flapping_kernel s later s'" for later s'
    using lost_run [OF \<open>lost s\<close> that] lost_Get lost_goes_on obs by auto
  moreover have "undelivered s = []"
    using \<open>lost s\<close> by (simp add: lost_def)
  ultimately show ?thesis
    using lost_Get by blast
qed

lemma dropped_event_loses_interface_witness:
  "\<exists>s s' ls. demo_run flapping_kernel (new_system []) ls s \<and>
     demo_run flapping_kernel s [Synced ''eth0'' (Some (demo_device 0))] s' \<and>
     DeviceCache_Get list_store (store (sys_cache s')) ''eth0'' = Err (DeviceNotFound ''eth0'')"
proof -
  from dropped_event_loses_interface obtain s ls where run: "demo_run flapping_kernel (new_system []) ls s"
    and later: "\<And>later s'. demo_run flapping_kernel s later s' \<Longrightarrow>
        DeviceCache_Get list_store (store (sys_cache s')) ''eth0'' = Err (DeviceNotFound ''eth0'') \<and>
        (\<exists>s''. demo_step flapping_kernel s' (Synced ''eth0'' (Some (demo_device 0))) s'')"
    by blast
  have "demo_run flapping_kernel s [] s"
    unfolding demo_run_def by (rule sys_start)
  with later obtain s' where "demo_step flapping_kernel s (Synced ''eth0'' (Some (demo_device 0))) s'"
    by blast
  from demo_run_more [OF \<open>demo_run flapping_kernel s [] s\<close> this] later run show ?thesis
    by fastforce
qed

lemma caught_up_cache_is_current_witness:
  "\<exists>s. demo_run flapping_kernel (new_system []) [Synced ''eth0'' (Some (demo_device 0)), Reflected] s \<and>
     undelivered s = [] \<and> DeviceCache_Get list_store (store (sys_cache s)) ''eth0'' = Ok (demo_device 0)"
proof -
  let ?dc = "NewDeviceCache [] :: (string \<times> HostDevice) list DeviceCache"
  from flapping_sync_found [of ?dc] obtain dc' where
    "syncDevice list_store (\<lambda>evs e. None) flapping_kernel DefaultSysfsNetRoot ''eth0'' ?dc = (Ok (), dc')"
    "events dc' = events ?dc @ [Added (demo_device 0)]"
    and obs: "observed flapping_kernel (calls ?dc) DefaultSysfsNetRoot ''eth0'' = Some (demo_device 0)"
    by (simp add: NewDeviceCache_def)
  from demo_sync [OF this(1,2), of "[]"] obs
  have one: "demo_step flapping_kernel (new_system []) (Synced ''eth0'' (Some (demo_device 0)))
      \<lparr>sys_cache = dc', undelivered = [Added (demo_device 0)]\<rparr>"
    by (simp add: new_system_def watch_capacity_def)
  let ?s = "\<lparr>sys_cache = dc'\<lparr>store := list_reflect (Added (demo_device 0)) (store dc')\<rparr>, undelivered = []\<rparr>"
  have "demo_run flapping_kernel (new_system []) [] (new_system [])"
    unfolding demo_run_def by (rule sys_start)
  from demo_run_more [OF demo_run_more [OF this one] demo_reflect]
  have run: "demo_run flapping_kernel (new_system []) [Synced ''eth0'' (Some (demo_device 0)), Reflected] ?s"
    by simp
  have names: "link_names_ok flapping_kernel"
    by (auto simp: link_names_ok_def flapping_kernel_def demo_kernel_def demo_link_def split: if_splits)
  have empty: "store_matches list_store [] Map.empty"
    by (simp add: store_matches_def list_store_def)
  from caught_up_cache_is_current [OF list_store_ok list_reflects names empty run [unfolded demo_run_def],
      of "''eth0''"]
  have "DeviceCache_Get list_store (store (sys_cache ?s)) ''eth0'' = Ok (demo_device 0)"
    by simp
  with run show ?thesis
    by (intro exI [of _ ?s]) simp
qed

end
