(* ===== verification/InformerFactory.thy ===== *)
theory InformerFactory
  imports Clients
begin

text \<open>
  The generated informer factory, \<open>pkg/client/informers/externalversions\<close>: it hands out one shared
  informer per type and runs each in one goroutine. A pointer to an informer is its position in the list
  \<open>f_made\<close> of the informers the factory has made; \<open>f_wg\<close> holds the goroutines that run, by informer, and
  \<open>f_ran\<close> those ever spawned. The methods hold the mutex from their first to their last statement, so
  they are the steps of \<open>factory_run\<close>; \<open>Shutdown\<close> releases it before it waits and is two steps.

  What an informer does once it runs, and when its cache has synced, is client-go's.
\<close>

section \<open>Informers\<close>

type_synonym object_type = string
type_synonym informer_ptr = nat
type_synonym tweak = "ListOptions \<Rightarrow> ListOptions"

record InformerOptions =
  io_ResyncPeriod :: int
  io_Indexers :: "string list"
  io_InformerName :: "string option"
  io_TweakListOptions :: "tweak option"

text \<open>A shared informer as it is configured: how it lists and watches, and the arguments of its
  constructor.\<close>

record shared_informer =
  inf_List :: "ListOptions \<Rightarrow> liberr + DeviceNetwork list"
  inf_Watch :: "ListOptions \<Rightarrow> liberr + handle"
  inf_ResyncPeriod :: int
  inf_Indexers :: "string list"
  inf_Identifier :: "string option \<times> string \<times> string \<times> string"
  inf_Transform :: "(DeviceNetwork \<Rightarrow> liberr + DeviceNetwork) option"

definition tweaked :: "tweak option \<Rightarrow> ListOptions \<Rightarrow> ListOptions" where
  "tweaked tweakListOptions opts = (case tweakListOptions of None \<Rightarrow> opts | Some t \<Rightarrow> t opts)"

definition NewTypedDeviceNetworkInformerWithOptions ::
  "rest_lib \<Rightarrow> Clientset \<Rightarrow> InformerOptions \<Rightarrow> shared_informer" where
  "NewTypedDeviceNetworkInformerWithOptions lib client options =
     (let gvr = (''devicenetwork.io'', ''v1alpha1'', ''devicenetworks'');
          identifier = (io_InformerName options, gvr);
          tweakListOptions = io_TweakListOptions options;
          deviceNetworks = newDeviceNetworks lib (Some (DevicenetworkV1alpha1 client))
      in \<lparr>inf_List = (\<lambda>opts. dni_List deviceNetworks (tweaked tweakListOptions opts)),
          inf_Watch = (\<lambda>opts. dni_Watch deviceNetworks (tweaked tweakListOptions opts)),
          inf_ResyncPeriod = io_ResyncPeriod options, inf_Indexers = io_Indexers options,
          inf_Identifier = identifier, inf_Transform = None\<rparr>)"

definition NewDeviceNetworkInformerWithOptions ::
  "rest_lib \<Rightarrow> Clientset \<Rightarrow> InformerOptions \<Rightarrow> shared_informer" where
  "NewDeviceNetworkInformerWithOptions lib client options =
     NewTypedDeviceNetworkInformerWithOptions lib client options"

definition NewDeviceNetworkInformer ::
  "rest_lib \<Rightarrow> Clientset \<Rightarrow> int \<Rightarrow> string list \<Rightarrow> shared_informer" where
  "NewDeviceNetworkInformer lib client resyncPeriod indexers =
     NewDeviceNetworkInformerWithOptions lib client
       \<lparr>io_ResyncPeriod = resyncPeriod, io_Indexers = indexers, io_InformerName = None, io_TweakListOptions = None\<rparr>"

definition NewFilteredDeviceNetworkInformer ::
  "rest_lib \<Rightarrow> Clientset \<Rightarrow> int \<Rightarrow> string list \<Rightarrow> tweak option \<Rightarrow> shared_informer" where
  "NewFilteredDeviceNetworkInformer lib client resyncPeriod indexers tweakListOptions =
     NewTypedDeviceNetworkInformerWithOptions lib client
       \<lparr>io_ResyncPeriod = resyncPeriod, io_Indexers = indexers, io_InformerName = None,
        io_TweakListOptions = tweakListOptions\<rparr>"

text \<open>The typed variants take typed index functions and give the same informer, wrapped.\<close>

definition NewTypedDeviceNetworkInformer ::
  "rest_lib \<Rightarrow> Clientset \<Rightarrow> int \<Rightarrow> string list \<Rightarrow> shared_informer" where
  "NewTypedDeviceNetworkInformer lib client resyncPeriod indexers =
     NewTypedDeviceNetworkInformerWithOptions lib client
       \<lparr>io_ResyncPeriod = resyncPeriod, io_Indexers = indexers, io_InformerName = None, io_TweakListOptions = None\<rparr>"

definition NewTypedFilteredDeviceNetworkInformer ::
  "rest_lib \<Rightarrow> Clientset \<Rightarrow> int \<Rightarrow> string list \<Rightarrow> tweak option \<Rightarrow> shared_informer" where
  "NewTypedFilteredDeviceNetworkInformer lib client resyncPeriod indexers tweakListOptions =
     NewTypedDeviceNetworkInformerWithOptions lib client
       \<lparr>io_ResyncPeriod = resyncPeriod, io_Indexers = indexers, io_InformerName = None,
        io_TweakListOptions = tweakListOptions\<rparr>"

section \<open>The factory\<close>

record sharedInformerFactory =
  f_client :: Clientset
  f_namespace :: string
  f_tweakListOptions :: "tweak option"
  f_defaultResync :: int
  f_customResync :: "object_type \<rightharpoonup> int"
  f_transform :: "(DeviceNetwork \<Rightarrow> liberr + DeviceNetwork) option"
  f_informerName :: "string option"
  f_informers :: "object_type \<rightharpoonup> informer_ptr"
  startedInformers :: "object_type \<rightharpoonup> bool"
  shuttingDown :: bool
  f_made :: "shared_informer list"
  f_wg :: "informer_ptr list"
  f_ran :: "informer_ptr list"

type_synonym SharedInformerOption = "sharedInformerFactory \<Rightarrow> sharedInformerFactory"

text \<open>The entries of a Go map, in the order in which the loop meets them.\<close>

fun set_custom_resync :: "(object_type \<times> int) list \<Rightarrow> SharedInformerOption" where
  "set_custom_resync [] f = f"
| "set_custom_resync ((k, v) # rest) f =
     set_custom_resync rest (f\<lparr>f_customResync := (f_customResync f)(k \<mapsto> v)\<rparr>)"

definition WithCustomResyncConfig :: "(object_type \<times> int) list \<Rightarrow> SharedInformerOption" where
  "WithCustomResyncConfig resyncConfig f = set_custom_resync resyncConfig f"

definition WithTweakListOptions :: "tweak option \<Rightarrow> SharedInformerOption" where
  "WithTweakListOptions t f = f\<lparr>f_tweakListOptions := t\<rparr>"

definition WithNamespace :: "string \<Rightarrow> SharedInformerOption" where
  "WithNamespace n f = f\<lparr>f_namespace := n\<rparr>"

definition WithTransform :: "(DeviceNetwork \<Rightarrow> liberr + DeviceNetwork) option \<Rightarrow> SharedInformerOption" where
  "WithTransform t f = f\<lparr>f_transform := t\<rparr>"

definition WithInformerName :: "string option \<Rightarrow> SharedInformerOption" where
  "WithInformerName n f = f\<lparr>f_informerName := n\<rparr>"

definition InformerName :: "sharedInformerFactory \<Rightarrow> string option" where
  "InformerName f = f_informerName f"

definition NewSharedInformerFactoryWithOptions ::
  "Clientset \<Rightarrow> int \<Rightarrow> SharedInformerOption list \<Rightarrow> sharedInformerFactory" where
  "NewSharedInformerFactoryWithOptions client defaultResync options =
     fold (\<lambda>opt f. opt f) options
       \<lparr>f_client = client, f_namespace = [], f_tweakListOptions = None, f_defaultResync = defaultResync,
        f_customResync = Map.empty, f_transform = None, f_informerName = None, f_informers = Map.empty,
        startedInformers = Map.empty, shuttingDown = False, f_made = [], f_wg = [], f_ran = []\<rparr>"

definition NewSharedInformerFactory :: "Clientset \<Rightarrow> int \<Rightarrow> sharedInformerFactory" where
  "NewSharedInformerFactory client defaultResync = NewSharedInformerFactoryWithOptions client defaultResync []"

definition NewFilteredSharedInformerFactory ::
  "Clientset \<Rightarrow> int \<Rightarrow> string \<Rightarrow> tweak option \<Rightarrow> sharedInformerFactory" where
  "NewFilteredSharedInformerFactory client defaultResync namespace tweakListOptions =
     NewSharedInformerFactoryWithOptions client defaultResync
       [WithNamespace namespace, WithTweakListOptions tweakListOptions]"

definition is_started :: "object_type \<Rightarrow> sharedInformerFactory \<Rightarrow> bool" where
  "is_started ty f = (case startedInformers f ty of None \<Rightarrow> False | Some b \<Rightarrow> b)"

text \<open>One round of the loop of \<open>StartWithContext\<close>, and the loop over the informers in the order the map
  gives them.\<close>

definition start_informer :: "object_type \<Rightarrow> sharedInformerFactory \<Rightarrow> sharedInformerFactory" where
  "start_informer ty f =
     (case f_informers f ty of
        None \<Rightarrow> f
      | Some informer \<Rightarrow>
          if \<not> is_started ty f
          then f\<lparr>f_wg := f_wg f @ [informer], f_ran := f_ran f @ [informer],
                 startedInformers := (startedInformers f)(ty \<mapsto> True)\<rparr>
          else f)"

definition StartWithContext :: "object_type list \<Rightarrow> sharedInformerFactory \<Rightarrow> sharedInformerFactory" where
  "StartWithContext order f = (if shuttingDown f then f else fold start_informer order f)"

definition Factory_Start :: "object_type list \<Rightarrow> sharedInformerFactory \<Rightarrow> sharedInformerFactory" where
  "Factory_Start order f = StartWithContext order f"

text \<open>\<open>Shutdown\<close> up to its wait, and whether the wait is over.\<close>

definition Shutdown_begin :: "sharedInformerFactory \<Rightarrow> sharedInformerFactory" where
  "Shutdown_begin f = f\<lparr>shuttingDown := True\<rparr>"

definition Shutdown_returns :: "sharedInformerFactory \<Rightarrow> bool" where
  "Shutdown_returns f \<longleftrightarrow> f_wg f = []"

text \<open>A goroutine ends when its context is done.\<close>

definition goroutine_ends :: "informer_ptr \<Rightarrow> sharedInformerFactory \<Rightarrow> sharedInformerFactory" where
  "goroutine_ends p f = f\<lparr>f_wg := remove1 p (f_wg f)\<rparr>"

text \<open>\<open>WaitForCacheSyncWithContext\<close>: the started informers under the mutex, then their answers when
  the wait is over, and the cause when one has not synced.\<close>

definition started_informers :: "sharedInformerFactory \<Rightarrow> object_type \<rightharpoonup> informer_ptr" where
  "started_informers f ty = (if is_started ty f then f_informers f ty else None)"

record SyncResult =
  sr_Synced :: "object_type \<rightharpoonup> bool"
  SyncErr :: "liberr option"

fun sync_results ::
  "(object_type \<rightharpoonup> informer_ptr) \<Rightarrow> (informer_ptr \<Rightarrow> bool) \<Rightarrow> object_type list \<Rightarrow> (object_type \<rightharpoonup> bool) \<Rightarrow> bool \<Rightarrow>
   (object_type \<rightharpoonup> bool) \<times> bool" where
  "sync_results informers hasSynced [] synced failed = (synced, failed)"
| "sync_results informers hasSynced (ty # rest) synced failed =
     (case informers ty of
        None \<Rightarrow> sync_results informers hasSynced rest synced failed
      | Some p \<Rightarrow> sync_results informers hasSynced rest (synced(ty \<mapsto> hasSynced p)) (failed \<or> \<not> hasSynced p))"

definition WaitForCacheSyncWithContext ::
  "object_type list \<Rightarrow> (informer_ptr \<Rightarrow> bool) \<Rightarrow> liberr \<Rightarrow> sharedInformerFactory \<Rightarrow> SyncResult" where
  "WaitForCacheSyncWithContext order hasSynced cause f =
     (let (synced, failed) = sync_results (started_informers f) hasSynced order Map.empty False
      in \<lparr>sr_Synced = synced, SyncErr = (if failed then Some cause else None)\<rparr>)"

definition WaitForCacheSync ::
  "object_type list \<Rightarrow> (informer_ptr \<Rightarrow> bool) \<Rightarrow> liberr \<Rightarrow> sharedInformerFactory \<Rightarrow> object_type \<rightharpoonup> bool" where
  "WaitForCacheSync order hasSynced cause f = sr_Synced (WaitForCacheSyncWithContext order hasSynced cause f)"

definition InformerFor ::
  "object_type \<Rightarrow> (Clientset \<Rightarrow> int \<Rightarrow> shared_informer) \<Rightarrow> sharedInformerFactory \<Rightarrow>
   informer_ptr \<times> sharedInformerFactory" where
  "InformerFor informerType newFunc f =
     (case f_informers f informerType of
        Some informer \<Rightarrow> (informer, f)
      | None \<Rightarrow>
          (let resyncPeriod =
                 (case f_customResync f informerType of None \<Rightarrow> f_defaultResync f | Some r \<Rightarrow> r);
               informer = newFunc (f_client f) resyncPeriod;
               informer' =
                 (case f_transform f of None \<Rightarrow> informer | Some t \<Rightarrow> informer\<lparr>inf_Transform := Some t\<rparr>);
               p = length (f_made f)
           in (p, f\<lparr>f_informers := (f_informers f)(informerType \<mapsto> p), f_made := f_made f @ [informer']\<rparr>)))"

section \<open>Access to the DeviceNetwork informer\<close>

text \<open>\<open>factory.Devicenetwork().V1alpha1().DeviceNetworks()\<close>: three structs that pass the factory and its
  options on. The factory itself is the state that the methods work on.\<close>

record version =
  v_namespace :: string
  v_tweakListOptions :: "tweak option"

record group =
  g_namespace :: string
  g_tweakListOptions :: "tweak option"

record deviceNetworkInformer =
  dnif_tweakListOptions :: "tweak option"

definition Devicenetwork :: "sharedInformerFactory \<Rightarrow> group" where
  "Devicenetwork f = \<lparr>g_namespace = f_namespace f, g_tweakListOptions = f_tweakListOptions f\<rparr>"

definition V1alpha1 :: "group \<Rightarrow> version" where
  "V1alpha1 g = \<lparr>v_namespace = g_namespace g, v_tweakListOptions = g_tweakListOptions g\<rparr>"

definition version_DeviceNetworks :: "version \<Rightarrow> deviceNetworkInformer" where
  "version_DeviceNetworks v = \<lparr>dnif_tweakListOptions = v_tweakListOptions v\<rparr>"

definition DeviceNetworkType :: object_type where
  "DeviceNetworkType = ''*v1alpha1.DeviceNetwork''"

definition defaultInformer ::
  "rest_lib \<Rightarrow> deviceNetworkInformer \<Rightarrow> sharedInformerFactory \<Rightarrow> Clientset \<Rightarrow> int \<Rightarrow> shared_informer" where
  "defaultInformer lib i f client resyncPeriod =
     NewTypedDeviceNetworkInformerWithOptions lib client
       \<lparr>io_ResyncPeriod = resyncPeriod, io_Indexers = [''namespace''], io_InformerName = InformerName f,
        io_TweakListOptions = dnif_tweakListOptions i\<rparr>"

definition TypedInformer ::
  "rest_lib \<Rightarrow> deviceNetworkInformer \<Rightarrow> sharedInformerFactory \<Rightarrow> informer_ptr \<times> sharedInformerFactory" where
  "TypedInformer lib i f = InformerFor DeviceNetworkType (defaultInformer lib i f) f"

definition deviceNetworkInformer_Informer ::
  "rest_lib \<Rightarrow> deviceNetworkInformer \<Rightarrow> sharedInformerFactory \<Rightarrow> informer_ptr \<times> sharedInformerFactory" where
  "deviceNetworkInformer_Informer lib i f = TypedInformer lib i f"

text \<open>A lister reads the index of an informer: it is known by the informer.\<close>

definition NewDeviceNetworkLister :: "informer_ptr \<Rightarrow> informer_ptr" where
  "NewDeviceNetworkLister indexer = indexer"

definition deviceNetworkInformer_Lister ::
  "rest_lib \<Rightarrow> deviceNetworkInformer \<Rightarrow> sharedInformerFactory \<Rightarrow> informer_ptr \<times> sharedInformerFactory" where
  "deviceNetworkInformer_Lister lib i f = (let (p, f') = deviceNetworkInformer_Informer lib i f in (NewDeviceNetworkLister p, f'))"

text \<open>\<open>ForResource\<close>; a resource is its group, version and name.\<close>

record genericInformer =
  gi_informer :: informer_ptr
  gi_resource :: "string \<times> string"

text \<open>The two methods of a generic informer; the generic lister also reads the index of the informer.\<close>

definition genericInformer_Informer :: "genericInformer \<Rightarrow> informer_ptr" where
  "genericInformer_Informer i = gi_informer i"

definition genericInformer_Lister :: "genericInformer \<Rightarrow> informer_ptr \<times> string \<times> string" where
  "genericInformer_Lister i = (genericInformer_Informer i, gi_resource i)"

definition ForResource ::
  "rest_lib \<Rightarrow> string \<times> string \<times> string \<Rightarrow> sharedInformerFactory \<Rightarrow>
   (genericInformer, string \<times> string \<times> string) res \<times> sharedInformerFactory" where
  "ForResource lib resource f =
     (if resource = (fst SchemeGroupVersion, snd SchemeGroupVersion, ''devicenetworks'')
      then (let (p, f') = deviceNetworkInformer_Informer lib (version_DeviceNetworks (V1alpha1 (Devicenetwork f))) f
            in (Ok \<lparr>gi_informer = p, gi_resource = (fst resource, snd (snd resource))\<rparr>, f'))
      else (Err resource, f))"

section \<open>The life of a factory\<close>

datatype factory_label =
    Requested object_type informer_ptr
  | Started "object_type list"
  | Ended informer_ptr
  | ShutdownCalled
  | ShutdownReturned

inductive factory_run :: "sharedInformerFactory \<Rightarrow> factory_label list \<Rightarrow> sharedInformerFactory \<Rightarrow> bool"
  for f0 where
  factory_new: "factory_run f0 [] f0"
| factory_request: "factory_run f0 ls f \<Longrightarrow> InformerFor ty newFunc f = (p, f') \<Longrightarrow>
    factory_run f0 (ls @ [Requested ty p]) f'"
| factory_start: "factory_run f0 ls f \<Longrightarrow> distinct order \<Longrightarrow> set order = dom (f_informers f) \<Longrightarrow>
    factory_run f0 (ls @ [Started order]) (StartWithContext order f)"
| factory_end: "factory_run f0 ls f \<Longrightarrow> p \<in> set (f_wg f) \<Longrightarrow>
    factory_run f0 (ls @ [Ended p]) (goroutine_ends p f)"
| factory_shutdown: "factory_run f0 ls f \<Longrightarrow> factory_run f0 (ls @ [ShutdownCalled]) (Shutdown_begin f)"
| factory_shut_down: "factory_run f0 ls f \<Longrightarrow> shuttingDown f \<Longrightarrow> Shutdown_returns f \<Longrightarrow>
    factory_run f0 (ls @ [ShutdownReturned]) f"

subsection \<open>Starting\<close>

text \<open>The informers that a start runs: those of the types that are not started, in the order of the map.\<close>

definition newly_started :: "sharedInformerFactory \<Rightarrow> object_type list \<Rightarrow> informer_ptr list" where
  "newly_started f order =
     map (\<lambda>ty. the (f_informers f ty)) (filter (\<lambda>ty. f_informers f ty \<noteq> None \<and> \<not> is_started ty f) order)"

lemma start_informer_simps [simp]:
  "f_informers (start_informer ty f) = f_informers f" "f_made (start_informer ty f) = f_made f"
  "shuttingDown (start_informer ty f) = shuttingDown f"
  "is_started ty' (start_informer ty f) \<longleftrightarrow> is_started ty' f \<or> ty' = ty \<and> f_informers f ty \<noteq> None"
  "f_ran (start_informer ty f) = f_ran f @ newly_started f [ty]"
  "f_wg (start_informer ty f) = f_wg f @ newly_started f [ty]"
  by (auto simp: start_informer_def is_started_def newly_started_def split: option.splits)

lemma start_informers:
  assumes "distinct order"
  shows "f_informers (fold start_informer order f) = f_informers f"
    and "f_made (fold start_informer order f) = f_made f"
    and "shuttingDown (fold start_informer order f) = shuttingDown f"
    and "is_started ty (fold start_informer order f) \<longleftrightarrow>
      is_started ty f \<or> ty \<in> set order \<and> f_informers f ty \<noteq> None"
    and "f_ran (fold start_informer order f) = f_ran f @ newly_started f order"
    and "f_wg (fold start_informer order f) = f_wg f @ newly_started f order"
proof -
  have "f_informers (fold start_informer order f) = f_informers f \<and>
    f_made (fold start_informer order f) = f_made f \<and>
    shuttingDown (fold start_informer order f) = shuttingDown f \<and>
    (\<forall>ty. is_started ty (fold start_informer order f) \<longleftrightarrow>
      is_started ty f \<or> ty \<in> set order \<and> f_informers f ty \<noteq> None) \<and>
    f_ran (fold start_informer order f) = f_ran f @ newly_started f order \<and>
    f_wg (fold start_informer order f) = f_wg f @ newly_started f order"
    using assms
  proof (induction order arbitrary: f)
    case (Cons ty order)
    have "newly_started (start_informer ty f) order = newly_started f order"
      unfolding newly_started_def start_informer_simps
      by (rule arg_cong [where f = "map _"], rule filter_cong) (use Cons.prems in auto)
    with Cons.IH [of "start_informer ty f"] Cons.prems show ?case
      by (auto simp: newly_started_def)
  qed (simp add: newly_started_def)
  then show "f_informers (fold start_informer order f) = f_informers f"
    and "f_made (fold start_informer order f) = f_made f"
    and "shuttingDown (fold start_informer order f) = shuttingDown f"
    and "is_started ty (fold start_informer order f) \<longleftrightarrow>
      is_started ty f \<or> ty \<in> set order \<and> f_informers f ty \<noteq> None"
    and "f_ran (fold start_informer order f) = f_ran f @ newly_started f order"
    and "f_wg (fold start_informer order f) = f_wg f @ newly_started f order"
    by blast+
qed

lemma set_newly_started:
  "set (newly_started f order) = {p. \<exists>ty \<in> set order. f_informers f ty = Some p \<and> \<not> is_started ty f}"
  by (force simp: newly_started_def image_iff)

subsection \<open>The invariant\<close>

text \<open>Every informer the factory has made is that of one type, and those it ever ran are exactly the
  informers of the started types, each run once.\<close>

definition started_ptrs :: "sharedInformerFactory \<Rightarrow> informer_ptr set" where
  "started_ptrs f = {p. \<exists>ty. f_informers f ty = Some p \<and> is_started ty f}"

definition factory_inv :: "sharedInformerFactory \<Rightarrow> bool" where
  "factory_inv f \<longleftrightarrow>
     (\<forall>ty p. f_informers f ty = Some p \<longrightarrow> p < length (f_made f)) \<and>
     (\<forall>ty ty' p. f_informers f ty = Some p \<longrightarrow> f_informers f ty' = Some p \<longrightarrow> ty = ty') \<and>
     (\<forall>ty. is_started ty f \<longrightarrow> f_informers f ty \<noteq> None) \<and>
     set (f_ran f) = started_ptrs f \<and> distinct (f_ran f) \<and>
     distinct (f_wg f) \<and> set (f_wg f) \<subseteq> started_ptrs f"

lemma informer_type: "factory_inv f \<Longrightarrow> f_informers f ty = Some p \<Longrightarrow> f_informers f ty' = Some p \<Longrightarrow> ty = ty'"
  unfolding factory_inv_def by blast

lemma set_ran: "factory_inv f \<Longrightarrow> set (f_ran f) = {p. \<exists>ty. f_informers f ty = Some p \<and> is_started ty f}"
  unfolding factory_inv_def started_ptrs_def by blast

lemma InformerFor_cases:
  assumes "InformerFor ty newFunc f = (p, f')"
  obtains (known) "f_informers f ty = Some p" "f' = f"
  | (made) i where "f_informers f ty = None" "p = length (f_made f)"
      "f' = f\<lparr>f_informers := (f_informers f)(ty \<mapsto> p), f_made := f_made f @ [i]\<rparr>"
  using assms by (fastforce simp: InformerFor_def Let_def split: option.splits)

lemma is_started_update [simp]:
  "is_started ty (f\<lparr>f_informers := m, f_made := i\<rparr>) = is_started ty f"
  "is_started ty (f\<lparr>f_wg := w\<rparr>) = is_started ty f"
  "is_started ty (f\<lparr>shuttingDown := b\<rparr>) = is_started ty f"
  by (simp_all add: is_started_def)

lemma started_ptrs_update [simp]:
  "started_ptrs (f\<lparr>f_wg := w\<rparr>) = started_ptrs f" "started_ptrs (f\<lparr>shuttingDown := b\<rparr>) = started_ptrs f"
  by (simp_all add: started_ptrs_def)

lemma started_ptrs_request:
  "\<not> is_started ty f \<Longrightarrow>
   started_ptrs (f\<lparr>f_informers := (f_informers f)(ty \<mapsto> p), f_made := i\<rparr>) = started_ptrs f"
  by (simp add: started_ptrs_def) metis

lemma factory_inv_request:
  assumes "factory_inv f" and "InformerFor ty newFunc f = (p, f')"
  shows "factory_inv f'"
  using assms(2)
proof (cases rule: InformerFor_cases)
  case (made i)
  from assms(1) have "f_informers f ty' \<noteq> Some (length (f_made f))" for ty'
    by (auto simp: factory_inv_def)
  moreover have "\<not> is_started ty f"
    using assms(1) made(1) by (auto simp: factory_inv_def)
  ultimately show ?thesis
    using assms(1) made by (auto simp: factory_inv_def less_Suc_eq started_ptrs_request)
qed (use assms(1) in simp)

lemma distinct_newly_started:
  assumes "factory_inv f" and "distinct order"
  shows "distinct (newly_started f order)"
proof -
  have "inj_on (\<lambda>ty. the (f_informers f ty)) (set (filter (\<lambda>ty. f_informers f ty \<noteq> None \<and> \<not> is_started ty f) order))"
    using assms(1) by (auto simp: factory_inv_def inj_on_def)
  with assms(2) show ?thesis
    by (simp add: newly_started_def distinct_map)
qed

lemma factory_inv_start:
  assumes "factory_inv f" and "distinct order" and "set order = dom (f_informers f)"
  shows "factory_inv (StartWithContext order f)"
proof (cases "shuttingDown f")
  case False
  note start = start_informers [OF assms(2), where f = f]
  have new: "set (newly_started f order) \<inter> set (f_ran f) = {}"
    by (auto simp: set_ran [OF assms(1)] set_newly_started dest: informer_type [OF assms(1)])
  let ?f = "fold start_informer order f"
  have started: "is_started ty ?f \<longleftrightarrow> f_informers f ty \<noteq> None" for ty
    using start(4) [of ty] assms(1,3) by (auto simp: factory_inv_def)
  have ptrs: "started_ptrs ?f = {p. \<exists>ty. f_informers f ty = Some p}"
    by (auto simp: started_ptrs_def started start(1))
  have "set (f_ran ?f) = started_ptrs ?f"
    by (auto simp: ptrs start(5) set_newly_started set_ran [OF assms(1)] assms(3) dom_def)
  moreover have "distinct (f_ran ?f)"
    using assms(1) new distinct_newly_started [OF assms(1,2)] by (auto simp: start(5) factory_inv_def)
  moreover have "set (f_wg f) \<subseteq> set (f_ran f)"
    using assms(1) by (simp add: factory_inv_def)
  then have "distinct (f_wg ?f)" "set (f_wg ?f) \<subseteq> set (f_ran ?f)"
    using assms(1) new distinct_newly_started [OF assms(1,2)] by (auto simp: start(5,6) factory_inv_def)
  ultimately have "factory_inv ?f"
    using assms(1) by (simp add: factory_inv_def started start(1,2))
  with False show ?thesis
    by (simp add: StartWithContext_def)
qed (use assms(1) in \<open>simp add: StartWithContext_def\<close>)

lemma factory_inv_run:
  "factory_run f0 ls f \<Longrightarrow> factory_inv f0 \<Longrightarrow> factory_inv f"
proof (induction rule: factory_run.induct)
  case (factory_end ls f p)
  then have inv: "factory_inv f"
    by blast
  then have "set (remove1 p (f_wg f)) \<subseteq> started_ptrs f"
    using set_remove1_subset [of p "f_wg f"] unfolding factory_inv_def by blast
  with inv show ?case
    by (simp add: factory_inv_def goroutine_ends_def)
next
  case (factory_shutdown ls f)
  then have "factory_inv f"
    by blast
  then show ?case
    by (simp add: factory_inv_def Shutdown_begin_def)
qed (blast intro: factory_inv_request factory_inv_start)+

subsection \<open>What has run\<close>

text \<open>The options of the package; the fields they set are not visible outside it.\<close>

definition provided_option :: "SharedInformerOption \<Rightarrow> bool" where
  "provided_option opt \<longleftrightarrow>
     (\<exists>c. opt = WithCustomResyncConfig c) \<or> (\<exists>t. opt = WithTweakListOptions t) \<or> (\<exists>n. opt = WithNamespace n) \<or>
     (\<exists>t. opt = WithTransform t) \<or> (\<exists>n. opt = WithInformerName n)"

definition fresh_factory :: "sharedInformerFactory \<Rightarrow> bool" where
  "fresh_factory f \<longleftrightarrow> f_informers f = Map.empty \<and> startedInformers f = Map.empty \<and> \<not> shuttingDown f \<and>
     f_made f = [] \<and> f_wg f = [] \<and> f_ran f = []"

lemma fresh_custom_resync: "fresh_factory f \<Longrightarrow> fresh_factory (set_custom_resync c f)"
  by (induction c f rule: set_custom_resync.induct) (auto simp: fresh_factory_def)

lemma fresh_option: "provided_option opt \<Longrightarrow> fresh_factory f \<Longrightarrow> fresh_factory (opt f)"
  using fresh_custom_resync
  by (auto simp: provided_option_def WithCustomResyncConfig_def WithTweakListOptions_def WithNamespace_def
      WithTransform_def WithInformerName_def fresh_factory_def)

lemma fresh_options:
  "\<forall>opt \<in> set options. provided_option opt \<Longrightarrow> fresh_factory f \<Longrightarrow> fresh_factory (fold (\<lambda>opt f. opt f) options f)"
  by (induction options arbitrary: f) (auto intro: fresh_option)

lemma new_factory:
  assumes "\<forall>opt \<in> set options. provided_option opt"
  shows "fresh_factory (NewSharedInformerFactoryWithOptions client resync options)"
  unfolding NewSharedInformerFactoryWithOptions_def
  by (rule fresh_options [OF assms]) (simp add: fresh_factory_def)

lemma fresh_inv: "fresh_factory f \<Longrightarrow> factory_inv f"
  by (simp add: fresh_factory_def factory_inv_def started_ptrs_def is_started_def)

text \<open>By its history: the informers that had been requested before some start, before any shutdown.\<close>

definition ran_by :: "factory_label list \<Rightarrow> informer_ptr set" where
  "ran_by ls = {p. \<exists>before order after ty. ls = before @ Started order # after \<and>
     ShutdownCalled \<notin> set before \<and> Requested ty p \<in> set before}"

lemma snoc_split:
  "ls @ [l] = before @ x # after \<longleftrightarrow>
   after = [] \<and> ls = before \<and> l = x \<or> (\<exists>rest. after = rest @ [l] \<and> ls = before @ x # rest)"
  by (cases after rule: rev_cases) auto

lemma ran_by_Nil [simp]: "ran_by [] = {}"
  by (simp add: ran_by_def)

lemma ran_by_snoc:
  "ran_by (ls @ [l]) = ran_by ls \<union>
     {p. \<exists>order ty. l = Started order \<and> ShutdownCalled \<notin> set ls \<and> Requested ty p \<in> set ls}"
  unfolding ran_by_def snoc_split by blast

lemma StartWithContext_frame:
  assumes "distinct order"
  shows "f_informers (StartWithContext order f) = f_informers f"
    and "shuttingDown (StartWithContext order f) = shuttingDown f"
    and "shuttingDown f \<Longrightarrow> StartWithContext order f = f"
    and "set order = dom (f_informers f) \<Longrightarrow> factory_inv f \<Longrightarrow> \<not> shuttingDown f \<Longrightarrow>
      set (f_ran (StartWithContext order f)) = ran (f_informers f)"
  using start_informers [OF assms]
  by (auto simp: StartWithContext_def set_newly_started set_ran dom_def ran_def)

lemma StartWithContext_history:
  assumes "distinct order" "set order = dom (f_informers f)" "factory_inv f"
    and "shuttingDown f \<longleftrightarrow> ShutdownCalled \<in> set ls" "set (f_ran f) = ran_by ls"
    and "\<And>ty p. Requested ty p \<in> set ls \<longleftrightarrow> f_informers f ty = Some p"
  shows "set (f_ran (StartWithContext order f)) = ran_by (ls @ [Started order])"
proof (cases "shuttingDown f")
  case True
  with assms(4,5) StartWithContext_frame(3) [OF assms(1) True] show ?thesis
    by (simp add: ran_by_snoc)
next
  case False
  with StartWithContext_frame(4) [OF assms(1-3)]
  have "set (f_ran (StartWithContext order f)) = {p. \<exists>ty. Requested ty p \<in> set ls}"
    using assms(6) by (simp add: ran_def)
  moreover have "ran_by ls \<subseteq> {p. \<exists>ty. Requested ty p \<in> set ls}"
    by (auto simp: ran_by_def)
  ultimately show ?thesis
    using assms(4) False by (auto simp: ran_by_snoc)
qed

lemma factory_history:
  assumes "factory_run f0 ls f" and "fresh_factory f0"
  shows "(Requested ty p \<in> set ls \<longleftrightarrow> f_informers f ty = Some p) \<and>
    (shuttingDown f \<longleftrightarrow> ShutdownCalled \<in> set ls) \<and> set (f_ran f) = ran_by ls \<and>
    (ShutdownReturned \<in> set ls \<longrightarrow> shuttingDown f \<and> f_wg f = [])"
  using assms
proof (induction arbitrary: ty p rule: factory_run.induct)
  case factory_new
  then show ?case
    by (simp add: fresh_factory_def)
next
  case (factory_request ls f ty' newFunc q f')
  note IH = factory_request.IH [OF factory_request.prems]
  from factory_request.hyps(2) show ?case
  proof (cases rule: InformerFor_cases)
    case (made i)
    with IH IH [of ty' p] show ?thesis
      by (auto simp: ran_by_snoc)
  qed (use IH in \<open>auto simp: ran_by_snoc\<close>)
next
  case (factory_start ls f order)
  note IH = factory_start.IH [OF factory_start.prems]
  have inv: "factory_inv f"
    by (rule factory_inv_run [OF factory_start.hyps(1) fresh_inv [OF factory_start.prems]])
  from StartWithContext_history [OF factory_start.hyps(2,3) inv, of ls] IH show ?case
    using StartWithContext_frame [OF factory_start.hyps(2), of f] by auto
qed (auto simp: ran_by_snoc goroutine_ends_def Shutdown_begin_def Shutdown_returns_def)

section \<open>Waiting\<close>

lemma sync_results_synced:
  "fst (sync_results informers hasSynced order synced failed) ty =
     (if ty \<in> set order \<and> informers ty \<noteq> None then Some (hasSynced (the (informers ty))) else synced ty)"
  by (induction order arbitrary: synced failed) (auto split: option.split)

lemma sync_results_failed:
  "snd (sync_results informers hasSynced order synced failed) \<longleftrightarrow>
     failed \<or> (\<exists>ty \<in> set order. \<exists>p. informers ty = Some p \<and> \<not> hasSynced p)"
  by (induction order arbitrary: synced failed) (auto split: option.split)

lemma WaitForCacheSync_started:
  assumes "set order = dom (f_informers f)"
  shows "WaitForCacheSync order hasSynced cause f = map_option hasSynced \<circ> started_informers f"
    and "SyncErr (WaitForCacheSyncWithContext order hasSynced cause f) =
      (if \<exists>ty p. started_informers f ty = Some p \<and> \<not> hasSynced p then Some cause else None)"
proof -
  have dom: "started_informers f ty = Some p \<Longrightarrow> ty \<in> set order" for ty p
    using assms by (auto simp: started_informers_def split: if_splits)
  show "WaitForCacheSync order hasSynced cause f = map_option hasSynced \<circ> started_informers f"
    using dom by (auto simp: WaitForCacheSync_def WaitForCacheSyncWithContext_def case_prod_beta
        sync_results_synced fun_eq_iff map_option_case split: option.split)
  show "SyncErr (WaitForCacheSyncWithContext order hasSynced cause f) =
      (if \<exists>ty p. started_informers f ty = Some p \<and> \<not> hasSynced p then Some cause else None)"
    using dom by (auto simp: WaitForCacheSyncWithContext_def case_prod_beta sync_results_failed)
qed

section \<open>One informer per type, run once\<close>

text \<open>
  C25: whatever is asked of a factory in whatever order, every type has one informer that is handed out
  for ever and belongs to no other type; the informers that ever run are exactly those that had been
  requested before a start that came before any shutdown, each run once; and once a shutdown has
  returned nothing runs any more.
\<close>

theorem informer_factory_protocol:
  assumes "factory_run (NewSharedInformerFactoryWithOptions client resync options) ls f"
    and "\<forall>opt \<in> set options. provided_option opt"
  shows "(Requested ty p \<in> set ls \<and> Requested ty' p' \<in> set ls \<longrightarrow> (ty = ty' \<longleftrightarrow> p = p')) \<and>
    distinct (f_ran f) \<and> set (f_ran f) = ran_by ls \<and> set (f_wg f) \<subseteq> ran_by ls \<and>
    (ShutdownReturned \<in> set ls \<longrightarrow> f_wg f = [])"
proof -
  note fresh = new_factory [OF assms(2), of client resync]
  from factory_inv_run [OF assms(1) fresh_inv [OF fresh]] have inv: "factory_inv f" .
  note hist = factory_history [OF assms(1) fresh]
  have "Requested ty p \<in> set ls \<and> Requested ty' p' \<in> set ls \<longrightarrow> (ty = ty' \<longleftrightarrow> p = p')"
    using hist [of ty p] hist [of ty' p'] informer_type [OF inv, of ty p ty'] by auto
  with inv hist show ?thesis
    by (simp add: factory_inv_def)
qed

text \<open>A factory whose informer is requested, started twice and shut down.\<close>

definition demo_clients :: Clientset where
  "demo_clients = \<lparr>DiscoveryClient = 5, devicenetworkV1alpha1 = \<lparr>restClient = 4\<rparr>\<rparr>"

lemma informer_factory_protocol_witness:
  "\<exists>ls f. factory_run (NewSharedInformerFactoryWithOptions demo_clients 30 [WithNamespace ''default'']) ls f \<and>
     ls = [Requested DeviceNetworkType 0, Started [DeviceNetworkType], Requested DeviceNetworkType 0,
           Started [DeviceNetworkType], ShutdownCalled, Ended 0, ShutdownReturned] \<and>
     f_ran f = [0] \<and> f_wg f = []"
proof -
  let ?new = "NewSharedInformerFactoryWithOptions demo_clients 30 [WithNamespace ''default'']"
  let ?i = "\<lambda>c r. NewDeviceNetworkInformer lib c r []"
  have f0: "f_informers ?new = Map.empty" "startedInformers ?new = Map.empty" "\<not> shuttingDown ?new" "f_made ?new = []"
      "f_wg ?new = []" "f_ran ?new = []"
    using new_factory [of "[WithNamespace ''default'']" demo_clients 30]
    by (auto simp: fresh_factory_def provided_option_def)
  obtain f1 where f1: "InformerFor DeviceNetworkType ?i ?new = (0, f1)" "f_informers f1 = [DeviceNetworkType \<mapsto> 0]"
      "startedInformers f1 = Map.empty" "\<not> shuttingDown f1" "f_wg f1 = []" "f_ran f1 = []"
    using f0 by (auto simp: InformerFor_def Let_def)
  let ?f2 = "StartWithContext [DeviceNetworkType] f1"
  have f2: "f_informers ?f2 = [DeviceNetworkType \<mapsto> 0]" "\<not> shuttingDown ?f2" "f_wg ?f2 = [0]" "f_ran ?f2 = [0]"
      "StartWithContext [DeviceNetworkType] ?f2 = ?f2" "InformerFor DeviceNetworkType ?i ?f2 = (0, ?f2)"
    using f1 by (auto simp: StartWithContext_def start_informer_def is_started_def InformerFor_def)
  note r1 = factory_request [OF factory_new f1(1)]
  have r2: "factory_run ?new [Requested DeviceNetworkType 0, Started [DeviceNetworkType]] ?f2"
    using factory_start [OF r1, of "[DeviceNetworkType]"] f1(2) by simp
  have r3: "factory_run ?new [Requested DeviceNetworkType 0, Started [DeviceNetworkType], Requested DeviceNetworkType 0,
      Started [DeviceNetworkType]] ?f2"
    using factory_start [OF factory_request [OF r2 f2(6)], of "[DeviceNetworkType]"] f2(1,5) by simp
  let ?f3 = "goroutine_ends 0 (Shutdown_begin ?f2)"
  have f3: "f_ran ?f3 = [0]" "f_wg ?f3 = []" "shuttingDown ?f3"
    using f2 by (simp_all add: goroutine_ends_def Shutdown_begin_def)
  have "factory_run ?new ([Requested DeviceNetworkType 0, Started [DeviceNetworkType], Requested DeviceNetworkType 0,
      Started [DeviceNetworkType], ShutdownCalled, Ended 0] @ [ShutdownReturned]) ?f3"
    using factory_shut_down [OF factory_end [OF factory_shutdown [OF r3], of 0] f3(3)] f2(3) f3(2)
    by (simp add: Shutdown_begin_def Shutdown_returns_def)
  from informer_factory_protocol [OF this] this f3 show ?thesis
    by (auto simp: provided_option_def)
qed

section \<open>A factory with the DeviceNetwork informer\<close>

lemma Informer_known:
  assumes "f_informers f DeviceNetworkType = Some p"
  shows "deviceNetworkInformer_Informer lib i f = (p, f)" and "deviceNetworkInformer_Lister lib i f = (p, f)"
  using assms by (simp_all add: deviceNetworkInformer_Informer_def deviceNetworkInformer_Lister_def
      TypedInformer_def InformerFor_def NewDeviceNetworkLister_def)

text \<open>The factory after the first request, without options.\<close>

definition shared_factory :: "rest_lib \<Rightarrow> Clientset \<Rightarrow> int \<Rightarrow> sharedInformerFactory" where
  "shared_factory lib client resync =
     (NewSharedInformerFactory client resync)\<lparr>
        f_informers := [DeviceNetworkType \<mapsto> 0],
        f_made := [NewTypedDeviceNetworkInformerWithOptions lib client
          \<lparr>io_ResyncPeriod = resync, io_Indexers = [''namespace''], io_InformerName = None,
           io_TweakListOptions = None\<rparr>]\<rparr>"

lemma shared_factory_simps [simp]:
  "f_informers (shared_factory lib client resync) = [DeviceNetworkType \<mapsto> 0]"
  "is_started ty (shared_factory lib client resync) = False"
  "shuttingDown (shared_factory lib client resync) = False"
  "f_wg (shared_factory lib client resync) = []" "f_ran (shared_factory lib client resync) = []"
  by (simp_all add: shared_factory_def NewSharedInformerFactory_def NewSharedInformerFactoryWithOptions_def
      is_started_def)

lemma first_request:
  "InformerFor DeviceNetworkType
     (defaultInformer lib (version_DeviceNetworks (V1alpha1 (Devicenetwork (NewSharedInformerFactory client resync))))
       (NewSharedInformerFactory client resync))
     (NewSharedInformerFactory client resync) = (0, shared_factory lib client resync)"
  by (simp add: shared_factory_def InformerFor_def NewSharedInformerFactory_def
      NewSharedInformerFactoryWithOptions_def defaultInformer_def InformerName_def version_DeviceNetworks_def
      V1alpha1_def Devicenetwork_def Let_def NewTypedDeviceNetworkInformerWithOptions_def)

lemma first_lister:
  "deviceNetworkInformer_Lister lib
     (version_DeviceNetworks (V1alpha1 (Devicenetwork (NewSharedInformerFactory client resync))))
     (NewSharedInformerFactory client resync) = (0, shared_factory lib client resync)"
  by (simp add: deviceNetworkInformer_Lister_def deviceNetworkInformer_Informer_def TypedInformer_def
      NewDeviceNetworkLister_def first_request)

lemma start_shared_factory:
  assumes "distinct order" and "set order = dom (f_informers (shared_factory lib client resync))"
  shows "Factory_Start order (shared_factory lib client resync) =
    (shared_factory lib client resync)\<lparr>startedInformers := [DeviceNetworkType \<mapsto> True], f_wg := [0], f_ran := [0]\<rparr>"
proof -
  have "length order = 1"
    using distinct_card [OF assms(1)] assms(2) by simp
  then have "order = [DeviceNetworkType]"
    using assms(2) by (cases order) auto
  then show ?thesis
    by (simp add: Factory_Start_def StartWithContext_def start_informer_def shared_factory_def
        NewSharedInformerFactory_def NewSharedInformerFactoryWithOptions_def is_started_def)
qed

end
