(* ===== verification/Startup.thy ===== *)
theory Startup
  imports Controller Driver NriPlugin Informer InformerFactory
begin

text \<open>
  Starting the program: \<open>cmd/cmd/run.go\<close>, the constructors it calls and the loops it starts. The
  DeviceNetwork client and its informer factory are those of \<open>Clients\<close> and \<open>InformerFactory\<close>; the clients
  and factories of Kubernetes' own types and the kubelet plugin are not part of the repository: what
  they answer is the parameter \<open>start_env\<close>, and the calls that have an effect outside the program are
  recorded in order.

  The four goroutines of \<open>run\<close> assign their result to one variable of the enclosing function; they
  are a step relation over that variable.
\<close>

section \<open>The options\<close>

record runOptions =
  pluginName :: string
  pluginIndex :: string
  ro_podNetworkKind :: string
  DRADriverName :: string
  NodeName :: string
  verbosity :: int

text \<open>\<open>newCmdRun\<close>: a flag that is not given leaves its default.\<close>

definition newCmdRun :: "(string \<rightharpoonup> string) \<Rightarrow> (string \<rightharpoonup> int) \<Rightarrow> runOptions" where
  "newCmdRun flags intFlags =
     (let str = (\<lambda>name default. case flags name of None \<Rightarrow> default | Some v \<Rightarrow> v);
          num = (\<lambda>name default. case intFlags name of None \<Rightarrow> default | Some v \<Rightarrow> v)
      in \<lparr>pluginName = str ''plugin-name'' ''devicenetwork'',
          pluginIndex = str ''plugin-index'' '''',
          ro_podNetworkKind = str ''pod-network-kind'' ''devicenetwork-io-devicenetwork'',
          DRADriverName = str ''dra-driver-name'' ''devicenetwork.io'',
          NodeName = str ''node-name'' '''',
          verbosity = num ''verbosity'' 0\<rparr>)"

section \<open>What is outside\<close>

datatype component = ResolverRun | DeviceCacheRun | ControllerRun | NriPluginRun

datatype factory = DeviceNetworkFactory | NodeFactory | ResourceSliceFactory

datatype run_op =
    MkdirAll "string list"
  | PluginStart string string
  | PluginStop
  | FactoryStarted factory
  | CacheSyncWaited factory
  | GoRun component
  | ContextDone

text \<open>
  The informer factories of Kubernetes' own types: the client they list with, the period of their resync,
  and the terms of the field selector they list with, which \<open>fields\<close> joins to a conjunction.
\<close>

record kube_factory =
  kf_client :: kube_client
  kf_resync :: int
  kf_FieldSelector :: "(string \<times> string) list"

text \<open>The informers whose events somebody may handle, and the kinds of events. \<open>se_content\<close> is what the
  store of the synthetic informer holds when a part of the program reads it; \<open>se_GetDeviceNetwork\<close> and
  \<open>se_ListDeviceNetworks\<close> are what a lister answers that reads the index of the given informer; \<open>se_ByIndex\<close>
  and \<open>se_GetNode\<close> read the informer of resource slices or nodes of the given factory; \<open>se_Synced\<close> tells
  of which factories the caches sync in the end; \<open>se_iteration\<close> is the order in which Go visits the entries
  of a map. \<open>se_FlagParse\<close> is what the flag set of \<open>klog\<close> finds wrong with the arguments of the process.\<close>

datatype watched = DeviceNetworks | Devices | Nodes

datatype event_kind = AddEvent | UpdateEvent | DeleteEvent

record 's start_env =
  se_FlagParse :: "liberr option"
  se_InClusterConfig :: "liberr + rest_config"
  se_rest :: rest_lib
  se_KubeClient :: "rest_config \<Rightarrow> liberr + kube_client"
  se_AddIndexers :: "liberr option"
  se_ByIndex :: "kube_factory \<Rightarrow> string \<Rightarrow> liberr + slice_obj list"
  se_iteration :: "(object_type \<rightharpoonup> informer_ptr) \<Rightarrow> object_type list"
  se_GetDeviceNetwork :: "informer_ptr \<Rightarrow> string \<Rightarrow> liberr + DeviceNetwork"
  se_ListDeviceNetworks :: "informer_ptr \<Rightarrow> liberr + DeviceNetwork list"
  se_GetNode :: "kube_factory \<Rightarrow> string \<Rightarrow> liberr + KubeNode"
  se_emptyStore :: "'s"
  se_store :: "'s informer_store"
  se_content :: "'s"
  se_cel :: cel_lib
  se_unsorted :: "HostDevice list \<Rightarrow> HostDevice list"
  se_MkdirAll :: "string list \<Rightarrow> liberr option"
  se_StartPlugin :: "kube_client \<Rightarrow> string \<Rightarrow> string \<Rightarrow> liberr option"
  se_RegistrationStatus :: "bool option list"
  se_PollTimeout :: liberr
  se_PublishResources :: "DriverResources \<Rightarrow> liberr option"
  se_AddEventHandler :: "watched \<Rightarrow> liberr option"
  se_Synced :: "factory \<Rightarrow> bool"

section \<open>The constructors\<close>

definition NewResolver ::
  "'s start_env \<Rightarrow> string \<Rightarrow> kube_factory \<Rightarrow> deviceNetworkInformer \<Rightarrow> sharedInformerFactory \<Rightarrow>
   (Resolver, liberr) res \<times> sharedInformerFactory" where
  "NewResolver env kind' slices dni f =
     (let (deviceNetworkLister, f1) = deviceNetworkInformer_Lister (se_rest env) dni f;
          (deviceNetworkSynced, f2) = deviceNetworkInformer_Informer (se_rest env) dni f1
      in case se_AddIndexers env of
           Some e \<Rightarrow> (Err e, f2)
         | None \<Rightarrow> (Ok \<lparr>r_podNetworkKind = kind', r_ByIndex = se_ByIndex env slices,
                       r_GetDeviceNetwork = se_GetDeviceNetwork env deviceNetworkLister,
                       r_GetHostDevice = DeviceCache_Get (se_store env) (se_content env)\<rparr>, f2))"

definition NewDeviceNetworkReconciler ::
  "'s start_env \<Rightarrow> string \<Rightarrow> string \<Rightarrow> informer_ptr \<Rightarrow> kube_factory \<Rightarrow> (DriverResources \<Rightarrow> liberr option) option \<Rightarrow>
   (DeviceType \<rightharpoonup> Configurator) \<Rightarrow> (DeviceNetworkReconciler, liberr) res" where
  "NewDeviceNetworkReconciler env node kind' deviceNetworkLister nodes publish configurators =
     Ok \<lparr>nodeName = node, podNetworkKind = kind',
         dnr_ListDevices = DeviceCache_List (se_store env) (se_cel env) (se_unsorted env) (se_content env),
         dnr_GetNode = se_GetNode env nodes, dnr_ListDeviceNetworks = se_ListDeviceNetworks env deviceNetworkLister,
         publishResourcesFunc = publish, dnr_deviceConfigurators = configurators\<rparr>"

text \<open>The controller keeps the handlers it registered; each event calls them with its kind.\<close>

record DeviceNetworkController =
  dnc_reconciler :: DeviceNetworkReconciler
  dnc_handlers :: "watched \<rightharpoonup> (event_kind \<Rightarrow> queue_op list)"

definition event_handlers :: "event_kind \<Rightarrow> queue_op list" where
  "event_handlers ev =
     (case ev of AddEvent \<Rightarrow> onEvent | UpdateEvent \<Rightarrow> onEvent | DeleteEvent \<Rightarrow> onEvent)"

definition NewDeviceNetworkController ::
  "'s start_env \<Rightarrow> string \<Rightarrow> string \<Rightarrow> deviceNetworkInformer \<Rightarrow> kube_factory \<Rightarrow> (DriverResources \<Rightarrow> liberr option) option \<Rightarrow>
   (DeviceType \<rightharpoonup> Configurator) \<Rightarrow> sharedInformerFactory \<Rightarrow>
   (DeviceNetworkController, liberr) res \<times> sharedInformerFactory" where
  "NewDeviceNetworkController env node kind' dni nodes publish configurators f =
     (let (deviceNetworkSynced, f1) = deviceNetworkInformer_Informer (se_rest env) dni f;
          (deviceNetworkLister, f2) = deviceNetworkInformer_Lister (se_rest env) dni f1
      in case NewDeviceNetworkReconciler env node kind' deviceNetworkLister nodes publish configurators of
           Err e \<Rightarrow> (Err e, f2)
         | Panic \<Rightarrow> (Panic, f2)
         | Diverge \<Rightarrow> (Diverge, f2)
         | Ok reconciler \<Rightarrow>
             (let (informer, f3) = deviceNetworkInformer_Informer (se_rest env) dni f2 in
              case se_AddEventHandler env DeviceNetworks of
                Some e \<Rightarrow> (Err e, f3)
              | None \<Rightarrow>
                  (case se_AddEventHandler env Devices of
                     Some e \<Rightarrow> (Err e, f3)
                   | None \<Rightarrow>
                       (Ok \<lparr>dnc_reconciler = reconciler,
                           dnc_handlers = [DeviceNetworks \<mapsto> event_handlers, Devices \<mapsto> event_handlers]\<rparr>, f3))))"

section \<open>The driver\<close>

datatype start_error =
    FailedToCreatePluginPath "string list" liberr
  | StartKubeletPlugin liberr
  | NotRegistered liberr

text \<open>The condition of the poll, and the poll over the answers it gets before its timeout.\<close>

definition plugin_registered :: "bool option \<Rightarrow> bool" where
  "plugin_registered status = (case status of None \<Rightarrow> False | Some registered \<Rightarrow> registered)"

fun poll_until_registered :: "liberr \<Rightarrow> bool option list \<Rightarrow> liberr option" where
  "poll_until_registered timeout [] = Some timeout"
| "poll_until_registered timeout (status # rest) =
     (if plugin_registered status then None else poll_until_registered timeout rest)"

definition Driver_Start ::
  "'s start_env \<Rightarrow> string \<Rightarrow> string \<Rightarrow> string \<Rightarrow> kube_client \<Rightarrow> store_ptr \<Rightarrow>
   (DeviceRequestAllocationResult \<Rightarrow> (ResolvedDevice option, resolver_error) res) \<Rightarrow>
   (DeviceType \<rightharpoonup> Configurator) \<Rightarrow> (Driver, start_error) res \<times> run_op list" where
  "Driver_Start env kind' driver node kubeClient memoryStore resolver configurators =
     (let d = \<lparr>d_podNetworkKind = kind', driverName = driver, d_kubeClient = kubeClient,
               d_podResourceStore = memoryStore, deviceResolver = resolver, d_deviceConfigurators = configurators\<rparr>;
          driverPluginPath = [''/var/lib/kubelet/plugins/'', driver];
          ops1 = [MkdirAll driverPluginPath]
      in case se_MkdirAll env driverPluginPath of
           Some e \<Rightarrow> (Err (FailedToCreatePluginPath driverPluginPath e), ops1)
         | None \<Rightarrow>
             (let ops2 = ops1 @ [PluginStart driver node] in
              case se_StartPlugin env kubeClient driver node of
                Some e \<Rightarrow> (Err (StartKubeletPlugin e), ops2)
              | None \<Rightarrow>
                  (case poll_until_registered (se_PollTimeout env) (se_RegistrationStatus env) of
                     Some e \<Rightarrow> (Err (NotRegistered e), ops2)
                   | None \<Rightarrow> (Ok d, ops2))))"

text \<open>\<open>Stop\<close>; the argument tells whether \<open>draPlugin\<close> is set.\<close>

definition Driver_Stop :: "bool \<Rightarrow> run_op list" where
  "Driver_Stop draPlugin = (if draPlugin then [PluginStop] else [])"

section \<open>run\<close>

text \<open>\<open>FlagParseExits\<close> is not returned: \<open>flag.Parse\<close> ends the process with status 2.\<close>

datatype run_error =
    FlagParseExits liberr
  | FailedInClusterConfig liberr
  | FailedNewForConfig client_error
  | FailedToCreateResolver liberr
  | FailedToStartDRA start_error
  | FailedToCreateController liberr

text \<open>
  What \<open>run\<close> put together, with the driver name, the store and the configurators it gave the plugin;
  \<open>prog_Stores\<close> are the stores it made, by their pointers.
\<close>

record 's program =
  prog_Factory :: sharedInformerFactory
  prog_NodeFactory :: kube_factory
  prog_SliceFactory :: kube_factory
  prog_DeviceCache :: "'s DeviceCache"
  prog_Resolver :: Resolver
  prog_Driver :: Driver
  prog_Controller :: DeviceNetworkController
  prog_Stores :: "Memory list"
  prog_Plugin :: Plugin
  prog_PluginStore :: store_ptr
  prog_PluginDriver :: string
  prog_PluginConfigurators :: "DeviceType \<rightharpoonup> Configurator"

definition defaultInformerResyncPeriod :: int where
  "defaultInformerResyncPeriod = 30 * 1000000000"

definition node_selector :: "runOptions \<Rightarrow> (string \<times> string) list" where
  "node_selector ro = [(''metadata.name'', NodeName ro)]"

definition slice_selector :: "runOptions \<Rightarrow> (string \<times> string) list" where
  "slice_selector ro = [(''spec.driver'', DRADriverName ro), (''spec.nodeName'', NodeName ro)]"

text \<open>
  \<open>run\<close> with a context that is done in the end: then each wait for caches returns, synced or not, and so
  does the receive from the context's channel. \<open>Program\<close> has the context the program really gets.
\<close>

definition run ::
  "multinetwork_api \<Rightarrow> device_id \<Rightarrow> json_lib \<Rightarrow> kernel \<Rightarrow> 's start_env \<Rightarrow> runOptions \<Rightarrow>
   ('s program, run_error) res \<times> run_op list" where
  "run mn ids json k env ro =
     (case se_FlagParse env of
        Some e \<Rightarrow> (Err (FlagParseExits e), [])
      | None \<Rightarrow>
     (case se_InClusterConfig env of
        Inl e \<Rightarrow> (Err (FailedInClusterConfig e), [])
      | Inr clientCfg \<Rightarrow>
     (case NewForConfig (se_rest env) clientCfg of
        Err e \<Rightarrow> (Err (FailedNewForConfig e), [])
      | Panic \<Rightarrow> (Panic, [])
      | Diverge \<Rightarrow> (Diverge, [])
      | Ok deviceNetworkClient \<Rightarrow>
     (case se_KubeClient env clientCfg of
        Inl e \<Rightarrow> (Err (FailedNewForConfig (ClientLibrary e)), [])
      | Inr kubeClient \<Rightarrow>
     (let f0 = NewSharedInformerFactory deviceNetworkClient defaultInformerResyncPeriod;
          nodeFactory = \<lparr>kf_client = kubeClient, kf_resync = defaultInformerResyncPeriod,
                         kf_FieldSelector = node_selector ro\<rparr>;
          sliceFactory = \<lparr>kf_client = kubeClient, kf_resync = defaultInformerResyncPeriod,
                          kf_FieldSelector = slice_selector ro\<rparr>;
          deviceCache = NewDeviceCache (se_emptyStore env) in
      case NewResolver env (ro_podNetworkKind ro) sliceFactory
             (version_DeviceNetworks (V1alpha1 (Devicenetwork f0))) f0 of
        (Err e, _) \<Rightarrow> (Err (FailedToCreateResolver e), [])
      | (Panic, _) \<Rightarrow> (Panic, [])
      | (Diverge, _) \<Rightarrow> (Diverge, [])
      | (Ok resolver, f1) \<Rightarrow>
     (let memoryStore = 0;
          stores = [NewMemory];
          configurators = deviceConfigurators json k;
          nriPlugin = NewPlugin (stores ! memoryStore)
      in case Driver_Start env (ro_podNetworkKind ro) (DRADriverName ro) (NodeName ro) kubeClient memoryStore
                (run_deviceResolver mn ids resolver) configurators of
        (Err e, ops) \<Rightarrow> (Err (FailedToStartDRA e), ops)
      | (Panic, ops) \<Rightarrow> (Panic, ops)
      | (Diverge, ops) \<Rightarrow> (Diverge, ops)
      | (Ok draDriver, ops) \<Rightarrow>
     (case NewDeviceNetworkController env (NodeName ro) (ro_podNetworkKind ro)
             (version_DeviceNetworks (V1alpha1 (Devicenetwork f1))) nodeFactory (Some (se_PublishResources env))
             configurators f1 of
        (Err e, _) \<Rightarrow> (Err (FailedToCreateController e), ops @ Driver_Stop True)
      | (Panic, _) \<Rightarrow> (Panic, ops @ Driver_Stop True)
      | (Diverge, _) \<Rightarrow> (Diverge, ops)
      | (Ok controller, f2) \<Rightarrow>
          (let f3 = Factory_Start (se_iteration env (f_informers f2)) f2 in
           (Ok \<lparr>prog_Factory = f3, prog_NodeFactory = nodeFactory, prog_SliceFactory = sliceFactory,
                prog_DeviceCache = deviceCache, prog_Resolver = resolver,
                prog_Driver = draDriver, prog_Controller = controller,
                prog_Stores = stores, prog_Plugin = nriPlugin, prog_PluginStore = memoryStore,
                prog_PluginDriver = DRADriverName ro, prog_PluginConfigurators = configurators\<rparr>,
            ops @ [FactoryStarted DeviceNetworkFactory, FactoryStarted NodeFactory, FactoryStarted ResourceSliceFactory,
                   CacheSyncWaited DeviceNetworkFactory, CacheSyncWaited NodeFactory, CacheSyncWaited ResourceSliceFactory,
                   GoRun ResolverRun, GoRun DeviceCacheRun, GoRun ControllerRun, GoRun NriPluginRun,
                   ContextDone] @ Driver_Stop True)))))))))"


subsection \<open>What run leaves behind\<close>

definition spawns :: "run_op list \<Rightarrow> component list" where
  "spawns ops = concat (map (\<lambda>op. case op of GoRun c \<Rightarrow> [c] | _ \<Rightarrow> []) ops)"

lemma spawns_simps [simp]:
  "spawns [] = []"
  "spawns (op # ops) = (case op of GoRun c \<Rightarrow> c # spawns ops | _ \<Rightarrow> spawns ops)"
  "spawns (ops @ ops') = spawns ops @ spawns ops'"
  by (auto simp: spawns_def split: run_op.split)

lemma poll_until_registered_None:
  "poll_until_registered timeout sts = None \<longleftrightarrow> Some True \<in> set sts"
  by (induction sts) (auto simp: plugin_registered_def split: option.splits)

lemma Driver_Start_cases:
  assumes "Driver_Start env kind' driver node kc st resolver configurators = (out, ops)"
  obtains (ok) d where "out = Ok d" "d_podNetworkKind d = kind'" "driverName d = driver"
      "d_kubeClient d = kc" "d_podResourceStore d = st" "deviceResolver d = resolver" "d_deviceConfigurators d = configurators"
      "ops = [MkdirAll [''/var/lib/kubelet/plugins/'', driver], PluginStart driver node]"
      "Some True \<in> set (se_RegistrationStatus env)"
  | (unregistered) "out = Err (NotRegistered (se_PollTimeout env))"
      "ops = [MkdirAll [''/var/lib/kubelet/plugins/'', driver], PluginStart driver node]"
      "se_StartPlugin env kc driver node = None" "Some True \<notin> set (se_RegistrationStatus env)"
  | (failed) e where "out = Err e" "(\<exists>path x. e = FailedToCreatePluginPath path x) \<or> (\<exists>x. e = StartKubeletPlugin x)"
      "spawns ops = []" "PluginStop \<notin> set ops"
      "PluginStart driver node \<in> set ops \<longleftrightarrow> (\<exists>x. e = StartKubeletPlugin x)"
proof -
  have timeout: "poll_until_registered t sts = Some e \<Longrightarrow> e = t" for t e sts
    by (induction sts) (auto split: if_splits)
  show thesis
  proof (cases "se_MkdirAll env [''/var/lib/kubelet/plugins/'', driver]")
    case None
    show thesis
    proof (cases "se_StartPlugin env kc driver node")
      case start: None
      show thesis
      proof (cases "poll_until_registered (se_PollTimeout env) (se_RegistrationStatus env)")
        case poll: None
        with None start assms show thesis
          by (intro ok) (auto simp: Driver_Start_def Let_def poll_until_registered_None)
      next
        case (Some e)
        from timeout [OF this] None start Some assms show thesis
          by (intro unregistered)
            (auto simp: Driver_Start_def Let_def simp flip: poll_until_registered_None [of "se_PollTimeout env"])
      qed
    next
      case (Some e)
      with None assms show thesis
        by (intro failed [of "StartKubeletPlugin e"]) (auto simp: Driver_Start_def Let_def)
    qed
  next
    case (Some e)
    with assms show thesis
      by (intro failed) (auto simp: Driver_Start_def Let_def)
  qed
qed

text \<open>The program that \<open>run\<close> puts together: one pod network kind, one driver name, one map of
  configurators, one store, one Kubernetes client and one DeviceNetwork informer for all of its parts. The
  nodes and the resource slices it lists are its own node and the slices of its driver for this node; the
  resolver reads the latter and the controller the former.\<close>

definition wired ::
  "multinetwork_api \<Rightarrow> device_id \<Rightarrow> json_lib \<Rightarrow> kernel \<Rightarrow> 's start_env \<Rightarrow> runOptions \<Rightarrow> 's program \<Rightarrow> bool" where
  "wired mn ids json k env ro p \<longleftrightarrow>
     (\<exists>cfg kubeClient. se_InClusterConfig env = Inr cfg \<and> se_KubeClient env cfg = Inr kubeClient \<and>
        prog_NodeFactory p = \<lparr>kf_client = kubeClient, kf_resync = defaultInformerResyncPeriod,
          kf_FieldSelector = [(''metadata.name'', NodeName ro)]\<rparr> \<and>
        prog_SliceFactory p = \<lparr>kf_client = kubeClient, kf_resync = defaultInformerResyncPeriod,
          kf_FieldSelector = [(''spec.driver'', DRADriverName ro), (''spec.nodeName'', NodeName ro)]\<rparr> \<and>
        prog_Driver p = \<lparr>d_podNetworkKind = ro_podNetworkKind ro, driverName = DRADriverName ro,
          d_kubeClient = kubeClient, d_podResourceStore = prog_PluginStore p,
          deviceResolver = run_deviceResolver mn ids (prog_Resolver p),
          d_deviceConfigurators = deviceConfigurators json k\<rparr>) \<and>
     prog_DeviceCache p = NewDeviceCache (se_emptyStore env) \<and>
     prog_Resolver p = \<lparr>r_podNetworkKind = ro_podNetworkKind ro, r_ByIndex = se_ByIndex env (prog_SliceFactory p),
       r_GetDeviceNetwork = se_GetDeviceNetwork env 0,
       r_GetHostDevice = DeviceCache_Get (se_store env) (se_content env)\<rparr> \<and>
     dnc_reconciler (prog_Controller p) = \<lparr>nodeName = NodeName ro, podNetworkKind = ro_podNetworkKind ro,
       dnr_ListDevices = DeviceCache_List (se_store env) (se_cel env) (se_unsorted env) (se_content env),
       dnr_GetNode = se_GetNode env (prog_NodeFactory p), dnr_ListDeviceNetworks = se_ListDeviceNetworks env 0,
       publishResourcesFunc = Some (se_PublishResources env),
       dnr_deviceConfigurators = deviceConfigurators json k\<rparr> \<and>
     dom (dnc_handlers (prog_Controller p)) = {DeviceNetworks, Devices} \<and>
     prog_Plugin p = NewPlugin (prog_Stores p ! prog_PluginStore p) \<and> prog_Stores p = [NewMemory] \<and>
     prog_PluginStore p < length (prog_Stores p) \<and>
     prog_PluginDriver p = driverName (prog_Driver p) \<and>
     prog_PluginConfigurators p = d_deviceConfigurators (prog_Driver p)"

lemma wired_driver:
  assumes "wired mn ids json k env ro p"
  shows "d_podNetworkKind (prog_Driver p) = ro_podNetworkKind ro" "driverName (prog_Driver p) = DRADriverName ro"
    "d_podResourceStore (prog_Driver p) = prog_PluginStore p"
    "deviceResolver (prog_Driver p) = run_deviceResolver mn ids (prog_Resolver p)"
    "d_deviceConfigurators (prog_Driver p) = deviceConfigurators json k"
    "prog_PluginDriver p = DRADriverName ro" "prog_PluginConfigurators p = deviceConfigurators json k"
  using assms by (auto simp: wired_def)

text \<open>The resolver requests the first informer of its factory, number 0, and the controller gets it again.\<close>

lemma NewResolver_first:
  "NewResolver env kind' slices (version_DeviceNetworks (V1alpha1 (Devicenetwork (NewSharedInformerFactory cl r))))
     (NewSharedInformerFactory cl r) =
   ((case se_AddIndexers env of
       Some e \<Rightarrow> Err e
     | None \<Rightarrow> Ok \<lparr>r_podNetworkKind = kind', r_ByIndex = se_ByIndex env slices, r_GetDeviceNetwork = se_GetDeviceNetwork env 0,
                   r_GetHostDevice = DeviceCache_Get (se_store env) (se_content env)\<rparr>),
    shared_factory (se_rest env) cl r)"
  by (simp add: NewResolver_def first_lister Informer_known split: option.split)

lemma NewDeviceNetworkController_shared:
  assumes "f_informers f DeviceNetworkType = Some i"
  shows "NewDeviceNetworkController env node kind' dni nodes publish configurators f =
    ((case (se_AddEventHandler env DeviceNetworks, se_AddEventHandler env Devices) of
        (Some e, _) \<Rightarrow> Err e
      | (None, Some e) \<Rightarrow> Err e
      | (None, None) \<Rightarrow>
          Ok \<lparr>dnc_reconciler = \<lparr>nodeName = node, podNetworkKind = kind',
               dnr_ListDevices = DeviceCache_List (se_store env) (se_cel env) (se_unsorted env) (se_content env),
               dnr_GetNode = se_GetNode env nodes, dnr_ListDeviceNetworks = se_ListDeviceNetworks env i,
               publishResourcesFunc = publish, dnr_deviceConfigurators = configurators\<rparr>,
             dnc_handlers = [DeviceNetworks \<mapsto> event_handlers, Devices \<mapsto> event_handlers]\<rparr>), f)"
  by (simp add: NewDeviceNetworkController_def NewDeviceNetworkReconciler_def Informer_known [OF assms]
      split: option.split)

lemma NewForConfig_returns: "NewForConfig lib c \<noteq> Panic" "NewForConfig lib c \<noteq> Diverge"
  by (rule NewForConfig_cases [OF refl, of lib c]; simp)+

lemma run_OkD:
  assumes "run mn ids json k env ro = (Ok p, ops)"
  obtains cfg cl where "se_InClusterConfig env = Inr cfg" "NewForConfig (se_rest env) cfg = Ok cl"
    "prog_Factory p = (let f = shared_factory (se_rest env) cl defaultInformerResyncPeriod in
       Factory_Start (se_iteration env (f_informers f)) f)"
    "wired mn ids json k env ro p"
proof -
  from assms obtain cfg cl kc where cfg: "se_FlagParse env = None" "se_InClusterConfig env = Inr cfg"
      "NewForConfig (se_rest env) cfg = Ok cl" "se_KubeClient env cfg = Inr kc"
    by (auto simp: run_def split: sum.splits res.splits option.splits)
  note known = NewDeviceNetworkController_shared [where f = "shared_factory (se_rest env) cl defaultInformerResyncPeriod"
      and i = 0, simplified]
  let ?nodes = "\<lparr>kf_client = kc, kf_resync = defaultInformerResyncPeriod, kf_FieldSelector = node_selector ro\<rparr>"
    and ?slices = "\<lparr>kf_client = kc, kf_resync = defaultInformerResyncPeriod, kf_FieldSelector = slice_selector ro\<rparr>"
  from assms cfg obtain r d c ops' where
    r: "r = \<lparr>r_podNetworkKind = ro_podNetworkKind ro, r_ByIndex = se_ByIndex env ?slices,
      r_GetDeviceNetwork = se_GetDeviceNetwork env 0,
      r_GetHostDevice = DeviceCache_Get (se_store env) (se_content env)\<rparr>" and
    d: "Driver_Start env (ro_podNetworkKind ro) (DRADriverName ro) (NodeName ro) kc 0 (run_deviceResolver mn ids r)
      (deviceConfigurators json k) = (Ok d, ops')" and
    c: "c = \<lparr>dnc_reconciler = \<lparr>nodeName = NodeName ro, podNetworkKind = ro_podNetworkKind ro,
               dnr_ListDevices = DeviceCache_List (se_store env) (se_cel env) (se_unsorted env) (se_content env),
               dnr_GetNode = se_GetNode env ?nodes, dnr_ListDeviceNetworks = se_ListDeviceNetworks env 0,
               publishResourcesFunc = Some (se_PublishResources env),
               dnr_deviceConfigurators = deviceConfigurators json k\<rparr>,
             dnc_handlers = [DeviceNetworks \<mapsto> event_handlers, Devices \<mapsto> event_handlers]\<rparr>" and
    p: "p = \<lparr>prog_Factory = (let f = shared_factory (se_rest env) cl defaultInformerResyncPeriod in
         Factory_Start (se_iteration env (f_informers f)) f),
      prog_NodeFactory = ?nodes, prog_SliceFactory = ?slices,
      prog_DeviceCache = NewDeviceCache (se_emptyStore env), prog_Resolver = r, prog_Driver = d,
      prog_Controller = c, prog_Stores = [NewMemory],
      prog_Plugin = NewPlugin NewMemory, prog_PluginStore = 0, prog_PluginDriver = DRADriverName ro,
      prog_PluginConfigurators = deviceConfigurators json k\<rparr>"
    by (auto simp: run_def Let_def NewResolver_first known split: option.splits res.splits prod.splits)
  from d have "d = \<lparr>d_podNetworkKind = ro_podNetworkKind ro, driverName = DRADriverName ro,
      d_kubeClient = kc, d_podResourceStore = 0,
      deviceResolver = run_deviceResolver mn ids r, d_deviceConfigurators = deviceConfigurators json k\<rparr>"
    by (auto simp: Driver_Start_def Let_def split: option.splits)
  then have "wired mn ids json k env ro p"
    by (auto simp: wired_def p c r cfg node_selector_def slice_selector_def split: if_splits)
  with that cfg p show thesis
    by simp
qed

lemma run_wired: "run mn ids json k env ro = (Ok p, ops) \<Longrightarrow> wired mn ids json k env ro p"
  by (erule run_OkD)

text \<open>What \<open>run\<close> does on its way to the wait for its context, \<open>ContextDone\<close>, and after it.\<close>

definition startup_ops :: "runOptions \<Rightarrow> run_op list" where
  "startup_ops ro =
     [MkdirAll [''/var/lib/kubelet/plugins/'', DRADriverName ro], PluginStart (DRADriverName ro) (NodeName ro),
      FactoryStarted DeviceNetworkFactory, FactoryStarted NodeFactory, FactoryStarted ResourceSliceFactory,
      CacheSyncWaited DeviceNetworkFactory, CacheSyncWaited NodeFactory, CacheSyncWaited ResourceSliceFactory,
      GoRun ResolverRun, GoRun DeviceCacheRun, GoRun ControllerRun, GoRun NriPluginRun]"

lemma run_result:
  "case run mn ids json k env ro of
     (Ok p, ops) \<Rightarrow> wired mn ids json k env ro p \<and> Some True \<in> set (se_RegistrationStatus env) \<and>
       ops = startup_ops ro @ [ContextDone, PluginStop]
   | (Err e, ops) \<Rightarrow> spawns ops = [] \<and>
       (PluginStop \<in> set ops \<longleftrightarrow> (\<exists>x. e = FailedToCreateController x)) \<and>
       (PluginStart (DRADriverName ro) (NodeName ro) \<in> set ops \<longleftrightarrow>
          (\<exists>x. e = FailedToStartDRA (StartKubeletPlugin x)) \<or> (\<exists>x. e = FailedToStartDRA (NotRegistered x)) \<or>
          (\<exists>x. e = FailedToCreateController x))
   | _ \<Rightarrow> False"
proof (cases "\<exists>cfg cl kc. se_FlagParse env = None \<and> se_InClusterConfig env = Inr cfg \<and>
    NewForConfig (se_rest env) cfg = Ok cl \<and> se_KubeClient env cfg = Inr kc \<and> se_AddIndexers env = None")
  case True
  then obtain cfg cl kc where env: "se_FlagParse env = None" "se_InClusterConfig env = Inr cfg"
    "NewForConfig (se_rest env) cfg = Ok cl" "se_KubeClient env cfg = Inr kc" "se_AddIndexers env = None"
    by blast
  note simps = run_def Let_def NewResolver_first env
    NewDeviceNetworkController_shared [where f = "shared_factory (se_rest env) cl defaultInformerResyncPeriod" and i = 0]
  let ?r = "\<lparr>r_podNetworkKind = ro_podNetworkKind ro,
    r_ByIndex = se_ByIndex env \<lparr>kf_client = kc, kf_resync = defaultInformerResyncPeriod, kf_FieldSelector = slice_selector ro\<rparr>,
    r_GetDeviceNetwork = se_GetDeviceNetwork env 0, r_GetHostDevice = DeviceCache_Get (se_store env) (se_content env)\<rparr>"
  obtain out ops where start: "Driver_Start env (ro_podNetworkKind ro) (DRADriverName ro) (NodeName ro) kc 0
      (run_deviceResolver mn ids ?r) (deviceConfigurators json k) = (out, ops)"
    by fastforce
  from start show ?thesis
  proof (cases rule: Driver_Start_cases)
    case (ok d)
    with start show ?thesis
      using run_wired [of mn ids json k env ro]
      by (auto simp: simps Driver_Stop_def startup_ops_def split: option.split)
  next
    case unregistered
    with start show ?thesis
      by (simp add: simps)
  next
    case (failed e)
    with start show ?thesis
      by (auto simp: simps)
  qed
next
  case False
  then show ?thesis
    using NewForConfig_returns [of "se_rest env"]
    by (auto simp: run_def Let_def NewResolver_first split: sum.splits res.splits option.splits)
qed

text \<open>
  C17: \<open>run\<close> either returns nil when its context is done, or an error before it has spawned anything.
  In the first case it ran one consistently wired program: the kubelet plugin was registered before the
  four loops were spawned, each once, and is stopped at the end. In the second case the plugin is
  stopped exactly when its start had succeeded; a plugin that was started but did not register in time
  is left running.
\<close>

theorem run_outcomes:
  "case run mn ids json k env ro of
     (Ok p, ops) \<Rightarrow> wired mn ids json k env ro p \<and> Some True \<in> set (se_RegistrationStatus env) \<and>
       spawns ops = [ResolverRun, DeviceCacheRun, ControllerRun, NriPluginRun] \<and>
       (\<exists>started. ops = MkdirAll [''/var/lib/kubelet/plugins/'', DRADriverName ro] #
          PluginStart (DRADriverName ro) (NodeName ro) # started @ [ContextDone, PluginStop] \<and>
          PluginStop \<notin> set started)
   | (Err e, ops) \<Rightarrow> spawns ops = [] \<and>
       (PluginStop \<in> set ops \<longleftrightarrow> (\<exists>x. e = FailedToCreateController x)) \<and>
       (PluginStart (DRADriverName ro) (NodeName ro) \<in> set ops \<longleftrightarrow>
          (\<exists>x. e = FailedToStartDRA (StartKubeletPlugin x)) \<or> (\<exists>x. e = FailedToStartDRA (NotRegistered x)) \<or>
          (\<exists>x. e = FailedToCreateController x))
   | _ \<Rightarrow> False"
proof (cases "run mn ids json k env ro")
  case (Pair out ops)
  show ?thesis
  proof (cases out)
    case (Ok p)
    with Pair run_result [of mn ids json k env ro] show ?thesis
      by (auto simp: startup_ops_def intro!: exI [of _ "drop 2 (startup_ops ro)"])
  qed (use Pair run_result [of mn ids json k env ro] in auto)
qed

text \<open>A loop over a map of informers visits each of its entries once. DeviceNetworks are the only type
  of the API.\<close>

definition iteration_ok :: "'s start_env \<Rightarrow> bool" where
  "iteration_ok env \<longleftrightarrow>
     (\<forall>m. dom m \<subseteq> {DeviceNetworkType} \<longrightarrow> distinct (se_iteration env m) \<and> set (se_iteration env m) = dom m)"

text \<open>
  C26: a run that gets as far as its loops has one DeviceNetwork informer. The resolver and the
  controller read the same one; it was requested before its factory was started, so it runs, once, and
  the wait for the caches waits for it; it lists and watches, unfiltered and with a resync every 30
  seconds, through the client made from the cluster's configuration.
\<close>

theorem run_shares_one_informer:
  assumes "run mn ids json k env ro = (Ok p, ops)"
    and "iteration_ok env"
  shows "\<exists>cfg cl i inf ls. se_InClusterConfig env = Inr cfg \<and> NewForConfig (se_rest env) cfg = Ok cl \<and>
    factory_run (NewSharedInformerFactory cl defaultInformerResyncPeriod) ls (prog_Factory p) \<and>
    f_informers (prog_Factory p) = [DeviceNetworkType \<mapsto> i] \<and> f_made (prog_Factory p) = [inf] \<and>
    f_ran (prog_Factory p) = [i] \<and> f_wg (prog_Factory p) = [i] \<and>
    r_GetDeviceNetwork (prog_Resolver p) = se_GetDeviceNetwork env i \<and>
    dnr_ListDeviceNetworks (dnc_reconciler (prog_Controller p)) = se_ListDeviceNetworks env i \<and>
    WaitForCacheSync [DeviceNetworkType] hasSynced cause (prog_Factory p) = [DeviceNetworkType \<mapsto> hasSynced i] \<and>
    inf_List inf = rest_List (se_rest env) ''devicenetworks'' (RESTClient (Some (devicenetworkV1alpha1 cl))) \<and>
    inf_Watch inf = rest_Watch (se_rest env) ''devicenetworks'' (RESTClient (Some (devicenetworkV1alpha1 cl))) \<and>
    inf_ResyncPeriod inf = 30 * 10 ^ 9"
proof -
  from assms(1) obtain cfg cl where cl: "se_InClusterConfig env = Inr cfg" "NewForConfig (se_rest env) cfg = Ok cl"
    and p: "prog_Factory p = (let f = shared_factory (se_rest env) cl defaultInformerResyncPeriod in
       Factory_Start (se_iteration env (f_informers f)) f)" and w: "wired mn ids json k env ro p"
    by (rule run_OkD)
  let ?new = "NewSharedInformerFactory cl defaultInformerResyncPeriod"
    and ?f = "shared_factory (se_rest env) cl defaultInformerResyncPeriod"
  let ?order = "se_iteration env (f_informers ?f)"
  have order: "distinct ?order" "set ?order = dom (f_informers ?f)"
    using assms(2) by (simp_all add: iteration_ok_def)
  from p have start: "prog_Factory p = StartWithContext ?order ?f"
    by (simp add: Factory_Start_def)
  have fs: "prog_Factory p = ?f\<lparr>startedInformers := [DeviceNetworkType \<mapsto> True], f_wg := [0], f_ran := [0]\<rparr>"
    using p start_shared_factory [OF order] by simp
  have "factory_run ?new ([] @ [Requested DeviceNetworkType 0] @ [Started ?order]) (prog_Factory p)"
    unfolding start append_assoc [symmetric]
    by (intro factory_start factory_request [OF factory_new first_request] order)
  moreover have "WaitForCacheSync [DeviceNetworkType] hasSynced cause (prog_Factory p) = [DeviceNetworkType \<mapsto> hasSynced 0]"
    by (subst WaitForCacheSync_started) (auto simp: fs started_informers_def is_started_def)
  ultimately show ?thesis
    using cl w
    by (intro exI [of _ cfg] exI [of _ cl] exI [of _ 0] exI [of _ "hd (f_made (prog_Factory p))"] exI conjI)
      (auto simp: fs wired_def shared_factory_def NewTypedDeviceNetworkInformerWithOptions_def Let_def
        newDeviceNetworks_def DevicenetworkV1alpha1_def tweaked_def defaultInformerResyncPeriod_def)
qed

section \<open>The loops\<close>

text \<open>
  \<open>Run\<close> of the resolver, the cache, the controller and the plugin. Each blocks until its context is
  done (\<open>WaitDone\<close>); the deferred calls come after. Whether the caches synced is an argument.
\<close>

datatype loop_op =
    GoInformer
  | GoWatchDevices
  | GoWorker
  | WaitDone
  | QueueShutDown
  | WorkersWaited
  | BroadcasterShutDown
  | StubRun string string

definition Resolver_Run :: "bool \<Rightarrow> (unit, liberr) res \<times> loop_op list" where
  "Resolver_Run synced =
     (if \<not> synced then (Err ''failed to wait for caches to sync'', []) else (Ok (), [WaitDone]))"

definition DeviceCache_Run :: "bool \<Rightarrow> bool \<Rightarrow> int \<Rightarrow> (unit, liberr) res \<times> loop_op list" where
  "DeviceCache_Run sourcesSynced hasSynced workers =
     (if \<not> sourcesSynced then (Err ''failed to wait for source informer caches to sync'', [])
      else if \<not> hasSynced
      then (Err ''failed to wait for synthetic informer cache to sync'', [GoInformer, GoWatchDevices])
      else (Ok (), [GoInformer, GoWatchDevices] @ replicate (nat workers) GoWorker @
                   [WaitDone, QueueShutDown, WorkersWaited, BroadcasterShutDown]))"

definition Controller_Run :: "bool \<Rightarrow> int \<Rightarrow> (unit, liberr) res \<times> loop_op list" where
  "Controller_Run synced workers =
     (if \<not> synced then (Err ''failed to wait for caches to sync'', [])
      else (Ok (), replicate (nat workers) GoWorker @ [WaitDone, QueueShutDown, WorkersWaited]))"

datatype plugin_run_error = FailedToCreateStub liberr | PluginExited liberr

definition Plugin_Run ::
  "string \<Rightarrow> string \<Rightarrow> liberr option \<Rightarrow> liberr option \<Rightarrow> (unit, plugin_run_error) res \<times> loop_op list" where
  "Plugin_Run name index new_result run_result =
     (case new_result of
        Some e \<Rightarrow> (Err (FailedToCreateStub e), [])
      | None \<Rightarrow>
          (case run_result of
             Some e \<Rightarrow> (Err (PluginExited e), [StubRun name index])
           | None \<Rightarrow> (Ok (), [StubRun name index])))"

text \<open>\<open>watchDevices\<close>: one poll at once, then one for each tick until the context is done. The items
  it queues, from what the host lists at each poll.\<close>

fun poll_ticks :: "(liberr + string list) list \<Rightarrow> queue_op list" where
  "poll_ticks [] = []"
| "poll_ticks (netInfo # rest) = pollDevices netInfo @ poll_ticks rest"

definition watchDevices :: "liberr + string list \<Rightarrow> (liberr + string list) list \<Rightarrow> queue_op list" where
  "watchDevices first ticks = pollDevices first @ poll_ticks ticks"

section \<open>The error variable of run\<close>

text \<open>
  Each goroutine of \<open>run\<close> assigns what its loop returned to the variable \<open>err\<close> of \<open>run\<close> and then reads
  the variable to decide whether to log. The other goroutines may run in between.
\<close>

datatype go_error = Canceled | DeadlineExceeded | OtherError liberr

text \<open>Where a goroutine is: in its loop; before each read of the variable, which are the test for nil, the
  two comparisons and the argument of the log; or at its end.\<close>

datatype go_phase = GoRunning | GoAssigned | GoNotNil | GoNotCanceled | GoLogging | GoFinished

record run_goroutines =
  shared_err :: "go_error option"
  go_at :: "component \<Rightarrow> go_phase"
  logged :: "(component \<times> go_error option) list"

definition run_spawned :: run_goroutines where
  "run_spawned = \<lparr>shared_err = None, go_at = (\<lambda>c. GoRunning), logged = []\<rparr>"

definition assign_err :: "component \<Rightarrow> go_error option \<Rightarrow> run_goroutines \<Rightarrow> run_goroutines" where
  "assign_err c err s = s\<lparr>shared_err := err, go_at := (go_at s)(c := GoAssigned)\<rparr>"

text \<open>One read of the variable, and what follows from it.\<close>

definition check_err :: "component \<Rightarrow> run_goroutines \<Rightarrow> run_goroutines" where
  "check_err c s =
     (let to = (\<lambda>ph. s\<lparr>go_at := (go_at s)(c := ph)\<rparr>) in
      case go_at s c of
        GoAssigned \<Rightarrow> if shared_err s = None then to GoFinished else to GoNotNil
      | GoNotNil \<Rightarrow> if shared_err s = Some Canceled then to GoFinished else to GoNotCanceled
      | GoNotCanceled \<Rightarrow> if shared_err s = Some DeadlineExceeded then to GoFinished else to GoLogging
      | GoLogging \<Rightarrow> (to GoFinished)\<lparr>logged := logged s @ [(c, shared_err s)]\<rparr>
      | _ \<Rightarrow> s)"

datatype go_label = Returned component "go_error option" | Checked component

inductive go_run :: "go_label list \<Rightarrow> run_goroutines \<Rightarrow> bool" where
  go_start: "go_run [] run_spawned"
| go_return: "go_run ls s \<Longrightarrow> go_at s c = GoRunning \<Longrightarrow> go_run (ls @ [Returned c err]) (assign_err c err s)"
| go_check: "go_run ls s \<Longrightarrow> go_at s c \<noteq> GoRunning \<Longrightarrow> go_at s c \<noteq> GoFinished \<Longrightarrow>
    go_run (ls @ [Checked c]) (check_err c s)"

text \<open>A failure: what is worth logging of a result.\<close>

definition failure :: "component \<Rightarrow> go_error option \<Rightarrow> (component \<times> go_error option) list" where
  "failure c err = (if err \<in> {None, Some Canceled, Some DeadlineExceeded} then [] else [(c, err)])"

text \<open>The steps of a goroutine that nobody disturbs.\<close>

definition reads :: "go_error option \<Rightarrow> nat" where
  "reads err = (case err of None \<Rightarrow> 1 | Some Canceled \<Rightarrow> 2 | Some DeadlineExceeded \<Rightarrow> 3 | Some (OtherError e) \<Rightarrow> 4)"

definition undisturbed :: "(component \<Rightarrow> go_error option) \<Rightarrow> component list \<Rightarrow> go_label list" where
  "undisturbed result cs = concat (map (\<lambda>c. Returned c (result c) # replicate (reads (result c)) (Checked c)) cs)"

lemma assign_err_simps [simp]:
  "logged (assign_err c err s) = logged s" "go_at (assign_err c err s) = (go_at s)(c := GoAssigned)"
  "shared_err (assign_err c err s) = err"
  by (simp_all add: assign_err_def)

lemma check_err_shared [simp]: "shared_err (check_err c s) = shared_err s"
  by (simp add: check_err_def Let_def split: go_phase.split)

lemma check_err_simps:
  "go_at s c = GoAssigned \<Longrightarrow> go_at (check_err c s) = (go_at s)(c := if shared_err s = None then GoFinished else GoNotNil)"
  "go_at s c = GoNotNil \<Longrightarrow>
     go_at (check_err c s) = (go_at s)(c := if shared_err s = Some Canceled then GoFinished else GoNotCanceled)"
  "go_at s c = GoNotCanceled \<Longrightarrow>
     go_at (check_err c s) = (go_at s)(c := if shared_err s = Some DeadlineExceeded then GoFinished else GoLogging)"
  "go_at s c = GoLogging \<Longrightarrow> go_at (check_err c s) = (go_at s)(c := GoFinished)"
  "logged (check_err c s) = logged s @ (if go_at s c = GoLogging then [(c, shared_err s)] else [])"
  by (simp_all add: check_err_def Let_def split: go_phase.split)

text \<open>The reads of one goroutine, one after the other, from the point where it is.\<close>

lemma check_all:
  assumes "go_run ls s" and "go_at s c = GoAssigned"
  shows "\<exists>s'. go_run (ls @ replicate (reads (shared_err s)) (Checked c)) s' \<and>
    logged s' = logged s @ failure c (shared_err s) \<and> go_at s' = (go_at s)(c := GoFinished) \<and>
    shared_err s' = shared_err s"
proof -
  note step = go_check [of _ _ c] and simps = check_err_simps reads_def failure_def eval_nat_numeral replicate_append_same
  from step [OF assms(1)] assms(2) have 1: "go_run (ls @ [Checked c]) (check_err c s)"
    by simp
  show ?thesis
  proof (cases "shared_err s")
    case None
    with 1 assms(2) show ?thesis
      by (intro exI [of _ "check_err c s"]) (simp add: simps)
  next
    case (Some e)
    with assms(2) have at1: "go_at (check_err c s) = (go_at s)(c := GoNotNil)"
      by (simp add: simps)
    from step [OF 1] at1 have 2: "go_run (ls @ [Checked c, Checked c]) (check_err c (check_err c s))"
      by simp
    show ?thesis
    proof (cases "e = Canceled")
      case True
      with 2 Some assms(2) at1 show ?thesis
        by (intro exI [of _ "check_err c (check_err c s)"]) (simp add: simps)
    next
      case not_canceled: False
      with Some at1 have at2: "go_at (check_err c (check_err c s)) = (go_at s)(c := GoNotCanceled)"
        by (simp add: simps)
      from step [OF 2] at2 have 3: "go_run (ls @ [Checked c, Checked c, Checked c]) (check_err c (check_err c (check_err c s)))"
        by simp
      show ?thesis
      proof (cases "e = DeadlineExceeded")
        case True
        with 3 Some assms(2) at1 at2 show ?thesis
          by (intro exI [of _ "check_err c (check_err c (check_err c s))"]) (simp add: simps)
      next
        case False
        with Some at2 have at3: "go_at (check_err c (check_err c (check_err c s))) = (go_at s)(c := GoLogging)"
          by (simp add: simps)
        from step [OF 3] at3 have "go_run (ls @ [Checked c, Checked c, Checked c, Checked c])
            (check_err c (check_err c (check_err c (check_err c s))))"
          by simp
        moreover from not_canceled False Some have "reads (shared_err s) = 4" "failure c (shared_err s) = [(c, Some e)]"
          by (cases e; simp add: reads_def failure_def)+
        ultimately show ?thesis
          using Some assms(2) at1 at2 at3
          by (intro exI [of _ "check_err c (check_err c (check_err c (check_err c s)))"])
            (simp add: check_err_simps eval_nat_numeral)
      qed
    qed
  qed
qed

lemma go_one:
  assumes "go_run ls s" and "go_at s c = GoRunning"
  shows "\<exists>s'. go_run (ls @ Returned c err # replicate (reads err) (Checked c)) s' \<and> logged s' = logged s @ failure c err \<and>
    go_at s' = (go_at s)(c := GoFinished)"
proof -
  from go_return [OF assms] have "go_run (ls @ [Returned c err]) (assign_err c err s)" .
  from check_all [OF this, of c] show ?thesis
    by auto
qed

lemma go_sequential:
  assumes "distinct cs"
  shows "\<exists>s. go_run (undisturbed result cs) s \<and>
    logged s = concat (map (\<lambda>c. failure c (result c)) cs) \<and>
    (\<forall>c. go_at s c = (if c \<in> set cs then GoFinished else GoRunning))"
  using assms
proof (induction cs rule: rev_induct)
  case Nil
  show ?case
    by (intro exI [of _ run_spawned])
      (auto simp: run_spawned_def undisturbed_def intro: go_start [unfolded run_spawned_def])
next
  case (snoc c cs)
  then obtain s where s: "go_run (undisturbed result cs) s"
    "logged s = concat (map (\<lambda>c. failure c (result c)) cs)"
    "\<forall>c. go_at s c = (if c \<in> set cs then GoFinished else GoRunning)"
    by auto
  with snoc.prems have "go_at s c = GoRunning"
    by simp
  from go_one [OF s(1) this, of "result c"] s(2,3) show ?case
    by (auto simp: undisturbed_def)
qed

text \<open>
  C37: a failure of the NRI plugin may be lost. When the goroutines of \<open>run\<close> end one after the other
  every failure is logged, under the component that failed. But they share the variable: whatever
  the plugin fails with, there is a run in which all four loops end, the other three without an error,
  and nothing is logged; and one in which the failure is logged for another component only.
\<close>

theorem run_failures_share_a_variable:
  "(\<exists>s. go_run (undisturbed result [ResolverRun, DeviceCacheRun, ControllerRun, NriPluginRun]) s \<and>
      logged s = concat (map (\<lambda>c. failure c (result c)) [ResolverRun, DeviceCacheRun, ControllerRun, NriPluginRun])) \<and>
   (\<exists>ls s. go_run ls s \<and> (\<forall>c. go_at s c = GoFinished) \<and> logged s = [] \<and>
      {l \<in> set ls. \<exists>c err. l = Returned c err} =
        {Returned NriPluginRun (Some (OtherError e)), Returned ResolverRun None,
         Returned DeviceCacheRun None, Returned ControllerRun None}) \<and>
   (\<exists>ls s. go_run ls s \<and> Returned ControllerRun None \<in> set ls \<and>
      Returned NriPluginRun (Some (OtherError e)) \<in> set ls \<and> logged s = [(ControllerRun, Some (OtherError e))])"
proof (intro conjI)
  show "\<exists>s. go_run (undisturbed result [ResolverRun, DeviceCacheRun, ControllerRun, NriPluginRun]) s \<and>
      logged s = concat (map (\<lambda>c. failure c (result c)) [ResolverRun, DeviceCacheRun, ControllerRun, NriPluginRun])"
    using go_sequential [of "[ResolverRun, DeviceCacheRun, ControllerRun, NriPluginRun]" result] by auto
next
  let ?e = "Some (OtherError e)"
  from go_sequential [of "[ResolverRun, DeviceCacheRun]" "\<lambda>c. None"] obtain s where
    s: "go_run (undisturbed (\<lambda>c. None) [ResolverRun, DeviceCacheRun]) s" (is "go_run ?ls s") "logged s = []"
      "go_at s ResolverRun = GoFinished" "go_at s DeviceCacheRun = GoFinished"
      "go_at s ControllerRun = GoRunning" "go_at s NriPluginRun = GoRunning"
    by (auto simp: failure_def)
  let ?s = "assign_err ControllerRun None (assign_err NriPluginRun ?e s)"
  note r = go_return [OF go_return [OF s(1,6), of ?e], of ControllerRun None, simplified, OF s(5)]
  from check_all [OF r, of NriPluginRun] s(2) obtain s1 where
    s1: "go_run ((?ls @ [Returned NriPluginRun ?e, Returned ControllerRun None]) @ [Checked NriPluginRun]) s1"
      "logged s1 = []" "go_at s1 = (go_at ?s)(NriPluginRun := GoFinished)" "shared_err s1 = None"
    by (auto simp: reads_def failure_def)
  from check_all [OF s1(1), of ControllerRun] s1(2-4) obtain s2 where
    s2: "go_run (((?ls @ [Returned NriPluginRun ?e, Returned ControllerRun None]) @ [Checked NriPluginRun]) @
        [Checked ControllerRun]) s2" "logged s2 = []" "go_at s2 = (go_at s1)(ControllerRun := GoFinished)"
    by (auto simp: reads_def failure_def)
  have fin: "go_at s2 x = GoFinished" for x
    using s(3-6) s1(3) s2(3) by (cases x) auto
  have returned: "{l \<in> set ?ls. \<exists>c err. l = Returned c err} = {Returned ResolverRun None, Returned DeviceCacheRun None}"
    by (auto simp: undisturbed_def reads_def)
  show "\<exists>ls s. go_run ls s \<and> (\<forall>c. go_at s c = GoFinished) \<and> logged s = [] \<and>
      {l \<in> set ls. \<exists>c err. l = Returned c err} =
        {Returned NriPluginRun ?e, Returned ResolverRun None,
         Returned DeviceCacheRun None, Returned ControllerRun None}"
    by (rule exI, rule exI, rule conjI, rule s2(1)) (use s2(2) fin returned in auto)
next
  let ?e = "Some (OtherError e)"
  have run: "go_at run_spawned x = GoRunning" "logged run_spawned = []" for x
    by (simp_all add: run_spawned_def)
  note r = go_return [OF go_return [OF go_start, of ControllerRun None], of NriPluginRun ?e, simplified, OF run(1) run(1)]
  from check_all [OF r, of ControllerRun] run(2) obtain s where
    "go_run ([Returned ControllerRun None, Returned NriPluginRun ?e] @ replicate 4 (Checked ControllerRun)) s"
    "logged s = [(ControllerRun, ?e)]"
    by (auto simp: reads_def failure_def)
  then show "\<exists>ls s. go_run ls s \<and> Returned ControllerRun None \<in> set ls \<and>
      Returned NriPluginRun ?e \<in> set ls \<and> logged s = [(ControllerRun, ?e)]"
    by (intro exI conjI) auto
qed

end
