(* ===== verification/EndToEnd.thy ===== *)
theory EndToEnd
  imports Startup
begin

text \<open>
  From the allocation of a claim to the network namespace of the pod: the driver's preparation, the
  API server and the store, and the NRI plugin's configuration, in the program that \<open>run\<close> puts
  together. The lemmas follow one allocation result through these parts.
\<close>

lemma with_attributes_strings:
  assumes "distinct (attribute_names mn)"
  shows "string_attribute (with_attributes mn dnr dn dc h d) (NetworkInterfaceAttributePodNetwork mn) = Some (dn_Name dn)"
    and "string_attribute (with_attributes mn dnr dn dc h d) (NetworkInterfaceAttributePodNetworkKind mn) = Some (podNetworkKind dnr)"
    and "string_attribute (with_attributes mn dnr dn dc h d) NetworkInterfaceAttributeDeviceConfiguration = Some (dc_Name dc)"
    and "string_attribute (with_attributes mn dnr dn dc h d) NetworkInterfaceAttributeHostDeviceName = Some (hd_Name h)"
    and "string_attribute (with_attributes mn dnr dn dc h d) NetworkInterfaceAttributeDeviceType = Some (GetDeviceType dc)"
  using assms by (auto simp: string_attribute_def with_attributes_def attribute_names_def Let_def)

section \<open>What the API server does with an applied status\<close>

text \<open>
  The documented behaviour of server-side apply on the list \<open>status.devices\<close>, a map by driver, pool, device
  and share: the entries that a request applies are there with the values applied, an entry of the field
  manager that a request no longer applies is gone, and no two entries have the same key; the entries of
  other drivers are theirs. The driver is the only one that writes its entries. The text of an entry's
  data, which the server decodes and encodes again, may be any text of the same JSON value.
\<close>

definition status_key :: "AllocatedDeviceStatus \<Rightarrow> string \<times> string \<times> string \<times> uid option" where
  "status_key st = (ads_Driver st, ads_Pool st, ads_Device st, ads_ShareID st)"

definition keeps_status :: "AllocatedDeviceStatusApply \<Rightarrow> AllocatedDeviceStatus \<Rightarrow> bool" where
  "keeps_status a st \<longleftrightarrow>
     status_key st = (asa_Driver a, apply_key a) \<and> ads_NetworkData st = asa_NetworkData a \<and>
     (\<forall>raw. asa_Data a = Some \<lparr>Raw = Some raw\<rparr> \<longrightarrow>
        (\<exists>raw'. ads_Data st = Some \<lparr>Raw = Some raw'\<rparr> \<and> same_text raw raw'))"

definition status_applied :: "ApplyRequest \<Rightarrow> ResourceClaim \<Rightarrow> bool" where
  "status_applied request updated \<longleftrightarrow>
     distinct (map status_key (rc_Devices updated)) \<and>
     (\<forall>a \<in> set (ap_Devices request). \<exists>st \<in> set (rc_Devices updated). keeps_status a st) \<and>
     (\<forall>st \<in> set (rc_Devices updated). ads_Driver st = ap_FieldManager request \<longrightarrow>
        (\<exists>a \<in> set (ap_Devices request). status_key st = (asa_Driver a, apply_key a)))"

lemma applied_status_kept:
  assumes "status_applied request updated" and "a \<in> set (ap_Devices request)"
    and "st \<in> set (rc_Devices updated)" and "status_key st = (asa_Driver a, apply_key a)"
  shows "keeps_status a st"
proof -
  from assms(1,2) obtain st' where st': "st' \<in> set (rc_Devices updated)" "keeps_status a st'"
    by (auto simp: status_applied_def)
  then have "status_key st' = status_key st"
    using assms(4) by (simp add: keeps_status_def)
  moreover have "inj_on status_key (set (rc_Devices updated))"
    using assms(1) by (simp add: status_applied_def distinct_map)
  ultimately have "st' = st"
    using st'(1) assms(3) by (auto dest: inj_onD)
  with st'(2) show ?thesis
    by simp
qed

lemma applied_own_single:
  assumes "status_applied request updated" and "ap_Devices request = [a]" and "asa_Driver a = ap_FieldManager request"
  obtains st where "filter (\<lambda>st. ads_Driver st = ap_FieldManager request) (rc_Devices updated) = [st]" "keeps_status a st"
proof -
  let ?own = "filter (\<lambda>st. ads_Driver st = ap_FieldManager request) (rc_Devices updated)"
  from assms(1,2) obtain st where st: "st \<in> set (rc_Devices updated)" "keeps_status a st"
    by (auto simp: status_applied_def)
  have "ads_Driver st = ap_FieldManager request"
    using st(2) assms(3) by (simp add: keeps_status_def status_key_def)
  with st(1) have own: "st \<in> set ?own"
    by simp
  have "distinct (map status_key ?own)"
    using assms(1) by (simp add: status_applied_def distinct_map_filter)
  moreover have "\<forall>x \<in> set ?own. status_key x = (asa_Driver a, apply_key a)"
    using assms(1,2) by (auto simp: status_applied_def)
  ultimately have "length ?own \<le> 1"
    by (cases ?own; cases "tl ?own") auto
  with own have "?own = [st]"
    by (cases ?own) auto
  with st(2) that show thesis
    by blast
qed

section \<open>The preparation of one result\<close>

lemma allocateDevice_OkD:
  assumes "allocateDevice env d (Some rd) r = (Ok (Some kd, Some a), r')"
  obtains result exposed dc dn raw c st where
    "rd_DeviceRequestAllocationResult rd = Some result" "rd_DeviceConfiguration rd = Some dc"
    "rd_DeviceNetwork rd = Some dn"
    "Marshal (env_json env) (status_data d dn dc (rd_HostDevice rd)) = Inr raw"
    "d_deviceConfigurators d (GetDeviceType dc) = Some c"
    "fst (Allocate c (rd_HostDevice rd) (Some dc) (Some (spec_NetworkInterfaceConfiguration (Spec dn)))
       (Some ((initial_status result)\<lparr>ads_Data := Some \<lparr>Raw = Some raw\<rparr>\<rparr>)) r) = Ok (Some st)"
    "kd_NetworkData kd = ads_NetworkData st" "asa_NetworkData a = ads_NetworkData st"
    "asa_Data a = ads_Data st" "asa_Driver a = ads_Driver st"
  using assms
  by (auto simp: allocateDevice_def Let_def kubelet_device_def status_apply_def
      split: option.splits sum.splits prod.splits res.splits)

lemma allocate_results_own:
  "allocate_results env d results acc r =
    allocate_results env d (filter (\<lambda>x. rar_Driver x = driverName d) results) acc r"
  by (induction results arbitrary: acc r) (auto split: res.split prod.split option.split)

lemma prepare_single:
  assumes "nodePrepareResource env d claim s = (Ok devices, s')"
    and "Allocation claim = Some results" and "filter (\<lambda>x. rar_Driver x = driverName d) results = [result]"
  obtains rd kd a r' where "deviceResolver d result = Ok (Some rd)"
    "allocateDevice env d (Some rd) (generator s) = (Ok (Some kd, Some a), r')" "devices = [kd]"
    "last (applied s') = apply_request d claim [a]"
proof -
  from assms(1,2) obtain statuses r updated podUID more where
    al: "allocate_results env d results ([], []) (generator s) = (Ok (devices, statuses), r)"
    and ap: "last (applied s') = apply_request d claim statuses"
    by (auto simp: nodePrepareResource_def Let_def
        split: if_splits option.splits prod.splits res.splits sum.splits list.splits)
  have own: "rar_Driver result = driverName d"
    using assms(3) by (auto simp: filter_eq_Cons_iff)
  from al own obtain rdo kd ao r1 where
    get: "deviceResolver d result = Ok rdo" and
    one: "allocateDevice env d rdo (generator s) = (Ok (Some kd, ao), r1)" and
    out: "devices = [kd]" "statuses = (case ao of None \<Rightarrow> [] | Some x \<Rightarrow> [x])"
    unfolding allocate_results_own [of _ _ results] assms(3)
    by (auto split: res.splits prod.splits option.splits)
  from one obtain rd a where "rdo = Some rd" "ao = Some a"
    by (auto simp: allocateDevice_def Let_def split: option.splits sum.splits prod.splits res.splits)
  with that get one out ap show thesis
    by auto
qed

section \<open>The configuration of one status\<close>

lemma configure_single:
  assumes "configureResourceClaim json configurators driver ns claim h = (Ok (), h')"
    and "filter (\<lambda>st. ads_Driver st = driver) (rc_Devices claim) = [st]"
    and "ads_Data st = Some \<lparr>Raw = Some raw\<rparr>" and "Unmarshal json raw = Inr sd"
    and "sd_DeviceConfiguration sd = Some dc"
  obtains c out where "configurators (GetDeviceType dc) = Some c" "Configure c ns (Some st) h = (Ok out, h')"
  using assms
  by (auto simp: configureResourceClaim_succeeds_iff configured_Cons status_configurator_def)

text \<open>
  What happens to the kernel when a pod gets its interface: a macvlan of the given mode is made in its
  namespace; or the host interface enters it, after the RDMA devices behind it. Each call got the answer
  that the next one builds on, and none failed.
\<close>

definition macvlan_made ::
  "kernel \<Rightarrow> string \<Rightarrow> int \<Rightarrow> string \<Rightarrow> int \<Rightarrow> NetlinkMacvlanMode \<Rightarrow> khist \<Rightarrow> khist \<Rightarrow> bool" where
  "macvlan_made k ns fd name parent mode h h' \<longleftrightarrow>
     (let l = \<lparr>ml_Name = name, ml_ParentIndex = parent, ml_Namespace = fd, ml_Mode = mode\<rparr> in
      k_LinkAdd k (h @ [NetnsGetFromPath ns]) l = None \<and>
      h' = h @ [NetnsGetFromPath ns, LinkAdd l, NsHandleClose fd])"

definition interface_moved :: "kernel \<Rightarrow> string \<Rightarrow> int \<Rightarrow> string \<Rightarrow> khist \<Rightarrow> khist \<Rightarrow> bool" where
  "interface_moved k ns fd name h h' \<longleftrightarrow>
     (\<exists>moved l found.
        RDMADevicesForNetdev (k_ReadDir k (h @ [NetnsGetFromPath ns])) DefaultSysfsNetRoot name = Ok (map fst moved) \<and>
        found = h @ [NetnsGetFromPath ns, ReadDir (ib_root DefaultSysfsNetRoot name)] \<and>
        moved_rdma k fd found moved \<and>
        k_LinkByName k (found @ rdma_calls fd moved) name = Inr l \<and>
        k_LinkSetNsFd k (found @ rdma_calls fd moved @ [LinkByName name]) l fd = None \<and>
        h' = found @ rdma_calls fd moved @ [LinkByName name, LinkSetNsFd l fd, NsHandleClose fd])"

lemma registered_Configure_calls:
  assumes "deviceConfigurators json k (GetDeviceType dc) = Some c"
    and "Configure c ns (Some st) h = (Ok out, h')"
    and "ads_Data st = Some \<lparr>Raw = Some raw\<rparr>" and "Unmarshal json raw = Inr sd"
    and "sd_DeviceConfiguration sd = Some dc" and "sd_Device sd = Some host" and "ads_NetworkData st = Some nd"
  shows "\<exists>fd. k_GetFromPath k h ns = Inr fd \<and>
    (if GetDeviceType dc = DeviceTypeMacvlan
     then \<exists>m mode. Mode (GetMacvlan dc) = Some m \<and> macvlanModeMap m = Some mode \<and>
       macvlan_made k ns fd (nd_InterfaceName nd) (InterfaceIndex (hd_Spec host)) mode h h'
     else interface_moved k ns fd (InterfaceName (hd_Spec host)) h h')"
  using assms(1)
proof (cases rule: deviceConfigurators_cases)
  case 1
  with assms(2) have "Macvlan_Configure json k ns (Some st) h = (Ok out, h')"
    by (simp add: Macvlan_Configurator_def)
  with assms(3-7) 1(1) show ?thesis
    by (auto simp: Macvlan_Configure_Ok_iff raw_bytes_def macvlan_made_def)
next
  case 2
  with assms(2) have "HostDevice_Configure json k run_HostDevice ns (Some st) h = (Ok out, h')"
    by (simp add: HostDevice_Configurator_def)
  from HostDevice_Configure_complete [OF this] have "moved_all json k run_HostDevice ns st True h h'"
    by simp
  with assms(3-6) have "\<exists>fd. k_GetFromPath k h ns = Inr fd \<and> interface_moved k ns fd (InterfaceName (hd_Spec host)) h h'"
    by (fastforce simp: moved_all_def interface_moved_def run_HostDevice_def)
  moreover have "GetDeviceType dc \<noteq> DeviceTypeMacvlan"
    using 2(1) by (simp add: DeviceTypeHostDevice_def DeviceTypeMacvlan_def)
  ultimately show ?thesis
    by auto
qed

section \<open>From the claim to the pod\<close>

lemma registered_Allocate_interface:
  assumes "deviceConfigurators json k ty = Some c"
    and "fst (Allocate c (Some host) dco nico (Some st) r) = Ok out"
  shows "\<exists>st' nd. out = Some st' \<and> same_identity st' st \<and> ads_NetworkData st' = Some nd \<and>
    (ty = DeviceTypeHostDevice \<longrightarrow> nd_InterfaceName nd = InterfaceName (hd_Spec host))"
  using assms(1)
proof (cases rule: deviceConfigurators_cases)
  case 1
  with assms(2) Macvlan_Allocate_frame show ?thesis
    by (fastforce simp: Macvlan_Configurator_def DeviceTypeHostDevice_def DeviceTypeMacvlan_def)
next
  case 2
  with assms(2) HostDevice_Allocate_frame show ?thesis
    by (fastforce simp: HostDevice_Configurator_def)
qed

text \<open>What the program has prepared: one device, and one status that can be configured as it was resolved.\<close>

lemma prepared_by_run:
  assumes "run mn ids (status_json F) k senv ro = (Ok p, ops)" and "env_json env = status_json F"
    and "foreign_json_ok F" and "StatusData_ok (status_data (prog_Driver p) dn dc (Some host))"
    and "StatusData_text F (status_data (prog_Driver p) dn dc (Some host))"
    and "Allocation claim = Some results"
    and "filter (\<lambda>x. rar_Driver x = DRADriverName ro) results = [result]"
    and "GetDevice mn ids (prog_Resolver p) result = Ok rd"
    and "rd_DeviceConfiguration rd = Some dc" and "rd_HostDevice rd = Some host"
    and "rd_DeviceNetwork rd = Some dn"
    and "nodePrepareResource env (prog_Driver p) claim s = (Ok devices, s')"
    and "status_applied (last (applied s')) updated"
  obtains kd nd c st raw where "devices = [kd]" "kd_NetworkData kd = Some nd"
    "deviceConfigurators (status_json F) k (GetDeviceType dc) = Some c"
    "filter (\<lambda>st. ads_Driver st = prog_PluginDriver p) (rc_Devices updated) = [st]"
    "ads_NetworkData st = Some nd" "ads_Data st = Some \<lparr>Raw = Some raw\<rparr>"
    "Unmarshal (status_json F) raw = Inr (status_data (prog_Driver p) dn dc (Some host))"
    "GetDeviceType dc = DeviceTypeHostDevice \<longrightarrow> nd_InterfaceName nd = InterfaceName (hd_Spec host)"
proof -
  let ?d = "prog_Driver p" and ?json = "status_json F"
  note d = wired_driver(2,4,5,6) [OF run_wired [OF assms(1)]]
  have one: "filter (\<lambda>x. rar_Driver x = driverName ?d) results = [result]"
    by (simp add: d(1) assms(7))
  obtain rd' kd a r' where
    get: "deviceResolver ?d result = Ok (Some rd')" and
    al: "allocateDevice env ?d (Some rd') (generator s) = (Ok (Some kd, Some a), r')" and
    dev: "devices = [kd]" and ap: "last (applied s') = apply_request ?d claim [a]"
    by (rule prepare_single [OF assms(12,6) one]) (rule that; assumption)
  from get assms(8) have rd: "rd' = rd"
    by (simp add: d(2) run_deviceResolver_def)
  have res: "rd_DeviceRequestAllocationResult rd = Some result"
    by (rule resolver.complete [OF assms(8), THEN conjunct1])
  from al [unfolded rd] obtain raw c st where
    raw: "Marshal (env_json env) (status_data ?d dn dc (Some host)) = Inr raw" and
    c: "d_deviceConfigurators ?d (GetDeviceType dc) = Some c" and
    alloc: "fst (Allocate c (Some host) (Some dc) (Some (spec_NetworkInterfaceConfiguration (Spec dn)))
       (Some ((initial_status result)\<lparr>ads_Data := Some \<lparr>Raw = Some raw\<rparr>\<rparr>)) (generator s)) = Ok (Some st)" and
    a: "kd_NetworkData kd = ads_NetworkData st" "asa_NetworkData a = ads_NetworkData st"
      "asa_Data a = ads_Data st" "asa_Driver a = ads_Driver st"
    by (rule allocateDevice_OkD) (auto simp: res assms(9-11))
  from registered_Allocate_interface [OF c [unfolded d(3)] alloc] obtain nd where
    st: "same_identity st ((initial_status result)\<lparr>ads_Data := Some \<lparr>Raw = Some raw\<rparr>\<rparr>)" "ads_NetworkData st = Some nd"
      "GetDeviceType dc = DeviceTypeHostDevice \<longrightarrow> nd_InterfaceName nd = InterfaceName (hd_Spec host)"
    by auto
  have "rar_Driver result = DRADriverName ro"
    using assms(7) by (auto simp: filter_eq_Cons_iff)
  then have own: "asa_Driver a = ap_FieldManager (last (applied s'))" "asa_Data a = Some \<lparr>Raw = Some raw\<rparr>"
      "asa_NetworkData a = Some nd"
    using st(1,2) a by (simp_all add: ap apply_request_def d(1) same_identity_def initial_status_def)
  have "ap_Devices (last (applied s')) = [a]"
    by (simp add: ap apply_request_def)
  from applied_own_single [OF assms(13) this own(1)] obtain st' where
    st': "filter (\<lambda>st. ads_Driver st = DRADriverName ro) (rc_Devices updated) = [st']" "keeps_status a st'"
    by (auto simp: ap apply_request_def d(1))
  from st'(2) own(2,3) obtain raw' where raw': "ads_Data st' = Some \<lparr>Raw = Some raw'\<rparr>" "same_text raw raw'"
      "ads_NetworkData st' = Some nd"
    by (auto simp: keeps_status_def)
  from StatusData_reads_back [OF assms(3-5) raw [unfolded assms(2)] raw'(2)] st' raw' st(2,3) a(1) dev c show thesis
    by (intro that [of kd nd c st' raw']) (simp_all add: d)
qed

text \<open>
  C1: in the program that \<open>run\<close> starts, the interface a claim was allocated is the interface its pod
  gets. When a claim with one device of this driver, and any number of devices of others, was prepared, and
  the plugin then configured, without an error, what the store has of the answer of the API server, the
  kernel has done what the resolved host device and configuration ask for: there is a macvlan of the
  configured mode on top of that host device, or that host device itself was moved after its RDMA devices,
  in the namespace of the pod; and the kubelet was told this interface's name.
\<close>

theorem allocated_interface_reaches_the_pod:
  assumes "run mn ids (status_json F) k senv ro = (Ok p, ops)" and "env_json env = status_json F"
    and "foreign_json_ok F" and "StatusData_ok (status_data (prog_Driver p) dn dc (Some host))"
    and "StatusData_text F (status_data (prog_Driver p) dn dc (Some host))"
    and "Allocation claim = Some results"
    and "filter (\<lambda>x. rar_Driver x = DRADriverName ro) results = [result]"
    and "GetDevice mn ids (prog_Resolver p) result = Ok rd"
    and "rd_DeviceConfiguration rd = Some dc" and "rd_HostDevice rd = Some host"
    and "rd_DeviceNetwork rd = Some dn"
    and "nodePrepareResource env (prog_Driver p) claim s = (Ok devices, s')"
    and "env_ApplyStatus env (applied s) (last (applied s')) = Inr updated"
    and "status_applied (last (applied s')) updated"
    and "rc_UID updated \<notin> rc_UID ` set (Memory_Get pod (podResourceStore s))"
    and "stored \<in> set (Memory_Get pod (podResourceStore s'))" and "rc_UID stored = rc_UID updated"
    and "configureResourceClaim (status_json F) (prog_PluginConfigurators p) (prog_PluginDriver p) ns stored h = (Ok (), h')"
  shows "\<exists>kd nd fd. devices = [kd] \<and> kd_NetworkData kd = Some nd \<and> k_GetFromPath k h ns = Inr fd \<and>
    (if GetDeviceType dc = DeviceTypeMacvlan
     then \<exists>m mode. Mode (GetMacvlan dc) = Some m \<and> macvlanModeMap m = Some mode \<and>
       macvlan_made k ns fd (nd_InterfaceName nd) (InterfaceIndex (hd_Spec host)) mode h h'
     else nd_InterfaceName nd = InterfaceName (hd_Spec host) \<and> interface_moved k ns fd (nd_InterfaceName nd) h h')"
proof -
  obtain kd nd c st raw where dev: "devices = [kd]" "kd_NetworkData kd = Some nd"
    and c: "deviceConfigurators (status_json F) k (GetDeviceType dc) = Some c"
    and st: "filter (\<lambda>st. ads_Driver st = prog_PluginDriver p) (rc_Devices updated) = [st]" "ads_NetworkData st = Some nd"
      "ads_Data st = Some \<lparr>Raw = Some raw\<rparr>"
    and sd: "Unmarshal (status_json F) raw = Inr (status_data (prog_Driver p) dn dc (Some host))"
    and nd: "GetDeviceType dc = DeviceTypeHostDevice \<longrightarrow> nd_InterfaceName nd = InterfaceName (hd_Spec host)"
    by (rule prepared_by_run [OF assms(1-12,14)]) (rule that; assumption)
  from assms(12,13) obtain podUID where "podResourceStore s' = Memory_Add podUID updated (podResourceStore s)"
    by (auto simp: nodePrepareResource_def Let_def
        split: if_splits option.splits prod.splits res.splits sum.splits list.splits)
  with assms(15-17) imageI [of stored _ rc_UID] have stored: "stored = updated"
    by (auto simp: memory.get_add split: if_splits)
  have data: "sd_DeviceConfiguration (status_data (prog_Driver p) dn dc (Some host)) = Some dc"
      "sd_Device (status_data (prog_Driver p) dn dc (Some host)) = Some host"
    by (simp_all add: status_data_def)
  have "prog_PluginConfigurators p = deviceConfigurators (status_json F) k"
    by (rule wired_driver(7) [OF run_wired [OF assms(1)]])
  with configure_single [OF assms(18) [unfolded stored] st(1,3) sd data(1)] c obtain out where
    conf: "Configure c ns (Some st) h = (Ok out, h')"
    by auto
  have "GetDeviceType dc = DeviceTypeHostDevice" if "GetDeviceType dc \<noteq> DeviceTypeMacvlan"
    using c that by (cases rule: deviceConfigurators_cases) auto
  with registered_Configure_calls [OF c conf st(3) sd data st(2)] nd dev show ?thesis
    by (cases "GetDeviceType dc = DeviceTypeMacvlan") auto
qed

text \<open>The demonstration: a program whose informers hold one published host device.\<close>

definition demo_published :: KubeDevice where
  "demo_published =
     with_attributes demo_multinetwork_api demo_reconciler demo_dn demo_hostdev_config demo_host empty_KubeDevice"

definition demo_config :: rest_config where
  "demo_config = \<lparr>Host = ''https://10.96.0.1'', UserAgent = [], QPS = 5, Burst = 10, RateLimiter = None,
     cfg_GroupVersion = None, APIPath = [], NegotiatedSerializer = None\<rparr>"

definition demo_rest :: rest_lib where
  "demo_rest =
     \<lparr>DefaultKubernetesUserAgent = ''devicenetwork'', HTTPClientFor = (\<lambda>c. Inr 1),
      NewTokenBucketRateLimiter = (\<lambda>qps burst. 2), CodecFactoryForGeneratedClient = 3,
      RESTClientForConfigAndClient = (\<lambda>c h. Inr 4), NewDiscoveryClientForConfigAndClient = (\<lambda>c h. Inr 5),
      NewDiscoveryClient = (\<lambda>r. 5), rest_List = (\<lambda>resource client opts. Inr [demo_dn]),
      rest_Watch = (\<lambda>resource client opts. Inr 6)\<rparr>"

definition demo_start_env :: "(string \<times> HostDevice) list start_env" where
  "demo_start_env =
     \<lparr>se_FlagParse = None, se_InClusterConfig = Inr demo_config, se_rest = demo_rest, se_KubeClient = (\<lambda>c. Inr 9),
      se_AddIndexers = None,
      se_ByIndex = (\<lambda>factory key. Inr [SliceObj \<lparr>rs_Name = ''slice'', rs_Driver = ''devicenetwork.io'',
        rs_PoolName = ''node-a'', rs_Devices = [demo_published]\<rparr>]),
      se_iteration = (\<lambda>m. if m DeviceNetworkType = None then [] else [DeviceNetworkType]),
      se_GetDeviceNetwork = (\<lambda>i name. Inr demo_dn), se_ListDeviceNetworks = (\<lambda>i. Inr [demo_dn]),
      se_GetNode = (\<lambda>factory name. Inr demo_node),
      se_emptyStore = [], se_store = list_store, se_content = store demo_cache, se_cel = demo_cel, se_unsorted = rev,
      se_MkdirAll = (\<lambda>path. None),
      se_StartPlugin = (\<lambda>client driver node. None), se_RegistrationStatus = [None, Some True],
      se_PollTimeout = ''deadline exceeded'', se_PublishResources = (\<lambda>r. None),
      se_AddEventHandler = (\<lambda>w. None), se_Synced = (\<lambda>f. True)\<rparr>"

definition demo_options :: runOptions where
  "demo_options = newCmdRun [''node-name'' \<mapsto> ''node-a''] Map.empty"

abbreviation demo_status_json :: json_lib where
  "demo_status_json \<equiv> status_json demo_foreign"

lemma demo_program:
  "\<exists>p ops. run demo_multinetwork_api (\<lambda>d p n. n) demo_status_json pod_kernel demo_start_env demo_options = (Ok p, ops)"
  by (simp add: run_def demo_start_env_def NewResolver_first NewDeviceNetworkController_shared Driver_Start_def
      Let_def plugin_registered_def demo_config_def demo_rest_def NewForConfig_def NewForConfigAndClient_def
      V1alpha1_NewForConfigAndClient_def)

lemma demo_program_resolves:
  assumes "run demo_multinetwork_api (\<lambda>d p n. n) demo_status_json pod_kernel demo_start_env demo_options = (Ok p, ops)"
  shows "GetDevice demo_multinetwork_api (\<lambda>d p n. n) (prog_Resolver p) demo_result =
    Ok \<lparr>rd_DeviceRequestAllocationResult = Some demo_result, rd_DeviceNetwork = Some demo_dn,
        rd_DeviceConfiguration = Some demo_hostdev_config, rd_ExposedDevice = Some demo_published,
        rd_HostDevice = Some demo_host\<rparr>"
proof -
  note strings = with_attributes_strings [OF demo_attribute_names_distinct,
      of demo_reconciler demo_dn demo_hostdev_config demo_host empty_KubeDevice, folded demo_published_def]
  have name: "dev_Name demo_published = rar_Device demo_result"
    by (simp add: demo_published_def with_attributes_def DeviceName_def demo_result_def demo_dn_def
        demo_hostdev_config_def demo_host_def Let_def)
  have kind: "podNetworkKind demo_reconciler = ''devicenetwork-io-devicenetwork''"
    by (simp add: demo_reconciler_def)
  have r: "prog_Resolver p = \<lparr>r_podNetworkKind = ''devicenetwork-io-devicenetwork'', r_ByIndex = se_ByIndex demo_start_env (prog_SliceFactory p),
      r_GetDeviceNetwork = se_GetDeviceNetwork demo_start_env 0,
      r_GetHostDevice = DeviceCache_Get list_store (store demo_cache)\<rparr>"
    using run_wired [OF assms] by (simp add: wired_def demo_start_env_def demo_options_def newCmdRun_def Let_def)
  have dcs: "DeviceConfigurations (Spec demo_dn) = [demo_hostdev_config]"
    by (simp add: demo_dn_def)
  have get: "DeviceCache_Get list_store (store demo_cache) (hd_Name demo_host) = Ok demo_host"
    by (simp add: DeviceCache_Get_def list_store_def demo_cache_def demo_host_def)
  show ?thesis
    by (simp add: GetDevice_def getDeviceNetworkForDevice_def r demo_start_env_def Let_def name strings kind dcs get)
qed

lemma demo_status_text:
  "StatusData_ok (demo_status_data demo_hostdev_config)"
  "StatusData_text demo_foreign (demo_status_data demo_hostdev_config)"
  by (simp_all add: demo_status_data_def demo_hostdev_config_def demo_host_def StatusData_ok_def Device_ok_def
      DeviceSpec_ok_def int_ok_def StatusData_text_def Configuration_text_def Device_text_def DeviceSpec_text_def
      valid_utf8_ascii demo_foreign_def small_def omit_nil_def omit_empty_def nesting.simps)

definition demo_raw :: string where
  "demo_raw = print_json (enc_StatusData demo_foreign (demo_status_data demo_hostdev_config))"

lemma demo_marshal: "Marshal demo_status_json (demo_status_data demo_hostdev_config) = Inr demo_raw"
  by (simp add: status_json_def demo_raw_def)

text \<open>The answer of the API server for one applied status.\<close>

lemma demo_answer_applied:
  assumes "asa_Driver a = ''devicenetwork.io''" and "asa_Data a = Some \<lparr>Raw = Some demo_raw\<rparr>"
    and "ap_Devices request = [a]" and "ap_FieldManager request = ''devicenetwork.io''"
  shows "status_applied request (demo_answer [a])"
  using assms marshalled_same_text [OF demo_status_text(2) demo_marshal]
  by (simp add: status_applied_def keeps_status_def status_key_def kept_status_def apply_key_def demo_gpu_status_def)

lemma demo_unmarshal: "Unmarshal demo_status_json demo_raw = Inr (demo_status_data demo_hostdev_config)"
  using demo_marshal marshalled_same_text [OF demo_status_text(2) demo_marshal]
  by (rule StatusData_reads_back [OF demo_foreign_ok demo_status_text])

text \<open>One preparation by a driver that resolves the result to the published host device.\<close>

lemma demo_allocates:
  assumes "driverName d = ''devicenetwork.io''" and "d_podNetworkKind d = ''devicenetwork-io-devicenetwork''"
    and "d_deviceConfigurators d = deviceConfigurators demo_status_json pod_kernel"
    and "rd = \<lparr>rd_DeviceRequestAllocationResult = Some demo_result, rd_DeviceNetwork = Some demo_dn,
        rd_DeviceConfiguration = Some demo_hostdev_config, rd_ExposedDevice = Some exposed,
        rd_HostDevice = Some demo_host\<rparr>"
  shows "\<exists>kd a. allocateDevice demo_driver_env d (Some rd) r = (Ok (Some kd, Some a), r) \<and>
      asa_Driver a = ''devicenetwork.io'' \<and> asa_Data a = Some \<lparr>Raw = Some demo_raw\<rparr>"
proof -
  have data: "status_data d demo_dn demo_hostdev_config (Some demo_host) = demo_status_data demo_hostdev_config"
    by (simp add: status_data_def assms(2) demo_dn_def demo_status_data_def)
  have json: "env_json demo_driver_env = demo_status_json"
    by (simp add: demo_driver_env_def)
  have c: "d_deviceConfigurators d (GetDeviceType demo_hostdev_config) =
      Some (HostDevice_Configurator demo_status_json pod_kernel run_HostDevice)"
    by (simp add: assms(3) GetDeviceType_def demo_hostdev_config_def)
  have nic: "spec_NetworkInterfaceConfiguration (Spec demo_dn) = \<lparr>nic_IPAM = []\<rparr>"
    by (simp add: demo_dn_def)
  show ?thesis
    by (simp add: assms(4) status_apply_def demo_result_def allocateDevice_def data json demo_marshal c nic
        HostDevice_Configurator_def HostDevice_Allocate_def run_HostDevice_def allocate_common_def Common_Allocate_def
        initial_status_def empty_NetworkDeviceData_def Let_def)
qed

lemma demo_prepares:
  assumes "driverName d = ''devicenetwork.io''" and "d_podNetworkKind d = ''devicenetwork-io-devicenetwork''"
    and "d_deviceConfigurators d = deviceConfigurators demo_status_json pod_kernel"
    and "deviceResolver d demo_result = Ok (Some rd)"
    and "rd = \<lparr>rd_DeviceRequestAllocationResult = Some demo_result, rd_DeviceNetwork = Some demo_dn,
        rd_DeviceConfiguration = Some demo_hostdev_config, rd_ExposedDevice = Some exposed,
        rd_HostDevice = Some demo_host\<rparr>"
  obtains kd a s' where
    "nodePrepareResource demo_driver_env d demo_claim empty_driver_state = (Ok [kd], s')"
    "env_ApplyStatus demo_driver_env (applied empty_driver_state) (last (applied s')) = Inr (demo_answer [a])"
    "status_applied (last (applied s')) (demo_answer [a])"
    "Memory_Get ''pod-1'' (podResourceStore s') = [demo_answer [a]]"
    "asa_Driver a = ''devicenetwork.io''" "asa_Data a = Some \<lparr>Raw = Some demo_raw\<rparr>"
proof -
  from demo_allocates [OF assms(1-3,5), of "generator empty_driver_state"] obtain kd a where
    one: "allocateDevice demo_driver_env d (Some rd) (generator empty_driver_state) =
      (Ok (Some kd, Some a), generator empty_driver_state)"
    and a: "asa_Driver a = ''devicenetwork.io''" "asa_Data a = Some \<lparr>Raw = Some demo_raw\<rparr>"
    by blast
  let ?request = "apply_request d demo_claim [a]"
  let ?s = "empty_driver_state\<lparr>applied := applied empty_driver_state @ [?request],
      podResourceStore := Memory_Add ''pod-1'' (demo_answer [a]) (podResourceStore empty_driver_state)\<rparr>"
  have own: "rar_Driver demo_result = driverName d"
    "rar_Driver (demo_result\<lparr>rar_Driver := ''gpu.example.com''\<rparr>) \<noteq> driverName d"
    by (simp_all add: demo_result_def assms(1))
  have claim: "length (ReservedFor demo_claim) = 1"
    "Allocation demo_claim = Some [demo_result, demo_result\<lparr>rar_Driver := ''gpu.example.com''\<rparr>]"
    by (simp_all add: demo_claim_def)
  have "allocate_results demo_driver_env d
      [demo_result, demo_result\<lparr>rar_Driver := ''gpu.example.com''\<rparr>] ([], []) (generator empty_driver_state) =
      (Ok ([kd], [a]), generator empty_driver_state)"
    using own by (simp add: assms(4) one)
  with claim have "nodePrepareResource demo_driver_env d demo_claim empty_driver_state = (Ok [kd], ?s)"
    by (simp add: nodePrepareResource_def Let_def demo_driver_env_def apply_request_def)
  moreover have "env_ApplyStatus demo_driver_env (applied empty_driver_state) (last (applied ?s)) = Inr (demo_answer [a])"
    by (simp add: demo_driver_env_def apply_request_def)
  moreover have "status_applied (last (applied ?s)) (demo_answer [a])"
    using demo_answer_applied [OF a, of ?request] by (simp add: apply_request_def assms(1))
  moreover have "Memory_Get ''pod-1'' (podResourceStore ?s) = [demo_answer [a]]"
    by (simp add: memory.get_add memory.get_empty empty_driver_state_def)
  ultimately show thesis
    using a by (rule that)
qed

lemma demo_hostdev_type: "GetDeviceType demo_hostdev_config = DeviceTypeHostDevice"
  by (simp add: GetDeviceType_def demo_hostdev_config_def)

lemma demo_configures:
  assumes "asa_Driver a = ''devicenetwork.io''" and "asa_Data a = Some \<lparr>Raw = Some demo_raw\<rparr>"
  shows "\<exists>h'. configureResourceClaim demo_status_json (deviceConfigurators demo_status_json pod_kernel) ''devicenetwork.io''
    ''/netns/pod'' (demo_answer [a]) [] = (Ok (), h')"
proof -
  have data: "sd_DeviceConfiguration (demo_status_data demo_hostdev_config) = Some demo_hostdev_config"
      "sd_Device (demo_status_data demo_hostdev_config) = Some demo_host"
    by (simp_all add: demo_status_data_def)
  have st: "ads_Driver (kept_status a) = ''devicenetwork.io''" "ads_Data (kept_status a) = Some \<lparr>Raw = Some demo_raw\<rparr>"
    using assms by (simp_all add: kept_status_def)
  have "\<exists>out h'. HostDevice_Configure demo_status_json pod_kernel run_HostDevice ''/netns/pod'' (Some (kept_status a)) [] = (Ok out, h')"
    by (simp add: HostDevice_Configure_def st demo_unmarshal data demo_hostdev_type with_netns_def hostdevice_body_def
        move_link_def RDMADevicesForNetdev_def pod_kernel_def Let_def)
  then show ?thesis
    by (auto simp: configureResourceClaim_def st demo_unmarshal data demo_hostdev_type HostDevice_Configurator_def
        demo_gpu_status_def)
qed

lemma allocated_interface_reaches_the_pod_witness:
  "\<exists>(p :: (string \<times> HostDevice) list program) kd s' a h' nd.
     nodePrepareResource demo_driver_env (prog_Driver p) demo_claim empty_driver_state = (Ok [kd], s') \<and>
     Memory_Get ''pod-1'' (podResourceStore s') = [demo_answer [a]] \<and>
     configureResourceClaim demo_status_json (prog_PluginConfigurators p) (prog_PluginDriver p) ''/netns/pod''
       (demo_answer [a]) [] = (Ok (), h') \<and>
     kd_NetworkData kd = Some nd \<and> nd_InterfaceName nd = ''eth0'' \<and>
     interface_moved pod_kernel ''/netns/pod'' 7 ''eth0'' [] h'"
proof -
  obtain p ops where run: "run demo_multinetwork_api (\<lambda>d p n. n) demo_status_json pod_kernel
      demo_start_env demo_options = (Ok p, ops)"
    using demo_program by blast
  let ?d = "prog_Driver p"
  let ?rd = "\<lparr>rd_DeviceRequestAllocationResult = Some demo_result, rd_DeviceNetwork = Some demo_dn,
      rd_DeviceConfiguration = Some demo_hostdev_config, rd_ExposedDevice = Some demo_published,
      rd_HostDevice = Some demo_host\<rparr>"
  note w = wired_driver [OF run_wired [OF run]]
  have d: "driverName ?d = ''devicenetwork.io''" "d_podNetworkKind ?d = ''devicenetwork-io-devicenetwork''"
      "d_deviceConfigurators ?d = deviceConfigurators demo_status_json pod_kernel"
      "deviceResolver ?d demo_result = Ok (Some ?rd)"
    by (simp_all add: w demo_options_def newCmdRun_def Let_def run_deviceResolver_def demo_program_resolves [OF run])
  obtain kd a s' where
    prep: "nodePrepareResource demo_driver_env ?d demo_claim empty_driver_state = (Ok [kd], s')" and
    ap: "env_ApplyStatus demo_driver_env (applied empty_driver_state) (last (applied s')) = Inr (demo_answer [a])"
      "status_applied (last (applied s')) (demo_answer [a])" and
    get: "Memory_Get ''pod-1'' (podResourceStore s') = [demo_answer [a]]" and
    a: "asa_Driver a = ''devicenetwork.io''" "asa_Data a = Some \<lparr>Raw = Some demo_raw\<rparr>"
    by (rule demo_prepares [OF d refl])
  have p: "prog_PluginConfigurators p = deviceConfigurators demo_status_json pod_kernel"
      "prog_PluginDriver p = ''devicenetwork.io''"
    by (simp_all add: w demo_options_def newCmdRun_def Let_def)
  obtain h' where conf: "configureResourceClaim demo_status_json (prog_PluginConfigurators p) (prog_PluginDriver p)
      ''/netns/pod'' (demo_answer [a]) [] = (Ok (), h')"
    using demo_configures [OF a] p by auto
  have json: "env_json demo_driver_env = demo_status_json"
    by (simp add: demo_driver_env_def)
  have data: "status_data ?d demo_dn demo_hostdev_config (Some demo_host) = demo_status_data demo_hostdev_config"
    by (simp add: status_data_def d demo_dn_def demo_status_data_def)
  have claim: "Allocation demo_claim = Some [demo_result, demo_result\<lparr>rar_Driver := ''gpu.example.com''\<rparr>]"
      "filter (\<lambda>x. rar_Driver x = DRADriverName demo_options) [demo_result, demo_result\<lparr>rar_Driver := ''gpu.example.com''\<rparr>] =
        [demo_result]"
    by (simp_all add: demo_claim_def demo_result_def demo_options_def newCmdRun_def Let_def)
  have stored: "demo_answer [a] \<in> set (Memory_Get ''pod-1'' (podResourceStore s'))"
    and new: "rc_UID (demo_answer [a]) \<notin> rc_UID ` set (Memory_Get ''pod-1'' (podResourceStore empty_driver_state))"
    by (simp_all add: get empty_driver_state_def memory.get_empty)
  have host: "InterfaceName (hd_Spec demo_host) = ''eth0''" and fd: "k_GetFromPath pod_kernel [] ''/netns/pod'' = Inr 7"
    by (simp_all add: demo_host_def pod_kernel_def)
  have rd: "rd_DeviceConfiguration ?rd = Some demo_hostdev_config" "rd_HostDevice ?rd = Some demo_host"
      "rd_DeviceNetwork ?rd = Some demo_dn"
    by simp_all
  from allocated_interface_reaches_the_pod [where h = "[]", OF run json demo_foreign_ok demo_status_text [folded data]
      claim demo_program_resolves [OF run] rd prep ap new stored refl conf]
  obtain nd where "kd_NetworkData kd = Some nd" "nd_InterfaceName nd = ''eth0''"
      "interface_moved pod_kernel ''/netns/pod'' 7 ''eth0'' [] h'"
    by (auto simp: demo_hostdev_type host fd DeviceTypeHostDevice_def DeviceTypeMacvlan_def)
  with prep get conf show ?thesis
    by blast
qed

lemma demo_iteration: "iteration_ok demo_start_env"
  by (auto simp: iteration_ok_def demo_start_env_def)

lemma run_shares_one_informer_witness:
  "\<exists>(p :: (string \<times> HostDevice) list program) ops i inf. run demo_multinetwork_api (\<lambda>d p n. n) demo_status_json pod_kernel
      demo_start_env demo_options = (Ok p, ops) \<and>
     f_ran (prog_Factory p) = [i] \<and> f_made (prog_Factory p) = [inf] \<and>
     inf_List inf \<lparr>FieldSelector = []\<rparr> = Inr [demo_dn] \<and>
     dnr_ListDeviceNetworks (dnc_reconciler (prog_Controller p)) = Inr [demo_dn]"
proof -
  obtain p ops where run: "run demo_multinetwork_api (\<lambda>d p n. n) demo_status_json pod_kernel
      demo_start_env demo_options = (Ok p, ops)"
    using demo_program by blast
  from run_shares_one_informer [OF run demo_iteration, of "\<lambda>i. True" "[]"] obtain i inf and cl :: Clientset where
    "f_ran (prog_Factory p) = [i]" "f_made (prog_Factory p) = [inf]"
    "dnr_ListDeviceNetworks (dnc_reconciler (prog_Controller p)) = se_ListDeviceNetworks demo_start_env i"
    "inf_List inf = rest_List (se_rest demo_start_env) ''devicenetworks'' (RESTClient (Some (devicenetworkV1alpha1 cl)))"
    by blast
  with run show ?thesis
    by (intro exI [of _ p] exI [of _ ops] exI [of _ i] exI [of _ inf]) (simp add: demo_start_env_def demo_rest_def)
qed

end
