(* ===== verification/Program.thy ===== *)
theory Program
  imports EndToEnd
begin

text \<open>
  The program as a process: \<open>cmd/main.go\<close> and \<open>cmd/cmd/cmd.go\<close>. The root command is built by
  \<open>getRootCmd\<close> and executed by cobra, which is a parameter; what its documentation says about
  \<open>Execute\<close> is \<open>cobra_ok\<close>. The context \<open>run\<close> waits for is the one that cobra hands to it.
\<close>

section \<open>The context of run\<close>

text \<open>\<open>Done\<close> of a context: the background context is never canceled, its channel is nil.\<close>

datatype go_context = Background | Cancellable

datatype done_channel = DoneChannel

definition ctx_Done :: "go_context \<Rightarrow> done_channel option" where
  "ctx_Done ctx = (case ctx of Background \<Rightarrow> None | Cancellable \<Rightarrow> Some DoneChannel)"

text \<open>
  The end of \<open>run\<close> with its context. A receive from a nil channel blocks for ever. So do the waits for caches
  that are given such a channel to stop at, unless the caches of the factory sync: then the effects are those
  before this wait, and the program stays where it is.
\<close>

datatype 's run_end =
    RunReturns "('s program, run_error) res"
  | RunBlocks run_op "'s program"

definition blocks :: "go_context \<Rightarrow> 's start_env \<Rightarrow> run_op \<Rightarrow> bool" where
  "blocks ctx env op \<longleftrightarrow>
     ctx_Done ctx = None \<and>
     (case op of CacheSyncWaited f \<Rightarrow> \<not> se_Synced env f | ContextDone \<Rightarrow> True | _ \<Rightarrow> False)"

definition run_in ::
  "go_context \<Rightarrow> 's start_env \<Rightarrow> ('s program, run_error) res \<times> run_op list \<Rightarrow> 's run_end \<times> run_op list" where
  "run_in ctx env r =
     (case r of
        (Ok p, ops) \<Rightarrow>
          (case dropWhile (\<lambda>op. \<not> blocks ctx env op) ops of
             [] \<Rightarrow> (RunReturns (Ok p), ops)
           | op # _ \<Rightarrow> (RunBlocks op p, takeWhile (\<lambda>op. \<not> blocks ctx env op) ops))
      | (out, ops) \<Rightarrow> (RunReturns out, ops))"

section \<open>The commands\<close>

text \<open>The fields of a cobra command that the source sets. \<open>RunE\<close> gets the context and the flags.\<close>

record 'r sub_command =
  sub_Use :: string
  sub_Short :: string
  sub_Long :: string
  RunE :: "go_context \<Rightarrow> (string \<rightharpoonup> string) \<Rightarrow> (string \<rightharpoonup> int) \<Rightarrow> 'r"

record 'r root_command =
  root_Use :: string
  root_Short :: string
  root_Long :: string
  DisableDefaultCmd :: bool
  SilenceUsage :: bool
  SilenceErrors :: bool
  root_Commands :: "'r sub_command list"

definition run_command ::
  "multinetwork_api \<Rightarrow> device_id \<Rightarrow> json_lib \<Rightarrow> kernel \<Rightarrow> 's start_env \<Rightarrow>
   ('s run_end \<times> run_op list) sub_command" where
  "run_command mn ids json k env =
     \<lparr>sub_Use = ''run'', sub_Short = ''Run the devicenetwork controller'',
      sub_Long = ''Run the devicenetwork controller'',
      RunE = (\<lambda>ctx flags intFlags. run_in ctx env (run mn ids json k env (newCmdRun flags intFlags)))\<rparr>"

definition AddCommand :: "'r sub_command \<Rightarrow> 'r root_command \<Rightarrow> 'r root_command" where
  "AddCommand c rootCmd = rootCmd\<lparr>root_Commands := root_Commands rootCmd @ [c]\<rparr>"

definition getRootCmd ::
  "multinetwork_api \<Rightarrow> device_id \<Rightarrow> json_lib \<Rightarrow> kernel \<Rightarrow> 's start_env \<Rightarrow>
   ('s run_end \<times> run_op list) root_command" where
  "getRootCmd mn ids json k env =
     (let rootCmd = \<lparr>root_Use = ''devicenetwork'', root_Short = ''CLI'',
                     root_Long = ''CLI for interacting with the device network'', DisableDefaultCmd = True,
                     SilenceUsage = True, SilenceErrors = True, root_Commands = []\<rparr>
      in AddCommand (run_command mn ids json k env) rootCmd)"

section \<open>The process\<close>

text \<open>What cobra makes of the arguments: an error of its own, a command without \<open>RunE\<close> (the help of the
  root command), or the \<open>RunE\<close> of a command with a context and the flags given.\<close>

datatype 'r cobra_answer =
    CobraError liberr
  | CobraHelp
  | CobraRuns "'r sub_command" go_context "string \<rightharpoonup> string" "string \<rightharpoonup> int"

text \<open>Cobra runs one of the commands of the root; \<open>Execute\<close>, unlike \<open>ExecuteContext\<close>, replaces the nil
  context of the command with the background context.\<close>

definition cobra_ok :: "('r root_command \<Rightarrow> 'r cobra_answer) \<Rightarrow> bool" where
  "cobra_ok cobra \<longleftrightarrow>
     (\<forall>rootCmd c ctx flags intFlags. cobra rootCmd = CobraRuns c ctx flags intFlags \<longrightarrow>
        c \<in> set (root_Commands rootCmd) \<and> ctx = Background)"

datatype execute_error = CobraFailed liberr | RunFailed run_error

text \<open>\<open>WaitsForCaches\<close> and \<open>KeepsRunning\<close>: the main goroutine is blocked in a wait for the caches of a
  factory, or in the receive at the end of \<open>run\<close>, behind which the loops run.\<close>

datatype 's process_end =
    Returns
  | Exits execute_error int
  | Crashes
  | WaitsForCaches factory
  | KeepsRunning "'s program"
  | Hangs

definition Execute ::
  "(('s run_end \<times> run_op list) root_command \<Rightarrow> ('s run_end \<times> run_op list) cobra_answer) \<Rightarrow>
   multinetwork_api \<Rightarrow> device_id \<Rightarrow> json_lib \<Rightarrow> kernel \<Rightarrow> 's start_env \<Rightarrow> 's process_end \<times> run_op list" where
  "Execute cobra mn ids json k env =
     (case cobra (getRootCmd mn ids json k env) of
        CobraError e \<Rightarrow> (Exits (CobraFailed e) 1, [])
      | CobraHelp \<Rightarrow> (Returns, [])
      | CobraRuns c ctx flags intFlags \<Rightarrow>
          (case RunE c ctx flags intFlags of
             (RunBlocks (CacheSyncWaited f) p, ops) \<Rightarrow> (WaitsForCaches f, ops)
           | (RunBlocks _ p, ops) \<Rightarrow> (KeepsRunning p, ops)
           | (RunReturns (Ok p), ops) \<Rightarrow> (Returns, ops)
           | (RunReturns (Err (FlagParseExits e)), ops) \<Rightarrow> (Exits (RunFailed (FlagParseExits e)) 2, ops)
           | (RunReturns (Err e), ops) \<Rightarrow> (Exits (RunFailed e) 1, ops)
           | (RunReturns Panic, ops) \<Rightarrow> (Crashes, ops)
           | (RunReturns Diverge, ops) \<Rightarrow> (Hangs, ops)))"

definition main ::
  "(('s run_end \<times> run_op list) root_command \<Rightarrow> ('s run_end \<times> run_op list) cobra_answer) \<Rightarrow>
   multinetwork_api \<Rightarrow> device_id \<Rightarrow> json_lib \<Rightarrow> kernel \<Rightarrow> 's start_env \<Rightarrow> 's process_end \<times> run_op list" where
  "main cobra mn ids json k env = Execute cobra mn ids json k env"

section \<open>How the process ends\<close>

lemma getRootCmd_Commands [simp]: "root_Commands (getRootCmd mn ids json k env) = [run_command mn ids json k env]"
  by (simp add: getRootCmd_def AddCommand_def)

lemma blocks_simps [simp]:
  "blocks ctx env (MkdirAll path) \<longleftrightarrow> False" "blocks ctx env (PluginStart d n) \<longleftrightarrow> False"
  "blocks ctx env PluginStop \<longleftrightarrow> False" "blocks ctx env (FactoryStarted f) \<longleftrightarrow> False"
  "blocks ctx env (GoRun c) \<longleftrightarrow> False" "\<not> blocks Cancellable env op"
  "blocks Background env (CacheSyncWaited f) \<longleftrightarrow> \<not> se_Synced env f" "blocks Background env ContextDone"
  by (simp_all add: blocks_def ctx_Done_def)

text \<open>A program that was put together: it stays at the first wait for caches that never sync, or goes on
  to the end.\<close>

definition awaited :: "factory list" where
  "awaited = [DeviceNetworkFactory, NodeFactory, ResourceSliceFactory]"

lemma run_in_Background_Ok:
  assumes "run mn ids json k env ro = (Ok p, ops)"
  shows "case find (\<lambda>f. \<not> se_Synced env f) awaited of
      None \<Rightarrow> run_in Background env (Ok p, ops) = (RunBlocks ContextDone p, startup_ops ro)
    | Some f \<Rightarrow> \<exists>ops'. run_in Background env (Ok p, ops) = (RunBlocks (CacheSyncWaited f) p, ops') \<and>
        PluginStart (DRADriverName ro) (NodeName ro) \<in> set ops' \<and> PluginStop \<notin> set ops' \<and> spawns ops' = []"
proof -
  have "ops = startup_ops ro @ [ContextDone, PluginStop]"
    using run_result [of mn ids json k env ro] assms by simp
  then show ?thesis
    by (simp add: run_in_def startup_ops_def awaited_def)
qed

text \<open>
  C18: once the kubelet plugin is registered the program never ends by itself, and never stops the plugin.
  With the context that \<open>Execute\<close> gives it, \<open>main\<close> returns only when cobra has shown the help; it exits
  before any loop is spawned, with status 2 when the flags of the process cannot be parsed and with status
  1 when cobra or \<open>run\<close> fails otherwise; it waits for ever, with the plugin started and no loop spawned,
  when the caches of a factory never sync; and else it keeps running with its four loops. The deferred
  stop of the kubelet plugin, which comes after the wait for a context that can be canceled, is not reached.
\<close>

theorem main_never_stops_the_plugin:
  assumes "cobra_ok cobra"
  shows "case main cobra mn ids json k env of
     (Returns, ops) \<Rightarrow> cobra (getRootCmd mn ids json k env) = CobraHelp \<and> ops = []
   | (Exits e status, ops) \<Rightarrow> spawns ops = [] \<and>
       status = (if \<exists>x. e = RunFailed (FlagParseExits x) then 2 else 1) \<and>
       (PluginStop \<in> set ops \<longleftrightarrow> (\<exists>x. e = RunFailed (FailedToCreateController x)))
   | (Crashes, ops) \<Rightarrow> False
   | (Hangs, ops) \<Rightarrow> False
   | (WaitsForCaches f, ops) \<Rightarrow>
       (\<exists>ctx flags intFlags. let ro = newCmdRun flags intFlags in
          cobra (getRootCmd mn ids json k env) = CobraRuns (run_command mn ids json k env) ctx flags intFlags \<and>
          (\<exists>p ops'. run mn ids json k env ro = (Ok p, ops')) \<and>
          find (\<lambda>f. \<not> se_Synced env f) awaited = Some f \<and> spawns ops = [] \<and>
          PluginStart (DRADriverName ro) (NodeName ro) \<in> set ops \<and> PluginStop \<notin> set ops)
   | (KeepsRunning p, ops) \<Rightarrow>
       (\<exists>ctx flags intFlags. let ro = newCmdRun flags intFlags in
          cobra (getRootCmd mn ids json k env) = CobraRuns (run_command mn ids json k env) ctx flags intFlags \<and>
          (\<forall>f. se_Synced env f) \<and> wired mn ids json k env ro p \<and>
          spawns ops = [ResolverRun, DeviceCacheRun, ControllerRun, NriPluginRun] \<and>
          PluginStart (DRADriverName ro) (NodeName ro) \<in> set ops \<and> PluginStop \<notin> set ops \<and>
          RunE (run_command mn ids json k env) Cancellable flags intFlags =
            (RunReturns (Ok p), ops @ [ContextDone, PluginStop]))"
proof (cases "cobra (getRootCmd mn ids json k env)")
  case (CobraRuns c ctx flags intFlags)
  with assms have "c \<in> set (root_Commands (getRootCmd mn ids json k env))" and ctx: "ctx = Background"
    unfolding cobra_ok_def by blast+
  then have c: "c = run_command mn ids json k env"
    by simp
  let ?ro = "newCmdRun flags intFlags"
  have RunE: "RunE c ctx' flags intFlags = run_in ctx' env (run mn ids json k env ?ro)" for ctx'
    by (simp add: c run_command_def)
  obtain out ops where run: "run mn ids json k env ?ro = (out, ops)"
    by fastforce
  note result = run_result [of mn ids json k env ?ro]
  show ?thesis
  proof (cases out)
    case (Ok p)
    from result run Ok have w: "wired mn ids json k env ?ro p" and ops: "ops = startup_ops ?ro @ [ContextDone, PluginStop]"
      by auto
    have cancel: "RunE c Cancellable flags intFlags = (RunReturns (Ok p), startup_ops ?ro @ [ContextDone, PluginStop])"
      by (simp add: RunE run Ok ops run_in_def)
    have started: "spawns (startup_ops ?ro) = [ResolverRun, DeviceCacheRun, ControllerRun, NriPluginRun]"
        "PluginStart (DRADriverName ?ro) (NodeName ?ro) \<in> set (startup_ops ?ro)" "PluginStop \<notin> set (startup_ops ?ro)"
      by (simp_all add: startup_ops_def)
    show ?thesis
    proof (cases "find (\<lambda>f. \<not> se_Synced env f) awaited")
      case None
      then have "se_Synced env DeviceNetworkFactory" "se_Synced env NodeFactory" "se_Synced env ResourceSliceFactory"
        by (simp_all add: awaited_def split: if_splits)
      then have "\<forall>f. se_Synced env f"
        by (intro allI) (metis factory.exhaust)
      with run_in_Background_Ok [OF run [unfolded Ok]] None CobraRuns cancel started w show ?thesis
        by (auto simp: main_def Execute_def RunE run Ok ctx c [symmetric] Let_def)
    next
      case (Some f)
      with run_in_Background_Ok [OF run [unfolded Ok]] obtain ops' where
        "run_in Background env (Ok p, ops) = (RunBlocks (CacheSyncWaited f) p, ops')"
        "PluginStart (DRADriverName ?ro) (NodeName ?ro) \<in> set ops'" "PluginStop \<notin> set ops'" "spawns ops' = []"
        by auto
      with Some CobraRuns run Ok show ?thesis
        by (simp add: main_def Execute_def RunE run ctx c [symmetric] Let_def)
    qed
  next
    case (Err e)
    with result run CobraRuns show ?thesis
      by (cases e) (auto simp: main_def Execute_def RunE run run_in_def)
  qed (use result run in auto)
qed (simp_all add: main_def Execute_def)

text \<open>A command line that runs the first command for the node \<open>node-a\<close>.\<close>

definition demo_cobra :: "'r root_command \<Rightarrow> 'r cobra_answer" where
  "demo_cobra rootCmd =
     (case root_Commands rootCmd of
        [] \<Rightarrow> CobraHelp
      | c # cs \<Rightarrow> CobraRuns c Background [''node-name'' \<mapsto> ''node-a''] Map.empty)"

lemma demo_cobra_ok: "cobra_ok demo_cobra"
  by (auto simp: cobra_ok_def demo_cobra_def split: list.splits)

lemma main_never_stops_the_plugin_witness:
  "\<exists>(p :: (string \<times> HostDevice) list program) ops.
     main demo_cobra demo_multinetwork_api (\<lambda>d p n. n) demo_status_json pod_kernel demo_start_env = (KeepsRunning p, ops) \<and>
     PluginStart ''devicenetwork.io'' ''node-a'' \<in> set ops \<and> PluginStop \<notin> set ops"
proof -
  let ?main = "main demo_cobra demo_multinetwork_api (\<lambda>d p n. n) demo_status_json pod_kernel demo_start_env"
  obtain p ops where run: "run demo_multinetwork_api (\<lambda>d p n. n) demo_status_json pod_kernel demo_start_env demo_options = (Ok p, ops)"
    using demo_program by blast
  have "find (\<lambda>f. \<not> se_Synced (demo_start_env :: (string \<times> HostDevice) list start_env) f) awaited = None"
    by (simp add: awaited_def demo_start_env_def)
  with run run_in_Background_Ok [OF run] have main: "?main = (KeepsRunning p, startup_ops demo_options)"
    by (simp add: main_def Execute_def demo_cobra_def run_command_def demo_options_def)
  have "PluginStart ''devicenetwork.io'' ''node-a'' \<in> set (snd ?main) \<and> PluginStop \<notin> set (snd ?main)"
    using main_never_stops_the_plugin [OF demo_cobra_ok, of demo_multinetwork_api "\<lambda>d p n. n" demo_status_json
        pod_kernel demo_start_env]
    by (auto simp: main demo_cobra_def Let_def newCmdRun_def)
  with main show ?thesis
    by auto
qed

end
