(* ===== verification/ControlLoop.thy ===== *)
theory ControlLoop
  imports EndToEnd
begin

text \<open>
  The control loop of a node: informers that call the controller's handlers, the work queue, the worker
  and the reconciler (\<open>pkg/controllers/devicenetwork\<close>), as a step relation in which what the listers
  answer changes at any time. The work queue of client-go is a parameter with the laws its
  documentation states (\<open>workqueue_ok\<close>).
\<close>

section \<open>The work queue\<close>

text \<open>\<open>wq_Get\<close> answers \<open>None\<close> where \<open>Get\<close> would block; \<open>wq_Elapse\<close> is the passing of time, which ends the
  delays of \<open>AddRateLimited\<close>.\<close>

record 'q workqueue =
  wq_empty :: 'q
  wq_Add :: "string \<Rightarrow> 'q \<Rightarrow> 'q"
  wq_AddRateLimited :: "string \<Rightarrow> 'q \<Rightarrow> 'q"
  wq_Forget :: "string \<Rightarrow> 'q \<Rightarrow> 'q"
  wq_Done :: "string \<Rightarrow> 'q \<Rightarrow> 'q"
  wq_Get :: "'q \<Rightarrow> (string \<times> 'q) option"
  wq_Elapse :: "'q \<Rightarrow> 'q"

text \<open>
  \<open>waiting\<close> are the items that will be handed out, also those that were added while they were processed or
  that wait for a delay; \<open>busy\<close> are those handed out and not yet done. An item is not handed out
  while it is busy, and an item that waits is handed out in the end.
\<close>

definition workqueue_ok :: "'q workqueue \<Rightarrow> ('q \<Rightarrow> string set) \<Rightarrow> ('q \<Rightarrow> string set) \<Rightarrow> bool" where
  "workqueue_ok Q waiting busy \<longleftrightarrow>
     waiting (wq_empty Q) = {} \<and> busy (wq_empty Q) = {} \<and>
     (\<forall>key q. waiting (wq_Add Q key q) = insert key (waiting q) \<and> busy (wq_Add Q key q) = busy q) \<and>
     (\<forall>key q. waiting (wq_AddRateLimited Q key q) = insert key (waiting q) \<and>
        busy (wq_AddRateLimited Q key q) = busy q) \<and>
     (\<forall>key q. waiting (wq_Forget Q key q) = waiting q \<and> busy (wq_Forget Q key q) = busy q) \<and>
     (\<forall>key q. waiting (wq_Done Q key q) = waiting q \<and> busy (wq_Done Q key q) = busy q - {key}) \<and>
     (\<forall>q. waiting (wq_Elapse Q q) = waiting q \<and> busy (wq_Elapse Q q) = busy q) \<and>
     (\<forall>q key q'. wq_Get Q q = Some (key, q') \<longrightarrow>
        key \<in> waiting q \<and> key \<notin> busy q \<and> waiting q' = waiting q - {key} \<and> busy q' = insert key (busy q)) \<and>
     (\<forall>q. waiting q - busy q \<noteq> {} \<longrightarrow> (\<exists>n. wq_Get Q ((wq_Elapse Q ^^ n) q) \<noteq> None))"

fun queue_op_run :: "'q workqueue \<Rightarrow> queue_op \<Rightarrow> 'q \<Rightarrow> 'q" where
  "queue_op_run Q (QAdd key) q = wq_Add Q key q"
| "queue_op_run Q (QForget key) q = wq_Forget Q key q"
| "queue_op_run Q (QAddRateLimited key) q = wq_AddRateLimited Q key q"
| "queue_op_run Q (QDone key) q = wq_Done Q key q"

fun added_key :: "queue_op \<Rightarrow> string set" where
  "added_key (QAdd key) = {key}"
| "added_key (QAddRateLimited key) = {key}"
| "added_key (QForget key) = {}"
| "added_key (QDone key) = {}"

fun done_key :: "queue_op \<Rightarrow> string set" where
  "done_key (QDone key) = {key}"
| "done_key _ = {}"

lemma workqueue_op:
  assumes "workqueue_ok Q waiting busy"
  shows "waiting (queue_op_run Q op q) = added_key op \<union> waiting q"
    and "busy (queue_op_run Q op q) = busy q - done_key op"
  using assms by (cases op; simp add: workqueue_ok_def)+

lemma workqueue_elapse:
  assumes "workqueue_ok Q waiting busy"
  shows "waiting (wq_Elapse Q q) = waiting q" and "busy (wq_Elapse Q q) = busy q"
  using assms by (simp_all add: workqueue_ok_def)

lemma workqueue_get:
  assumes "workqueue_ok Q waiting busy" and "wq_Get Q q = Some (key, q')"
  shows "key \<in> waiting q" "key \<notin> busy q" "waiting q' = waiting q - {key}" "busy q' = insert key (busy q)"
  using assms by (auto simp: workqueue_ok_def)

section \<open>The loop\<close>

text \<open>The worker: idle, with an item it has not reconciled, or with the queue operations that are left
  after the reconciliation.\<close>

datatype worker_state = Idle | Taken string | Reconciled "queue_op list"

text \<open>
  \<open>co_world\<close> is the reconciler with what its listers answer now, \<open>co_owed\<close> the notifications that the
  informers have not yet handed to the handlers, and \<open>co_pool\<close> the resources that the kubelet plugin
  accepted last. \<open>co_mixed\<close> tells whether something has changed since the item of the worker was taken.
\<close>

record 'q control_state =
  co_queue :: 'q
  co_world :: DeviceNetworkReconciler
  co_owed :: "(watched \<times> event_kind) list"
  co_worker :: worker_state
  co_mixed :: bool
  co_pool :: "DriverResources option"

definition world_changed :: "watched \<Rightarrow> DeviceNetworkReconciler \<Rightarrow> DeviceNetworkReconciler \<Rightarrow> bool" where
  "world_changed w W W' \<longleftrightarrow>
     (case w of
        DeviceNetworks \<Rightarrow> \<exists>answer. W' = W\<lparr>dnr_ListDeviceNetworks := answer\<rparr>
      | Devices \<Rightarrow> \<exists>answer. W' = W\<lparr>dnr_ListDevices := answer\<rparr>
      | Nodes \<Rightarrow> \<exists>answer. W' = W\<lparr>dnr_GetNode := answer\<rparr>)"

text \<open>A resync hands every object of an informer's store to its handlers as an update; the informer of the
  host devices is made without one.\<close>

definition resyncs :: "watched \<Rightarrow> DeviceNetworkReconciler \<Rightarrow> bool" where
  "resyncs w W \<longleftrightarrow>
     w = DeviceNetworks \<and> (case dnr_ListDeviceNetworks W of Inr dns \<Rightarrow> dns \<noteq> [] | Inl e \<Rightarrow> False)"

definition accepted ::
  "(DriverResources \<Rightarrow> liberr option) \<Rightarrow> DriverResources list \<Rightarrow> DriverResources option \<Rightarrow> DriverResources option" where
  "accepted publish published pool =
     (case filter (\<lambda>r. publish r = None) published of [] \<Rightarrow> pool | rs \<Rightarrow> Some (last rs))"

text \<open>
  A change is \<open>Changed\<close> when a handler will hear of it and \<open>Unnoticed\<close> when none will: the controller has no
  handler for nodes, and the broadcaster of the host devices drops an event for which its channel has no
  room, after the device was stored.
\<close>

definition may_go_unnoticed :: "(watched \<rightharpoonup> (event_kind \<Rightarrow> queue_op list)) \<Rightarrow> watched \<Rightarrow> bool" where
  "may_go_unnoticed handlers w \<longleftrightarrow> w = Devices \<or> handlers w = None"

datatype control_label =
    Changed watched event_kind
  | Unnoticed watched
  | Notified watched event_kind
  | Resynced watched
  | Elapsed
  | Took string
  | Processed string "DriverResources \<Rightarrow> liberr option"
  | ProcessedMixed string "DriverResources \<Rightarrow> liberr option"
  | QueueOp queue_op

text \<open>
  A reconciliation asks its listers one after the other, and publishes after that. When nothing changes
  from the moment its item was taken, or when its first question comes after the last change, it sees the
  world as it is (\<open>co_process\<close>). Otherwise its answers are from several states: it may then return and
  publish anything (\<open>co_process_mixed\<close>), which is more than it can do.
\<close>

inductive control_step ::
  "'q workqueue \<Rightarrow> reconciler_env \<Rightarrow> (watched \<rightharpoonup> (event_kind \<Rightarrow> queue_op list)) \<Rightarrow>
   'q control_state \<Rightarrow> control_label \<Rightarrow> 'q control_state \<Rightarrow> bool"
  for Q env handlers where
  co_change: "world_changed w (co_world s) W \<Longrightarrow> handlers w = Some h \<Longrightarrow>
    control_step Q env handlers s (Changed w ev)
      (s\<lparr>co_world := W, co_mixed := True, co_owed := co_owed s @ [(w, ev)]\<rparr>)"
| co_unnoticed: "world_changed w (co_world s) W \<Longrightarrow> may_go_unnoticed handlers w \<Longrightarrow>
    control_step Q env handlers s (Unnoticed w) (s\<lparr>co_world := W, co_mixed := True\<rparr>)"
| co_notify: "co_owed s = before @ (w, ev) # after \<Longrightarrow> handlers w = Some h \<Longrightarrow>
    control_step Q env handlers s (Notified w ev)
      (s\<lparr>co_owed := before @ after, co_queue := fold (queue_op_run Q) (h ev) (co_queue s)\<rparr>)"
| co_resync: "handlers w = Some h \<Longrightarrow> resyncs w (co_world s) \<Longrightarrow>
    control_step Q env handlers s (Resynced w)
      (s\<lparr>co_queue := fold (queue_op_run Q) (h UpdateEvent) (co_queue s)\<rparr>)"
| co_elapse: "control_step Q env handlers s Elapsed (s\<lparr>co_queue := wq_Elapse Q (co_queue s)\<rparr>)"
| co_take: "co_worker s = Idle \<Longrightarrow> wq_Get Q (co_queue s) = Some (key, q) \<Longrightarrow>
    control_step Q env handlers s (Took key) (s\<lparr>co_queue := q, co_worker := Taken key, co_mixed := False\<rparr>)"
| co_process: "co_worker s = Taken key \<Longrightarrow>
    Controller_processNextWorkItem (reconcile_log env ((co_world s)\<lparr>publishResourcesFunc := Some publish\<rparr>))
      (Some key) [] = (True, ops, published) \<Longrightarrow>
    control_step Q env handlers s (Processed key publish)
      (s\<lparr>co_worker := Reconciled ops, co_pool := accepted publish published (co_pool s)\<rparr>)"
| co_process_mixed: "co_worker s = Taken key \<Longrightarrow> co_mixed s \<Longrightarrow>
    Controller_processNextWorkItem reconcile (Some key) [] = (True, ops, published) \<Longrightarrow>
    control_step Q env handlers s (ProcessedMixed key publish)
      (s\<lparr>co_worker := Reconciled ops, co_pool := accepted publish published (co_pool s)\<rparr>)"
| co_queue_op: "co_worker s = Reconciled (op # ops) \<Longrightarrow>
    control_step Q env handlers s (QueueOp op)
      (s\<lparr>co_queue := queue_op_run Q op (co_queue s),
         co_worker := (if ops = [] then Idle else Reconciled ops)\<rparr>)"

definition control_start :: "'q workqueue \<Rightarrow> DeviceNetworkReconciler \<Rightarrow> 'q control_state" where
  "control_start Q W = \<lparr>co_queue = wq_empty Q, co_world = W, co_owed = [], co_worker = Idle, co_mixed = False,
     co_pool = None\<rparr>"

inductive control_run ::
  "'q workqueue \<Rightarrow> reconciler_env \<Rightarrow> DeviceNetworkController \<Rightarrow> control_label list \<Rightarrow> 'q control_state \<Rightarrow> bool"
  for Q env dnc where
  control_new: "control_run Q env dnc [] (control_start Q (dnc_reconciler dnc))"
| control_more: "control_run Q env dnc ls s \<Longrightarrow> control_step Q env (dnc_handlers dnc) s l s' \<Longrightarrow>
    control_run Q env dnc (ls @ [l]) s'"

section \<open>What is wanted\<close>

text \<open>The resources of the node as the listers answer now, when they answer.\<close>

definition wanted :: "reconciler_env \<Rightarrow> DeviceNetworkReconciler \<Rightarrow> DriverResources option" where
  "wanted env W =
     (case (dnr_GetNode W (nodeName W), dnr_ListDeviceNetworks W) of
        (Inr node, Inr dns) \<Rightarrow>
          (case getResources env W dns node (dnr_deviceConfigurators W) of Ok r \<Rightarrow> Some r | _ \<Rightarrow> None)
      | _ \<Rightarrow> None)"

text \<open>Nothing is left to do: no notification, no item, no work.\<close>

definition settled :: "('q \<Rightarrow> string set) \<Rightarrow> 'q control_state \<Rightarrow> bool" where
  "settled waiting s \<longleftrightarrow> co_owed s = [] \<and> waiting (co_queue s) = {} \<and> co_worker s = Idle"

text \<open>A reconciliation of the world as it is now is still to come: a notification, an item, an item that is
  taken without a change since, or a reconciliation that has failed.\<close>

definition due :: "('q \<Rightarrow> string set) \<Rightarrow> 'q control_state \<Rightarrow> bool" where
  "due waiting s \<longleftrightarrow>
     co_owed s \<noteq> [] \<or> waiting (co_queue s) \<noteq> {} \<or>
     (co_worker s = Taken ''Event'' \<and> \<not> co_mixed s) \<or>
     co_worker s = Reconciled [QAddRateLimited ''Event'', QDone ''Event'']"

text \<open>What the kubelet plugin accepted last is what is wanted, and no reconciliation is under way that may
  have seen something else.\<close>

definition current :: "reconciler_env \<Rightarrow> 'q control_state \<Rightarrow> bool" where
  "current env s \<longleftrightarrow> (\<exists>r. co_pool s = Some r \<and> wanted env (co_world s) = Some r) \<and>
     \<not> (co_mixed s \<and> (\<exists>key. co_worker s = Taken key))"

definition control_inv :: "('q \<Rightarrow> string set) \<Rightarrow> ('q \<Rightarrow> string set) \<Rightarrow> 'q control_state \<Rightarrow> bool" where
  "control_inv waiting busy s \<longleftrightarrow>
     waiting (co_queue s) \<subseteq> {''Event''} \<and>
     busy (co_queue s) = (if co_worker s = Idle then {} else {''Event''}) \<and>
     co_worker s \<in> {Idle, Taken ''Event'', Reconciled [QForget ''Event'', QDone ''Event''],
       Reconciled [QAddRateLimited ''Event'', QDone ''Event''], Reconciled [QDone ''Event'']} \<and>
     (\<forall>(w, ev) \<in> set (co_owed s). w \<noteq> Nodes)"

definition control_handlers :: "watched \<rightharpoonup> (event_kind \<Rightarrow> queue_op list)" where
  "control_handlers = [DeviceNetworks \<mapsto> event_handlers, Devices \<mapsto> event_handlers]"

lemma event_handlers_Add [simp]: "event_handlers ev = [QAdd ''Event'']"
  by (simp add: event_handlers_def onEvent_def split: event_kind.split)

lemma control_handlers_simps [simp]:
  "control_handlers w = Some h \<longleftrightarrow> w \<noteq> Nodes \<and> h = event_handlers" "control_handlers w = None \<longleftrightarrow> w = Nodes"
  by (cases w; auto simp: control_handlers_def)+

section \<open>One reconciliation\<close>

text \<open>The resources do not depend on where they are published.\<close>

lemma deviceForSelector_publish [simp]:
  "deviceForSelector env (W\<lparr>publishResourcesFunc := f\<rparr>) node sels acc = deviceForSelector env W node sels acc"
  by (induction sels arbitrary: acc) (simp_all add: Let_def split: option.split sum.split)

lemma expose_devices_publish [simp]:
  "expose_devices env (W\<lparr>publishResourcesFunc := f\<rparr>) c dn dc ds acc = expose_devices env W c dn dc ds acc"
  by (induction ds arbitrary: acc)
    (simp_all add: expose_device_def with_attributes_def split: res.split option.split)

lemma expose_configurations_publish [simp]:
  "expose_configurations env (W\<lparr>publishResourcesFunc := f\<rparr>) cfg dn sel dcs acc =
   expose_configurations env W cfg dn sel dcs acc"
  by (induction dcs arbitrary: acc) (simp_all add: Let_def split: res.split option.split)

lemma expose_networks_publish [simp]:
  "expose_networks env (W\<lparr>publishResourcesFunc := f\<rparr>) node cfg dns acc = expose_networks env W node cfg dns acc"
  by (induction dns arbitrary: acc) (simp_all add: Let_def split: res.split)

lemma process_cases:
  assumes "Controller_processNextWorkItem (reconcile_log env (W\<lparr>publishResourcesFunc := Some publish\<rparr>))
      (Some key) [] = (True, ops, published)"
  obtains (worked) r where "ops = [QForget key, QDone key]" "published = [r]" "publish r = None" "wanted env W = Some r"
    | (failed) "ops = [QAddRateLimited key, QDone key]"
  using assms
  by (auto simp: Controller_processNextWorkItem_def reconcile_log_def Reconcile_def wanted_def getResources_def
      split: res.splits sum.splits option.splits prod.splits)

lemma process_works:
  assumes "wanted env W = Some r" and "publish r = None"
  shows "Controller_processNextWorkItem (reconcile_log env (W\<lparr>publishResourcesFunc := Some publish\<rparr>))
      (Some key) [] = (True, [QForget key, QDone key], [r])"
  using assms
  by (auto simp: Controller_processNextWorkItem_def reconcile_log_def Reconcile_def wanted_def getResources_def
      split: res.splits sum.splits option.splits prod.splits)

lemma process_ops:
  assumes "Controller_processNextWorkItem reconcile (Some key) [] = (True, ops, published)"
  shows "ops = [QForget key, QDone key] \<or> ops = [QAddRateLimited key, QDone key]"
  using assms by (auto simp: Controller_processNextWorkItem_def split: prod.splits res.splits)

section \<open>The invariant\<close>

lemma control_inv_start: "workqueue_ok Q waiting busy \<Longrightarrow> control_inv waiting busy (control_start Q W)"
  by (simp add: control_inv_def control_start_def workqueue_ok_def)

lemma control_inv_left_ops:
  assumes "control_inv waiting busy s" and "co_worker s = Reconciled (op # ops)"
  obtains (forget) "op = QForget ''Event''" "ops = [QDone ''Event'']"
    | (retry) "op = QAddRateLimited ''Event''" "ops = [QDone ''Event'']"
    | (finish) "op = QDone ''Event''" "ops = []"
  using assms unfolding control_inv_def by auto

lemma control_inv_step:
  assumes Q: "workqueue_ok Q waiting busy" and inv: "control_inv waiting busy s"
    and "control_step Q env control_handlers s l s'"
  shows "control_inv waiting busy s'"
  using assms(3)
proof cases
  case (co_take key q)
  with inv workqueue_get [OF Q co_take(4)] show ?thesis
    by (auto simp: control_inv_def)
next
  case (co_process key publish ops published)
  with inv have "key = ''Event''"
    by (auto simp: control_inv_def)
  with process_ops [OF co_process(4)] inv co_process(1-3) show ?thesis
    by (auto simp: control_inv_def)
next
  case (co_process_mixed key reconcile ops published publish)
  with inv have "key = ''Event''"
    by (auto simp: control_inv_def)
  with process_ops [OF co_process_mixed(5)] inv co_process_mixed(1-3) show ?thesis
    by (auto simp: control_inv_def)
next
  case (co_queue_op op ops)
  from inv co_queue_op(3) show ?thesis
    by (cases rule: control_inv_left_ops)
      (use inv co_queue_op in \<open>simp_all add: control_inv_def workqueue_op [OF Q] del: queue_op_run.simps\<close>)
qed (use inv in \<open>auto simp: control_inv_def workqueue_elapse [OF Q] workqueue_op [OF Q]
  simp del: queue_op_run.simps\<close>)

text \<open>
  From the first change that a handler hears of, or the first resync, no change is lost but those that go
  unnoticed: what is not yet published is due.
\<close>

definition trigger :: "control_label \<Rightarrow> bool" where
  "trigger l \<longleftrightarrow> (case l of Changed _ _ \<Rightarrow> True | Resynced _ \<Rightarrow> True | _ \<Rightarrow> False)"

definition unnoticed :: "control_label \<Rightarrow> bool" where
  "unnoticed l \<longleftrightarrow> (case l of Unnoticed _ \<Rightarrow> True | _ \<Rightarrow> False)"

lemma trigger_due:
  assumes "workqueue_ok Q waiting busy" and "control_step Q env control_handlers s l s'" and "trigger l"
  shows "due waiting s'"
  using assms(2,3)
  by cases (auto simp: trigger_def due_def workqueue_op [OF assms(1)] simp del: queue_op_run.simps)

lemma control_due_step:
  assumes Q: "workqueue_ok Q waiting busy" and inv: "control_inv waiting busy s"
    and "control_step Q env control_handlers s l s'" and "\<not> unnoticed l" and "due waiting s \<or> current env s"
  shows "due waiting s' \<or> current env s'"
  using assms(3)
proof cases
  case (co_unnoticed w W)
  with assms(4) show ?thesis
    by (simp add: unnoticed_def)
next
  case (co_take key q)
  with inv workqueue_get [OF Q co_take(4)] show ?thesis
    by (auto simp: control_inv_def due_def)
next
  case (co_process key publish ops published)
  with inv have "key = ''Event''"
    by (auto simp: control_inv_def)
  with co_process(4) co_process(1-3) show ?thesis
    by (cases rule: process_cases) (auto simp: due_def current_def accepted_def)
next
  case (co_process_mixed key reconcile ops published publish)
  with assms(5) show ?thesis
    by (auto simp: due_def current_def)
next
  case (co_queue_op op ops)
  from inv co_queue_op(3) show ?thesis
    by (cases rule: control_inv_left_ops)
      (use co_queue_op assms(5) in \<open>simp_all add: due_def current_def workqueue_op [OF Q] del: queue_op_run.simps\<close>)
qed (use assms(5) in \<open>auto simp: due_def current_def workqueue_elapse [OF Q] workqueue_op [OF Q]
  simp del: queue_op_run.simps\<close>)

section \<open>Runs\<close>

lemma NewDeviceNetworkController_handlers:
  assumes "NewDeviceNetworkController senv node kind' dni nodes publish cfg f = (Ok dnc, f')"
  shows "dnc_handlers dnc = control_handlers" and "dnr_deviceConfigurators (dnc_reconciler dnc) = cfg"
  using assms
  by (auto simp: NewDeviceNetworkController_def NewDeviceNetworkReconciler_def control_handlers_def Let_def
      split: res.splits prod.splits option.splits)

lemma control_run_inv:
  assumes "workqueue_ok Q waiting busy" and "dnc_handlers dnc = control_handlers"
    and "control_run Q env dnc ls s"
  shows "control_inv waiting busy s"
  using assms(3)
proof induction
  case control_new
  show ?case
    by (rule control_inv_start [OF assms(1)])
next
  case (control_more ls s l s')
  then show ?case
    using control_inv_step [OF assms(1)] assms(2) by auto
qed

lemma control_run_due:
  assumes Q: "workqueue_ok Q waiting busy" and h: "dnc_handlers dnc = control_handlers"
    and "control_run Q env dnc (before @ l # after) s" and "trigger l" and "\<not> list_ex unnoticed after"
  shows "due waiting s \<or> current env s"
  using assms(3,5)
proof (induction after arbitrary: s rule: rev_induct)
  case Nil
  from Nil.prems(1) obtain s0 where "control_step Q env (dnc_handlers dnc) s0 l s"
    by (cases rule: control_run.cases) auto
  with trigger_due [OF Q] assms(4) h show ?case
    by auto
next
  case (snoc x xs)
  from snoc.prems(1) obtain s0 where s0: "control_run Q env dnc (before @ l # xs) s0"
    "control_step Q env (dnc_handlers dnc) s0 x s"
    by (cases rule: control_run.cases) auto
  from snoc.prems(2) have "\<not> unnoticed x" "\<not> list_ex unnoticed xs"
    by auto
  from control_due_step [OF Q control_run_inv [OF Q h s0(1)] s0(2) [unfolded h] this(1)] snoc.IH [OF s0(1) this(2)]
  show ?case .
qed

text \<open>
  C11: the controller loses no change that a handler hears of. In every interleaving of changes, notifications,
  queue, worker and reconciliations that see several states, take any change of a DeviceNetwork or host device
  that a handler is owed the event of, or any resync, after which no change goes unnoticed (a change of
  the node, or one of a host device whose event is dropped). Once everything is settled after it (no notification
  outstanding, no item waiting, the worker idle) the resources the kubelet plugin accepted last are those
  of the node, the DeviceNetworks and the host devices as they are now, including what changed unnoticed
  before.
\<close>

theorem settled_controller_is_current:
  assumes "workqueue_ok Q waiting busy"
    and "NewDeviceNetworkController senv node kind' dni nodes publish cfg f = (Ok dnc, f')"
    and "control_run Q env dnc (before @ l # after) s" and "trigger l" and "\<not> list_ex unnoticed after"
    and "settled waiting s"
  shows "\<exists>r. co_pool s = Some r \<and> wanted env (co_world s) = Some r"
proof -
  from control_run_due [OF assms(1) NewDeviceNetworkController_handlers(1) [OF assms(2)] assms(3-5)]
  have "due waiting s \<or> current env s" .
  moreover have "\<not> due waiting s"
    using assms(6) by (auto simp: due_def settled_def)
  ultimately show ?thesis
    by (simp add: current_def)
qed

text \<open>An unnoticed change, of the node or of a host device whose event is dropped, leaves the controller settled,
  whatever is wanted now.\<close>

lemma change_goes_unnoticed:
  assumes "dnc_handlers dnc = control_handlers" and "control_run Q env dnc ls s" and "settled waiting s"
    and "w \<noteq> DeviceNetworks" and "world_changed w (co_world s) W"
  shows "\<exists>s'. control_run Q env dnc (ls @ [Unnoticed w]) s' \<and> settled waiting s' \<and>
    co_world s' = W \<and> co_pool s' = co_pool s"
proof -
  have "may_go_unnoticed (dnc_handlers dnc) w"
    using assms(1,4) by (cases w) (simp_all add: may_go_unnoticed_def)
  from control_more [OF assms(2) co_unnoticed [OF assms(5) this]]
  show ?thesis
    using assms(1,3) by (intro exI conjI) (assumption, auto simp: settled_def)
qed

section \<open>Settling\<close>

text \<open>Steps in which nothing changes outside, nothing is resynced, reconciliations see the world as it is, and
  whatever is published is answered by \<open>publish\<close>.\<close>

definition quiet :: "(DriverResources \<Rightarrow> liberr option) \<Rightarrow> control_label \<Rightarrow> bool" where
  "quiet publish l \<longleftrightarrow>
     (case l of Notified w ev \<Rightarrow> True | Elapsed \<Rightarrow> True | Took key \<Rightarrow> True | QueueOp op \<Rightarrow> True
      | Processed key publish' \<Rightarrow> publish' = publish | _ \<Rightarrow> False)"

lemma quiet_simps [simp]:
  "quiet publish (Notified w ev)" "quiet publish Elapsed" "quiet publish (Took key)" "quiet publish (QueueOp op)"
  "quiet publish (Processed key publish') \<longleftrightarrow> publish' = publish"
  by (simp_all add: quiet_def)

inductive control_steps ::
  "'q workqueue \<Rightarrow> reconciler_env \<Rightarrow> (watched \<rightharpoonup> (event_kind \<Rightarrow> queue_op list)) \<Rightarrow>
   (DriverResources \<Rightarrow> liberr option) \<Rightarrow> 'q control_state \<Rightarrow> control_label list \<Rightarrow> 'q control_state \<Rightarrow> bool"
  for Q env handlers publish where
  steps_none: "control_steps Q env handlers publish s [] s"
| steps_more: "control_step Q env handlers s l s1 \<Longrightarrow> control_steps Q env handlers publish s1 ls s2 \<Longrightarrow>
    quiet publish l \<Longrightarrow> control_steps Q env handlers publish s (l # ls) s2"

definition can_reach ::
  "'q workqueue \<Rightarrow> reconciler_env \<Rightarrow> (DriverResources \<Rightarrow> liberr option) \<Rightarrow> 'q control_state \<Rightarrow> 'q control_state \<Rightarrow> bool" where
  "can_reach Q env publish s s' \<longleftrightarrow>
     (\<exists>ls. control_steps Q env control_handlers publish s ls s') \<and> co_world s' = co_world s"

lemma can_reach_refl: "can_reach Q env publish s s"
  by (auto simp: can_reach_def intro: steps_none)

lemma can_reach_step:
  assumes "control_step Q env control_handlers s l s1" and "can_reach Q env publish s1 s2"
    and "quiet publish l" and "co_world s1 = co_world s"
  shows "can_reach Q env publish s s2"
  using assms steps_more by (fastforce simp: can_reach_def)

lemma control_steps_run:
  assumes "control_steps Q env (dnc_handlers dnc) publish s ls' s'" and "control_run Q env dnc ls s"
  shows "control_run Q env dnc (ls @ ls') s'"
  using assms
proof (induction arbitrary: ls)
  case (steps_more s l s1 ls' s2)
  from steps_more.IH [OF control_more [OF steps_more.prems steps_more.hyps(1)]] show ?case
    by simp
qed simp

lemma control_steps_quiet: "control_steps Q env handlers publish s ls s' \<Longrightarrow> list_all (quiet publish) ls"
  by (induction rule: control_steps.induct) auto

lemma quiet_noticed: "quiet publish l \<Longrightarrow> \<not> unnoticed l"
  by (cases l) (simp_all add: unnoticed_def quiet_def)

text \<open>What is kept along such steps.\<close>

lemma can_reach_keeps:
  assumes "workqueue_ok Q waiting busy" and "can_reach Q env publish s s'" and "control_inv waiting busy s"
    and "due waiting s \<or> current env s"
  shows "control_inv waiting busy s'" and "due waiting s' \<or> current env s'"
proof -
  from assms(2) obtain ls where "control_steps Q env control_handlers publish s ls s'"
    by (auto simp: can_reach_def)
  then have "control_inv waiting busy s' \<and> (due waiting s' \<or> current env s')"
    using assms(3,4)
  proof induction
    case (steps_more s l s1 ls s2)
    from control_inv_step [OF assms(1) steps_more.prems(1) steps_more.hyps(1)]
      control_due_step [OF assms(1) steps_more.prems(1) steps_more.hyps(1) quiet_noticed [OF steps_more.hyps(3)]
        steps_more.prems(2)]
    show ?case
      by (rule steps_more.IH)
  qed simp
  then show "control_inv waiting busy s'" and "due waiting s' \<or> current env s'"
    by simp_all
qed

text \<open>From the end backwards: nothing owed and nothing waiting; an item taken; an item waiting; notifications owed;
  operations of the worker left.\<close>

lemma settle_taken:
  assumes Q: "workqueue_ok Q waiting busy" and "wanted env (co_world s) = Some r" and "publish r = None"
    and "co_worker s = Taken ''Event''" "co_owed s = []" "waiting (co_queue s) = {}"
  shows "\<exists>s'. can_reach Q env publish s s' \<and> settled waiting s' \<and> co_pool s' = Some r"
proof -
  let ?s1 = "s\<lparr>co_worker := Reconciled [QForget ''Event'', QDone ''Event''], co_pool := Some r\<rparr>"
  let ?s2 = "?s1\<lparr>co_queue := wq_Forget Q ''Event'' (co_queue s), co_worker := Reconciled [QDone ''Event'']\<rparr>"
  let ?s3 = "?s2\<lparr>co_queue := wq_Done Q ''Event'' (co_queue ?s2), co_worker := Idle\<rparr>"
  have s1: "control_step Q env control_handlers s (Processed ''Event'' publish) ?s1"
    using co_process [OF assms(4) process_works [where key = "''Event''" and publish = publish, OF assms(2,3)]] assms(3)
    by (simp add: accepted_def)
  have s2: "control_step Q env control_handlers ?s1 (QueueOp (QForget ''Event'')) ?s2"
    using control_step.co_queue_op [of ?s1 "QForget ''Event''" "[QDone ''Event'']" Q] by simp
  have s3: "control_step Q env control_handlers ?s2 (QueueOp (QDone ''Event'')) ?s3"
    using control_step.co_queue_op [of ?s2 "QDone ''Event''" "[]" Q] by simp
  have "can_reach Q env publish s ?s3"
    by (rule can_reach_step [OF s1 can_reach_step [OF s2 can_reach_step [OF s3 can_reach_refl]]]) simp_all
  moreover have "settled waiting ?s3"
    using assms workqueue_op [OF Q, of "QForget ''Event''"] workqueue_op [OF Q, of "QDone ''Event''"]
    by (simp add: settled_def)
  ultimately show ?thesis
    by (intro exI [of _ ?s3]) simp
qed

lemma can_reach_trans:
  assumes "can_reach Q env publish s1 s2" and "can_reach Q env publish s2 s3"
  shows "can_reach Q env publish s1 s3"
proof -
  from assms obtain ls ls' where "control_steps Q env control_handlers publish s1 ls s2"
    "control_steps Q env control_handlers publish s2 ls' s3"
    by (auto simp: can_reach_def)
  then have "control_steps Q env control_handlers publish s1 (ls @ ls') s3"
    by induction (auto intro: steps_more)
  with assms show ?thesis
    by (auto simp: can_reach_def)
qed

lemma can_reach_one:
  "control_step Q env control_handlers s l s1 \<Longrightarrow> quiet publish l \<Longrightarrow> co_world s1 = co_world s \<Longrightarrow>
   can_reach Q env publish s s1"
  by (rule can_reach_step [OF _ can_reach_refl])

lemma reach_ops_done:
  "co_worker s = Reconciled ops \<Longrightarrow> ops \<noteq> [] \<Longrightarrow> \<exists>s'. can_reach Q env publish s s' \<and> co_worker s' = Idle"
proof (induction ops arbitrary: s)
  case (Cons op ops)
  let ?s1 = "s\<lparr>co_queue := queue_op_run Q op (co_queue s), co_worker := (if ops = [] then Idle else Reconciled ops)\<rparr>"
  have one: "can_reach Q env publish s ?s1"
    by (rule can_reach_one [OF co_queue_op [OF Cons.prems(1)]]) simp_all
  show ?case
  proof (cases "ops = []")
    case False
    with Cons.IH [of ?s1] can_reach_trans [OF one] show ?thesis
      by auto
  qed (use one in auto)
qed simp

lemma reach_idle:
  assumes "control_inv waiting busy s" and "wanted env (co_world s) = Some r" and "publish r = None"
  shows "\<exists>s'. can_reach Q env publish s s' \<and> co_worker s' = Idle"
proof (cases "co_worker s")
  case (Taken key)
  let ?s1 = "s\<lparr>co_worker := Reconciled [QForget key, QDone key], co_pool := Some r\<rparr>"
  have "control_step Q env control_handlers s (Processed key publish) ?s1"
    using co_process [OF Taken process_works [where key = key and publish = publish, OF assms(2,3)]] assms(3) by (simp add: accepted_def)
  then have one: "can_reach Q env publish s ?s1"
    by (rule can_reach_one) simp_all
  from reach_ops_done [of ?s1 "[QForget key, QDone key]" Q env publish] obtain s' where
    "can_reach Q env publish ?s1 s'" "co_worker s' = Idle"
    by auto
  with can_reach_trans [OF one] show ?thesis
    by blast
next
  case (Reconciled ops)
  with assms(1) have "ops \<noteq> []"
    by (auto simp: control_inv_def)
  with reach_ops_done [OF Reconciled] show ?thesis .
qed (use can_reach_refl in blast)

lemma reach_delivered:
  "control_inv waiting busy s \<Longrightarrow> workqueue_ok Q waiting busy \<Longrightarrow>
   \<exists>s'. can_reach Q env publish s s' \<and> co_worker s' = co_worker s \<and> co_owed s' = []"
proof (induction "co_owed s" arbitrary: s)
  case Nil
  then show ?case
    using can_reach_refl [of Q env publish s] by metis
next
  case (Cons p rest)
  obtain w ev where p: "p = (w, ev)"
    by (cases p)
  with Cons.prems(1) Cons.hyps(2) have "control_handlers w = Some event_handlers"
    by (auto simp: control_inv_def simp flip: Cons.hyps(2))
  let ?s1 = "s\<lparr>co_owed := rest, co_queue := fold (queue_op_run Q) (event_handlers ev) (co_queue s)\<rparr>"
  have "co_owed s = [] @ (w, ev) # rest"
    using Cons.hyps(2) p by simp
  from co_notify [where handlers = control_handlers and Q = Q and env = env, OF this \<open>control_handlers w = Some event_handlers\<close>]
  have step: "control_step Q env control_handlers s (Notified w ev) ?s1"
    by simp
  then have one: "can_reach Q env publish s ?s1"
    by (rule can_reach_one) simp_all
  from Cons.hyps(1) [of ?s1] control_inv_step [OF Cons.prems(2,1) step] Cons.prems(2)
  obtain s' where "can_reach Q env publish ?s1 s'" "co_worker s' = co_worker s" "co_owed s' = []"
    by auto
  with can_reach_trans [OF one] show ?case
    by blast
qed

lemma reach_elapsed:
  assumes "workqueue_ok Q waiting busy"
  shows "can_reach Q env publish s (s\<lparr>co_queue := (wq_Elapse Q ^^ n) (co_queue s)\<rparr>)"
proof (induction n)
  case 0
  then show ?case
    by (simp add: can_reach_refl)
next
  case (Suc n)
  let ?s = "s\<lparr>co_queue := (wq_Elapse Q ^^ n) (co_queue s)\<rparr>"
  have "can_reach Q env publish ?s (?s\<lparr>co_queue := wq_Elapse Q (co_queue ?s)\<rparr>)"
    by (rule can_reach_one [OF co_elapse]) simp_all
  with Suc show ?case
    using can_reach_trans by fastforce
qed

lemma elapsed_laws:
  assumes "workqueue_ok Q waiting busy"
  shows "waiting ((wq_Elapse Q ^^ n) q) = waiting q" and "busy ((wq_Elapse Q ^^ n) q) = busy q"
  by (induction n) (simp_all add: workqueue_elapse [OF assms])

lemma settle_idle:
  assumes Q: "workqueue_ok Q waiting busy" and inv: "control_inv waiting busy s"
    and "wanted env (co_world s) = Some r" and "publish r = None"
    and "co_worker s = Idle" "co_owed s = []" "waiting (co_queue s) \<noteq> {}"
  shows "\<exists>s'. can_reach Q env publish s s' \<and> settled waiting s' \<and> co_pool s' = Some r"
proof -
  have q: "waiting (co_queue s) = {''Event''}" "busy (co_queue s) = {}"
    using inv assms(5,7) by (auto simp: control_inv_def)
  with Q obtain n where "wq_Get Q ((wq_Elapse Q ^^ n) (co_queue s)) \<noteq> None"
    unfolding workqueue_ok_def by (metis Diff_empty insert_not_empty)
  then obtain key q where get: "wq_Get Q ((wq_Elapse Q ^^ n) (co_queue s)) = Some (key, q)"
    by auto
  from workqueue_get [OF Q get] elapsed_laws [OF Q] \<open>waiting (co_queue s) = {''Event''}\<close>
  have key: "key = ''Event''" "waiting q = {}"
    by auto
  let ?s1 = "s\<lparr>co_queue := (wq_Elapse Q ^^ n) (co_queue s)\<rparr>"
  let ?s2 = "?s1\<lparr>co_queue := q, co_worker := Taken ''Event'', co_mixed := False\<rparr>"
  have "control_step Q env control_handlers ?s1 (Took ''Event'') ?s2"
    using co_take [of ?s1 Q "''Event''" q] assms(5) get key(1) by simp
  then have "can_reach Q env publish ?s1 ?s2"
    by (rule can_reach_one) simp_all
  with can_reach_trans [OF reach_elapsed [OF Q]] have two: "can_reach Q env publish s ?s2"
    by blast
  from settle_taken [OF Q, of env ?s2 r publish] assms(3,4,6) key(2)
  obtain s' where "can_reach Q env publish ?s2 s'" "settled waiting s'" "co_pool s' = Some r"
    by auto
  with can_reach_trans [OF two] show ?thesis
    by blast
qed

lemma controller_settles:
  assumes Q: "workqueue_ok Q waiting busy"
    and "NewDeviceNetworkController senv node kind' dni nodes pub cfg f = (Ok dnc, f')"
    and "control_run Q env dnc (before @ l # after) s" and "trigger l" and "\<not> list_ex unnoticed after"
    and "wanted env (co_world s) = Some r" and "publish r = None"
  shows "\<exists>ls s'. control_run Q env dnc (before @ l # after @ ls) s' \<and> list_all (quiet publish) ls \<and>
    settled waiting s' \<and> co_pool s' = Some r \<and> co_world s' = co_world s"
proof -
  note h = NewDeviceNetworkController_handlers(1) [OF assms(2)]
  note inv = control_run_inv [OF assms(1) h assms(3)]
  note due = control_run_due [OF assms(1) h assms(3-5)]
  from reach_idle [where Q = Q and publish = publish, OF inv assms(6,7)] obtain s1 where
    s1: "can_reach Q env publish s s1" "co_worker s1 = Idle"
    by blast
  from reach_delivered [where env = env and publish = publish, OF can_reach_keeps(1) [OF Q s1(1) inv due] Q] s1(2)
  obtain s2 where s2: "can_reach Q env publish s1 s2" "co_worker s2 = Idle" "co_owed s2 = []"
    by metis
  note s02 = can_reach_trans [OF s1(1) s2(1)]
  note keeps = can_reach_keeps [OF Q s02 inv due]
  have world: "co_world s2 = co_world s"
    using s02 by (simp add: can_reach_def)
  have "\<exists>s'. can_reach Q env publish s2 s' \<and> settled waiting s' \<and> co_pool s' = Some r"
  proof (cases "waiting (co_queue s2) = {}")
    case True
    with s2(2,3) have "settled waiting s2" "\<not> due waiting s2"
      by (simp_all add: settled_def due_def)
    with keeps(2) assms(6) world can_reach_refl show ?thesis
      by (fastforce simp: current_def)
  next
    case False
    with settle_idle [OF Q keeps(1), of env r publish] s2(2,3) assms(6,7) world show ?thesis
      by simp
  qed
  then obtain s3 where s3: "can_reach Q env publish s2 s3" "settled waiting s3" "co_pool s3 = Some r"
    by blast
  from can_reach_trans [OF s02 s3(1)] obtain ls where
    "control_steps Q env control_handlers publish s ls s3" "co_world s3 = co_world s"
    by (auto simp: can_reach_def)
  with control_steps_run [OF _ assms(3)] control_steps_quiet s3 show ?thesis
    unfolding h by fastforce
qed

text \<open>
  C12: the controller can always bring itself up to date, by itself. From every state that is reached after a
  change a handler hears of, or a resync, with no unnoticed change since, also in the middle of a
  failed reconciliation, when the listers answer, there is a continuation without a further change or
  resync (only the informers deliver, time passes, the worker works, and the kubelet plugin accepts
  these resources) in which everything is settled and the kubelet plugin has accepted the resources that
  are wanted.
\<close>

theorem controller_can_settle:
  assumes "workqueue_ok Q waiting busy"
    and "NewDeviceNetworkController senv node kind' dni nodes pub cfg f = (Ok dnc, f')"
    and "control_run Q env dnc (before @ l # after) s" and "trigger l" and "\<not> list_ex unnoticed after"
    and "wanted env (co_world s) = Some r" and "publish r = None"
  shows "\<exists>ls s'. control_run Q env dnc (before @ l # after @ ls) s' \<and> list_all (quiet publish) ls \<and>
    settled waiting s' \<and> co_pool s' = Some r \<and> co_world s' = co_world s"
  using assms by (rule controller_settles)

section \<open>A small node\<close>

definition demo_queue :: "(string list \<times> string list) workqueue" where
  "demo_queue =
     \<lparr>wq_empty = ([], []), wq_Add = (\<lambda>key (w, b). (List.insert key w, b)),
      wq_AddRateLimited = (\<lambda>key (w, b). (List.insert key w, b)), wq_Forget = (\<lambda>key q. q),
      wq_Done = (\<lambda>key (w, b). (w, removeAll key b)),
      wq_Get = (\<lambda>(w, b). case filter (\<lambda>key. key \<notin> set b) w of
        [] \<Rightarrow> None | key # _ \<Rightarrow> Some (key, (removeAll key w, key # b))),
      wq_Elapse = (\<lambda>q. q)\<rparr>"

lemma demo_queue_simps:
  "wq_empty demo_queue = ([], [])" "wq_Add demo_queue key q = (List.insert key (fst q), snd q)"
  "wq_AddRateLimited demo_queue key q = (List.insert key (fst q), snd q)" "wq_Forget demo_queue key q = q"
  "wq_Done demo_queue key q = (fst q, removeAll key (snd q))" "wq_Elapse demo_queue q = q"
  by (simp_all add: demo_queue_def split_beta)

lemma demo_queue_Get:
  "wq_Get demo_queue q = Some (key, q') \<Longrightarrow> key \<in> set (fst q) \<and> key \<notin> set (snd q) \<and>
     set (fst q') = set (fst q) - {key} \<and> set (snd q') = insert key (set (snd q))"
  "set (fst q) - set (snd q) \<noteq> {} \<Longrightarrow> wq_Get demo_queue q \<noteq> None"
  by (cases q; auto simp: demo_queue_def filter_eq_Cons_iff filter_empty_conv split: list.splits)+

lemma demo_queue_ok: "workqueue_ok demo_queue (\<lambda>q. set (fst q)) (\<lambda>q. set (snd q))"
  unfolding workqueue_ok_def
proof (intro conjI allI impI)
  show "\<exists>n. wq_Get demo_queue ((wq_Elapse demo_queue ^^ n) q) \<noteq> None" if "set (fst q) - set (snd q) \<noteq> {}" for q
    using demo_queue_Get(2) [OF that] by (intro exI [of _ 0]) simp
qed (use demo_queue_Get(1) in \<open>auto simp: demo_queue_simps\<close>)

definition demo_nodes :: kube_factory where
  "demo_nodes = \<lparr>kf_client = 9, kf_resync = defaultInformerResyncPeriod, kf_FieldSelector = [(''metadata.name'', ''node-a'')]\<rparr>"

definition demo_dnc :: DeviceNetworkController where
  "demo_dnc =
     \<lparr>dnc_reconciler =
        \<lparr>nodeName = ''node-a'', podNetworkKind = ''kind'',
         dnr_ListDevices = DeviceCache_List (se_store demo_start_env) (se_cel demo_start_env) (se_unsorted demo_start_env)
           (se_content demo_start_env),
         dnr_GetNode = se_GetNode demo_start_env demo_nodes, dnr_ListDeviceNetworks = se_ListDeviceNetworks demo_start_env 0,
         publishResourcesFunc = None, dnr_deviceConfigurators = deviceConfigurators demo_json pod_kernel\<rparr>,
      dnc_handlers = [DeviceNetworks \<mapsto> event_handlers, Devices \<mapsto> event_handlers]\<rparr>"

lemma demo_dnc_made:
  "NewDeviceNetworkController demo_start_env ''node-a'' ''kind'' dni demo_nodes None (deviceConfigurators demo_json pod_kernel)
     (shared_factory lib demo_clients resync) = (Ok demo_dnc, shared_factory lib demo_clients resync)"
  using NewDeviceNetworkController_shared [of "shared_factory lib demo_clients resync" 0 demo_start_env]
  by (simp add: demo_dnc_def demo_start_env_def)

lemma demo_dnc_wants: "\<exists>r. wanted demo_env (dnc_reconciler demo_dnc) = Some r \<and> Pools r ''node-a'' \<noteq> None"
proof -
  obtain res where res: "getResources demo_env (dnc_reconciler demo_dnc) [demo_dn] demo_node
      (deviceConfigurators demo_json pod_kernel) = Ok res"
    using run_configurators.getResources_answers by blast
  then have "Pools res ''node-a'' \<noteq> None"
    by (auto simp: getResources_def demo_node_def split: res.splits)
  with res show ?thesis
    by (auto simp: wanted_def demo_dnc_def demo_start_env_def)
qed

lemma demo_change: "control_run demo_queue demo_env demo_dnc [Changed DeviceNetworks AddEvent]
    ((control_start demo_queue (dnc_reconciler demo_dnc))\<lparr>co_mixed := True, co_owed := [(DeviceNetworks, AddEvent)]\<rparr>)"
proof -
  let ?s = "control_start demo_queue (dnc_reconciler demo_dnc)"
  have "world_changed DeviceNetworks (co_world ?s) (dnc_reconciler demo_dnc)"
    by (auto simp: world_changed_def control_start_def intro!: exI [of _ "dnr_ListDeviceNetworks (dnc_reconciler demo_dnc)"])
  from control_more [OF control_new co_change [OF this]] show ?thesis
    by (simp add: control_start_def demo_dnc_def)
qed

lemma controller_can_settle_witness:
  "\<exists>ls s r. control_run demo_queue demo_env demo_dnc (Changed DeviceNetworks AddEvent # ls) s \<and>
     list_all (quiet (\<lambda>r. None)) ls \<and> settled (\<lambda>q. set (fst q)) s \<and> co_pool s = Some r \<and> Pools r ''node-a'' \<noteq> None"
proof -
  obtain r where r: "wanted demo_env (dnc_reconciler demo_dnc) = Some r" "Pools r ''node-a'' \<noteq> None"
    using demo_dnc_wants by blast
  from controller_can_settle [where publish = "\<lambda>r. None", OF demo_queue_ok demo_dnc_made, of demo_env "[]"
      "Changed DeviceNetworks AddEvent" "[]"] demo_change r
  show ?thesis
    by (fastforce simp: control_start_def trigger_def)
qed

lemma settled_controller_is_current_witness:
  "\<exists>ls s r. control_run demo_queue demo_env demo_dnc ([] @ Changed DeviceNetworks AddEvent # ls) s \<and>
     settled (\<lambda>q. set (fst q)) s \<and> co_pool s = Some r \<and> wanted demo_env (co_world s) = Some r"
proof -
  obtain r where r: "wanted demo_env (dnc_reconciler demo_dnc) = Some r" "Pools r ''node-a'' \<noteq> None"
    using demo_dnc_wants by blast
  from controller_settles [where publish = "\<lambda>r. None", OF demo_queue_ok demo_dnc_made, of demo_env "[]"
      "Changed DeviceNetworks AddEvent" "[]"] demo_change r
  obtain ls s where run: "control_run demo_queue demo_env demo_dnc ([] @ Changed DeviceNetworks AddEvent # ls) s"
    and quiet: "list_all (quiet (\<lambda>r. None)) ls" and s: "settled (\<lambda>q. set (fst q)) s"
    by (fastforce simp: control_start_def trigger_def)
  have "trigger (Changed DeviceNetworks AddEvent)"
    by (simp add: trigger_def)
  moreover from quiet have "\<not> list_ex unnoticed ls"
    by (auto simp: list_all_iff list_ex_iff dest: quiet_noticed)
  ultimately show ?thesis
    using settled_controller_is_current [OF demo_queue_ok demo_dnc_made run _ _ s] run s by blast
qed

end
