(* ===== verification/Spec2Isabelle.thy ===== *)
theory Spec2Isabelle
  imports ApiValidation Addresses DeepCopy JsonFuel Registration Node Program ControlLoop
begin

text \<open>
  DeviceNetwork is a Kubernetes network driver. On every node one process
  (\<open>src/cmd\<close>) discovers the host's interfaces, advertises those that the cluster's
  DeviceNetwork objects select as devices for dynamic resource allocation, resolves and allocates the
  devices of a pod's claims when the kubelet prepares them, and configures the interfaces in the pod's
  network namespace when the container runtime starts the pod.

  \<^bold>\<open>Parts and theories.\<close> In the order of the data's way through the program:

  \<^item> \<open>Api\<close>: the DeviceNetwork object, its constants and defaults (\<open>apis/v1alpha1/types.go\<close>,
    \<open>helpers.go\<close>, \<open>attributes.go\<close>). \<open>FieldValidation\<close> and \<open>ApiValidation\<close>: the validation
    (\<open>pkg/validation\<close>, \<open>apis/v1alpha1/validation\<close>), a list of errors, against the declarative
    \<open>device_network_ok\<close>, and this against what the API documents, \<open>documented_network\<close>.
  \<^item> \<open>KubeTypes\<close>, \<open>Kernel\<close>: claims, slices and statuses as data, host devices and status data
    (\<open>pkg/host/types.go\<close>, \<open>pkg/status\<close>), the kernel calls and RDMA discovery (\<open>pkg/host/rdma.go\<close>).
  \<^item> \<open>Json\<close>, \<open>JsonText\<close>, \<open>JsonFuel\<close>, \<open>StatusJson\<close>: the JSON of the status data, from the
    struct tags to the text and back: the locale \<open>struct_codec\<close> as the contract of a struct's encoder and
    fields, \<open>encoding/json\<close>'s printing and parsing, and what survives.
  \<^item> \<open>HostFilter\<close>, \<open>Worker\<close>, \<open>HostCache\<close>, \<open>Informer\<close>: the cache of host devices (\<open>pkg/host\<close>): CEL
    filters, the worker loop it shares with the controller, \<open>syncDevice\<close> with snapshot, store and
    events, and the synthetic informer that reads the events back from a bounded channel.
  \<^item> \<open>Common\<close>, \<open>Configurator\<close>, \<open>Macvlan\<close>, \<open>HostDev\<close>, \<open>Registry\<close>: the configurators
    (\<open>pkg/configurators\<close>): random addresses and names, the interface as the record \<open>Configurator\<close> and
    the locales \<open>configurator_contract\<close> and \<open>configurator_registry\<close>, the two implementations, and the
    map of \<open>cmd/cmd/run.go\<close> from device types to them. \<open>GoNet\<close>: the address parsing and printing of
    Go's package \<open>net\<close> that \<open>Common\<close> uses; \<open>Addresses\<close>: whether an allocated address can be read
    back.
  \<^item> \<open>DeepCopy\<close>: the generated deep copies (\<open>zz_generated.deepcopy.go\<close>) on a heap of cells, with the
    locale \<open>deep_copy\<close> as their contract.
  \<^item> \<open>Registration\<close>, \<open>Clients\<close>, \<open>InformerFactory\<close>: the registration with a scheme
    (\<open>zz_generated.register.go\<close>) and the generated client sets and informer factory (\<open>pkg/client\<close>), the
    factory as a state with a step relation.
  \<^item> \<open>Reconciler\<close>, \<open>Controller\<close>: what a node advertises and when
    (\<open>pkg/controllers/devicenetwork\<close>). \<open>ControlLoop\<close>: informers, handlers, work queue and worker in any
    interleaving.
  \<^item> \<open>Resolver\<close>, \<open>Store\<close>, \<open>Driver\<close>: from an allocation result to its device
    (\<open>pkg/resolver\<close>), the claims of a pod (\<open>pkg/store\<close>), preparing claims (\<open>pkg/driver\<close>). Driver
    and plugin know the resolver and the store as interfaces: the locales \<open>device_resolver\<close> and
    \<open>pod_resource_store\<close>.
  \<^item> \<open>NriProcess\<close>, \<open>NriPlugin\<close>: the configuration of a pod (\<open>pkg/nri\<close>), handlers and goroutines as
    a step relation. \<open>Node\<close>: driver and plugin over the store they share, in any interleaving.
  \<^item> \<open>Startup\<close>, \<open>Program\<close>, \<open>EndToEnd\<close> and this theory: \<open>run\<close> with the constructors and loops it
    starts, the process that executes it (\<open>cmd/cmd/cmd.go\<close>, \<open>cmd/main.go\<close>), and what holds of
    several parts together.

  A Go struct is a record, an enumeration a datatype or its string constants, a nil pointer
  \<open>None\<close>. A function returning \<open>(T, error)\<close> returns \<open>('a, 'e) res\<close>
  with one constructor of \<open>'e\<close> per error return; a nil dereference is \<open>Panic\<close>.
  Integers of the code are unbounded here except bytes, which are 8-bit words; the only arithmetic on them
  is on prefix lengths and on the bytes of addresses. Deferred calls are made on every path, also of a
  panic.

  \<^bold>\<open>What the theorems show.\<close> End to end: the interface a claim was allocated is the
  one the pod gets; the published devices are resolved back to what they stand for; a prepared claim can
  be configured; once the control loop has nothing left to do, what is published is what the cluster and
  the host now ask for, and it can always get there; a valid DeviceNetwork can be served; a host device
  published for exclusive use is exclusive. Per component: the status data is read back from any text of
  the same value; deep copies share no memory with their originals; an informer factory runs one informer
  per type, once, and the program's resolver and controller share it; the validation accepts what the API
  documents, and what it accepts beyond that is known rule by rule; a synchronisation refines the
  observation of the kernel, and a cache that caught up with its events is current; the store refines a
  log; the configurators close every namespace handle, and move the RDMA devices first; random addresses
  are usable host addresses and are read back; until a container of a pod was admitted, the first one is
  admitted only before the pod's process has begun or after it has ended; every claim is answered by its
  own preparation; what a pod's process configures is what the driver had stored for the pod before it was
  started. Error behaviour is stated where the code's comments or its callers expect something else:
  theorems on writes that are not retried, on dropped and late events, on containers admitted early and
  the process the plugin then forgets, on claims configured after the pod is gone, on claims prepared
  twice, and on the program, which is up for ever, or waits for ever for its caches, and never stops its
  kubelet plugin.

  \<^bold>\<open>Loops and fuel.\<close> All recursion is over the data except
  \<open>generateRandomIP\<close>'s retry, which may run for ever: \<open>random_ip_loop\<close> is a
  \<open>partial_function (option)\<close>, and \<open>generateRandomIP_can_return\<close> states that
  every prefix of the generator can be continued so that it returns. The parser of JSON has fuel, one more
  than the bytes of the text: \<open>parse_json_iff\<close> states that no fuel reads more. No other
  function has fuel. Blocking operations (\<open>RemovePodSandbox\<close>) are steps that are enabled or
  not.

  \<^bold>\<open>What is a parameter.\<close> The kernel is any function from the calls made so far to an
  answer. JSON is a pair of functions for the single components; end to end it is
  \<open>status_json\<close>, what \<open>encoding/json\<close> makes of the structs of this repository,
  given the codecs of the structs that other repositories declare (\<open>foreign_json_ok\<close>). The
  API server answers an apply request as server-side apply is documented (\<open>status_applied\<close>):
  the statuses that were applied are in the claim, each once under its driver, pool, device and share,
  with data of the same JSON value in whatever text; the rest of the claim, and the statuses of other
  drivers, are as they may be; CEL compiles and evaluates as it likes; the work queue hands out what was
  added, once at a time and in the end (\<open>workqueue_ok\<close>); the REST library makes its clients
  as it likes; listers, indexes and the API server answer as functions; informer stores have the laws of a
  map (\<open>informer_store_ok\<close>, \<open>reflects\<close>); iteration orders of Go maps are any
  permutation; random bytes are any sequence; the syntax of labels and names is Kubernetes'. Each law is
  instantiated in the witnesses, which run the model on a small host.

  \<^bold>\<open>What is assumed of time.\<close> A reconciliation may see several states of what it reads
  (\<open>ProcessedMixed\<close>), and a change may reach no handler (\<open>Unnoticed\<close>: of the node, or of a host device
  whose event is dropped); one resolution sees one state of the cache; a method that holds a mutex from its first
  to its last statement is one step; the configuration of one claim is one step of its goroutine; the
  goroutines of \<open>run\<close> read and write their shared variable in single steps; the wait for a factory's caches
  ends when they sync and, on the context of the command line, never otherwise; the informer of the cache watches
  before the workers start; the broadcaster's queue is counted with the channel it feeds.

  \<^bold>\<open>Not modelled.\<close> What an informer does once it runs, and the REST client, which are
  client-go's; what schemes, object trackers and generic clients do with what is handed to them; what
  cobra makes of the command line (\<open>cobra_ok\<close> states what it hands to \<open>run\<close>);
  logging; timing (poll intervals, rate limits, timeouts are the lists of answers they give);
  \<open>PublishResources\<close> and \<open>HandleError\<close> of the driver, which hand their arguments
  on.
\<close>

section \<open>From a valid DeviceNetwork to the configurators\<close>

text \<open>
  C38: a DeviceNetwork that passes the validation is one the rest of the program can serve: every
  configuration has a registered configurator, the names of selectors and of configurations identify
  them, and every selector a configuration refers to is declared.
\<close>

theorem valid_network_is_served:
  assumes "validation_lib_ok vlib" and "ValidateDeviceNetwork vlib dn = []"
  shows "(\<forall>dc \<in> set (DeviceConfigurations (Spec dn)).
      deviceConfigurators json k (GetDeviceType dc) \<noteq> None \<and>
      set (dc_DeviceSelectors dc) \<subseteq> ds_Name ` set (DeviceSelectors (Spec dn))) \<and>
    distinct (map ds_Name (DeviceSelectors (Spec dn))) \<and>
    distinct (map dc_Name (DeviceConfigurations (Spec dn)))"
proof -
  from assms(2) have "device_network_ok vlib dn"
    unfolding ValidateDeviceNetwork_def validateDeviceNetworkSpec_Nil_iff [OF assms(1)] .
  then have ok: "\<forall>dc \<in> set (DeviceConfigurations (Spec dn)). device_configuration_ok dc"
    and refs: "(\<Union>c \<in> set (DeviceConfigurations (Spec dn)). set (dc_DeviceSelectors c)) =
      ds_Name ` set (DeviceSelectors (Spec dn))"
    and names: "distinct (map ds_Name (DeviceSelectors (Spec dn)))"
      "distinct (map dc_Name (DeviceConfigurations (Spec dn)))"
    by (simp_all add: device_network_ok_def Let_def)
  have "deviceConfigurators json k (GetDeviceType dc) \<noteq> None"
    if "dc \<in> set (DeviceConfigurations (Spec dn))" for dc
    using ok that by (auto simp: device_configuration_ok_def)
  with refs names show ?thesis
    by blast
qed

lemma valid_network_is_served_witness:
  "deviceConfigurators demo_json pod_kernel (GetDeviceType demo_configuration) \<noteq> None"
proof -
  have valid: "ValidateDeviceNetwork demo_validation_lib demo_network = []"
    unfolding ValidateDeviceNetwork_def validateDeviceNetworkSpec_Nil_iff [OF demo_validation_lib_ok]
    by (rule demo_network_ok)
  have "demo_configuration \<in> set (DeviceConfigurations (Spec demo_network))"
    by (simp add: demo_network_def)
  with valid_network_is_served [OF demo_validation_lib_ok valid, of demo_json pod_kernel]
  show ?thesis
    by blast
qed

section \<open>From the published device back to what it stands for\<close>

text \<open>What the API server and the informers hold of the published resources: every device the
  resolver's index has under the driver and the node's pool is one that was published.\<close>

definition holds_published ::
  "slice_obj set \<Rightarrow> string \<Rightarrow> KubeNode \<Rightarrow> DriverResources \<Rightarrow> bool" where
  "holds_published stored driver node resources \<longleftrightarrow>
     (\<forall>rs d. SliceObj rs \<in> stored \<and> rs_Driver rs = driver \<and> rs_PoolName rs = node_Name node \<and>
        d \<in> set (rs_Devices rs) \<longrightarrow>
        (\<exists>slices s. Pools resources (node_Name node) = Some slices \<and> s \<in> set slices \<and> d \<in> set (slice_Devices s)))"

text \<open>The resolver reads the same cluster and the same host as the reconciler.\<close>

definition same_world ::
  "DeviceNetworkReconciler \<Rightarrow> DeviceNetwork list \<Rightarrow> Resolver \<Rightarrow> bool" where
  "same_world dnr dns r \<longleftrightarrow>
     r_podNetworkKind r = podNetworkKind dnr \<and>
     (\<forall>dn \<in> set dns. r_GetDeviceNetwork r (dn_Name dn) = Inr dn) \<and>
     (\<forall>opts. \<forall>h \<in> set (dnr_ListDevices dnr opts). r_GetHostDevice r (hd_Name h) = Ok h)"

lemma advertised_resolves:
  assumes adv: "advertised env dnr node configurators dns dn dc h dev"
    and names: "distinct (attribute_names (env_mn env))"
    and world: "same_world dnr dns r"
    and configs: "distinct (map dc_Name (DeviceConfigurations (Spec dn)))"
    and index: "r_ByIndex r (ids driver pool (dev_Name dev)) = Inr (SliceObj rs # rest)"
      "find (\<lambda>d. dev_Name d = dev_Name dev) (rs_Devices rs) = Some dev"
    and result: "rar_Driver result = driver" "rar_Pool result = pool" "rar_Device result = dev_Name dev"
  shows "GetDevice (env_mn env) ids r result =
    Ok \<lparr>rd_DeviceRequestAllocationResult = Some result, rd_DeviceNetwork = Some dn,
        rd_DeviceConfiguration = Some dc, rd_ExposedDevice = Some dev, rd_HostDevice = Some h\<rparr>"
proof -
  from adv obtain d where dev: "dev = with_attributes (env_mn env) dnr dn dc h d"
    and in_sets: "dn \<in> set dns" "dc \<in> set (DeviceConfigurations (Spec dn))"
    and host: "h \<in> hosts_of env dnr node dn dc"
    by (auto simp: advertised_def exposes_def)
  from host obtain opts where "h \<in> set (dnr_ListDevices dnr opts)"
    by (auto simp: hosts_of_def selected_def)
  with world in_sets(1) have get: "r_GetHostDevice r (hd_Name h) = Ok h"
      "r_GetDeviceNetwork r (dn_Name dn) = Inr dn" "r_podNetworkKind r = podNetworkKind dnr"
    by (auto simp: same_world_def)
  note strings = with_attributes_strings [OF names, of dnr dn dc h d, folded dev]
  show ?thesis
    by (simp add: GetDevice_def getDeviceNetworkForDevice_def Let_def result index strings get
        find_unique [OF in_sets(2) configs])
qed

text \<open>
  C2: publishing and resolving are inverse to each other. Whatever device of the node's pool the
  scheduler allocates, the resolver finds the exposed device, the DeviceNetwork, the configuration and
  the host device that the reconciler had put together, with the configuration's own configurator
  supporting the host device.
\<close>

theorem published_device_resolves:
  assumes "reconciler_ok env dnr" and "distinct (attribute_names (env_mn env))"
    and "\<forall>dn \<in> set dns. distinct (map ds_Name (DeviceSelectors (Spec dn))) \<and>
      distinct (map dc_Name (DeviceConfigurations (Spec dn)))"
    and "getResources env dnr dns node (deviceConfigurators json k) = Ok resources"
    and "holds_published stored driver node resources" and "same_world dnr dns r"
    and "by_index_ok ids stored (r_ByIndex r)" and "device_ids_ok ids stored"
    and "SliceObj rs \<in> stored" and "rs_Driver rs = driver" and "rs_PoolName rs = node_Name node"
    and "dev \<in> set (rs_Devices rs)"
    and "rar_Driver result = driver" and "rar_Pool result = node_Name node" and "rar_Device result = dev_Name dev"
  shows "\<exists>dn dc h c. dn \<in> set dns \<and> dc \<in> set (DeviceConfigurations (Spec dn)) \<and>
    h \<in> hosts_of env dnr node dn dc \<and> deviceConfigurators json k (GetDeviceType dc) = Some c \<and>
    IsSupported c (Some h) (Some dc) = Ok True \<and>
    GetDevice (env_mn env) ids r result =
      Ok \<lparr>rd_DeviceRequestAllocationResult = Some result, rd_DeviceNetwork = Some dn,
          rd_DeviceConfiguration = Some dc, rd_ExposedDevice = Some dev, rd_HostDevice = Some h\<rparr>"
proof -
  let ?cfg = "deviceConfigurators json k"
  have sels: "\<forall>dn \<in> set dns. distinct (map ds_Name (DeviceSelectors (Spec dn)))"
    using assms(3) by blast
  from assms(5,9-12) obtain slices s where
    "Pools resources (node_Name node) = Some slices" "s \<in> set slices" "dev \<in> set (slice_Devices s)"
    unfolding holds_published_def by blast
  with run_configurators.getResources_spec [OF assms(1) sels, of node json k] assms(4)
  obtain dn dc h where adv: "advertised env dnr node ?cfg dns dn dc h dev"
    by auto
  from indexed_slice [OF assms(7,8,9,12)] assms(10,11) obtain rest where
    index: "r_ByIndex r (ids driver (node_Name node) (dev_Name dev)) = Inr (SliceObj rs # rest)"
      "find (\<lambda>d. dev_Name d = dev_Name dev) (rs_Devices rs) = Some dev"
    by metis
  from adv assms(3) have "distinct (map dc_Name (DeviceConfigurations (Spec dn)))"
    by (auto simp: advertised_def)
  from advertised_resolves [where ids = ids and driver = driver and pool = "node_Name node",
      OF adv assms(2,6) this index assms(13-15)] adv show ?thesis
    by (auto simp: advertised_def exposes_def)
qed

text \<open>The demonstration: the resources of the demonstration reconciler in one resource slice.\<close>

definition published_slice :: "KubeDevice list \<Rightarrow> ResourceSlice" where
  "published_slice devs =
     \<lparr>rs_Name = ''slice-1'', rs_Driver = ''devicenetwork.io'', rs_PoolName = ''node-a'', rs_Devices = devs\<rparr>"

definition demo_resolver :: "KubeDevice \<Rightarrow> Resolver" where
  "demo_resolver dev =
     \<lparr>r_podNetworkKind = ''devicenetwork-io-devicenetwork'',
      r_ByIndex = (\<lambda>key. Inr (if key = dev_Name dev then [SliceObj (published_slice [dev])] else [])),
      r_GetDeviceNetwork = (\<lambda>name. if name = ''blue'' then Inr demo_blue else Inl ''not found''),
      r_GetHostDevice = DeviceCache_Get list_store (store demo_cache)\<rparr>"

lemma demo_same_world: "same_world demo_reconciler [demo_blue] (demo_resolver dev)"
proof -
  have only: "h = demo_host" if "h \<in> set (dnr_ListDevices demo_reconciler opts)" for h opts
    using that DeviceCache_List_subset [OF list_store_ok order_ok_id(2) cache_inv_matches [OF demo_cache_inv],
        of demo_cel opts]
    by (auto simp: demo_reconciler_def demo_cache_def split: if_splits)
  have get: "r_GetHostDevice (demo_resolver dev) (hd_Name demo_host) = Ok demo_host"
    by (simp add: demo_resolver_def DeviceCache_Get_def list_store_def demo_cache_def demo_host_def)
  have "\<forall>opts. \<forall>h \<in> set (dnr_ListDevices demo_reconciler opts). r_GetHostDevice (demo_resolver dev) (hd_Name h) = Ok h"
  proof (intro allI ballI)
    fix opts h
    assume "h \<in> set (dnr_ListDevices demo_reconciler opts)"
    from only [OF this] get show "r_GetHostDevice (demo_resolver dev) (hd_Name h) = Ok h"
      by simp
  qed
  then show ?thesis
    unfolding same_world_def by (simp add: demo_resolver_def demo_reconciler_def demo_blue_def)
qed

abbreviation demo_configurators :: "DeviceType \<rightharpoonup> Configurator" where
  "demo_configurators \<equiv> deviceConfigurators demo_json pod_kernel"

lemma demo_names_distinct:
  "\<forall>dn \<in> set [demo_blue]. distinct (map ds_Name (DeviceSelectors (Spec dn))) \<and>
     distinct (map dc_Name (DeviceConfigurations (Spec dn)))"
  by (simp add: demo_blue_def demo_hostdev_config_def demo_macvlan_config_def)

lemma demo_resources:
  obtains dev resources slices s where
    "getResources demo_env demo_reconciler [demo_blue] demo_node demo_configurators = Ok resources"
    "Pools resources (node_Name demo_node) = Some slices" "s \<in> set slices" "dev \<in> set (slice_Devices s)"
proof -
  from demo_names_distinct have sels: "\<forall>dn \<in> set [demo_blue]. distinct (map ds_Name (DeviceSelectors (Spec dn)))"
    by blast
  from run_configurators.getResources_spec [OF demo_reconciler_ok sels, of demo_node demo_json pod_kernel]
  obtain devs names where
    res: "getResources demo_env demo_reconciler [demo_blue] demo_node demo_configurators =
      Ok \<lparr>Pools = [node_Name demo_node \<mapsto>
           [\<lparr>slice_Devices = devs, slice_SharedCounters = []\<rparr>,
            \<lparr>slice_Devices = [], slice_SharedCounters = map counter_set names\<rparr>]]\<rparr>"
    and devs: "set devs = {dev. \<exists>dn dc h. advertised demo_env demo_reconciler demo_node demo_configurators
      [demo_blue] dn dc h dev}"
    by (elim exE conjE) (rule that; assumption)
  from demo_advertised devs obtain dev where "dev \<in> set devs"
    by blast
  then show thesis
    by (intro that [OF res, of "[\<lparr>slice_Devices = devs, slice_SharedCounters = []\<rparr>,
          \<lparr>slice_Devices = [], slice_SharedCounters = map counter_set names\<rparr>]"
        "\<lparr>slice_Devices = devs, slice_SharedCounters = []\<rparr>" dev]) simp_all
qed

lemma demo_slice_holds:
  assumes "Pools resources (node_Name demo_node) = Some slices" and "s \<in> set slices" and "dev \<in> set (slice_Devices s)"
  shows "holds_published {SliceObj (published_slice [dev])} ''devicenetwork.io'' demo_node resources"
  unfolding holds_published_def
proof (intro allI impI)
  fix rs d
  assume rs: "SliceObj rs \<in> {SliceObj (published_slice [dev])} \<and> rs_Driver rs = ''devicenetwork.io'' \<and>
    rs_PoolName rs = node_Name demo_node \<and> d \<in> set (rs_Devices rs)"
  then have "rs = published_slice [dev]"
    by blast
  with rs have "d = dev"
    by (simp add: published_slice_def)
  with assms show "\<exists>slices s. Pools resources (node_Name demo_node) = Some slices \<and> s \<in> set slices \<and>
      d \<in> set (slice_Devices s)"
    by blast
qed

lemma published_device_resolves_witness:
  "\<exists>dev result rd. rar_Device result = dev_Name dev \<and>
     GetDevice demo_multinetwork_api (\<lambda>driver pool name. name) (demo_resolver dev) result = Ok rd \<and>
     rd_HostDevice rd = Some demo_host \<and> rd_ExposedDevice rd = Some dev"
proof -
  let ?ids = "\<lambda>driver pool name :: string. name"
  obtain dev resources slices s where res:
    "getResources demo_env demo_reconciler [demo_blue] demo_node demo_configurators = Ok resources"
    "Pools resources (node_Name demo_node) = Some slices" "s \<in> set slices" "dev \<in> set (slice_Devices s)"
    by (rule demo_resources)
  let ?rs = "published_slice [dev]"
  define result where "result = demo_result\<lparr>rar_Device := dev_Name dev\<rparr>"
  have index: "by_index_ok ?ids {SliceObj ?rs} (r_ByIndex (demo_resolver dev))"
    by (auto simp: by_index_ok_def demo_resolver_def deviceID_index_def published_slice_def)
  have unique: "device_ids_ok ?ids {SliceObj ?rs}"
    by (auto simp: device_ids_ok_def published_slice_def)
  have names: "distinct (attribute_names (env_mn demo_env))"
    by (simp add: demo_env_def demo_attribute_names_distinct)
  have rs: "SliceObj ?rs \<in> {SliceObj ?rs}" "rs_Driver ?rs = ''devicenetwork.io''"
    "rs_PoolName ?rs = node_Name demo_node" "dev \<in> set (rs_Devices ?rs)"
    by (simp_all add: published_slice_def demo_node_def)
  have result: "rar_Driver result = ''devicenetwork.io''" "rar_Pool result = node_Name demo_node"
    "rar_Device result = dev_Name dev"
    by (simp_all add: result_def demo_result_def demo_node_def)
  from published_device_resolves [where ids = ?ids and result = result, OF demo_reconciler_ok names
      demo_names_distinct res(1) demo_slice_holds [OF res(2-4)] demo_same_world index unique rs result]
  obtain dn dc h where
    net: "dn \<in> set [demo_blue]" "dc \<in> set (DeviceConfigurations (Spec dn))"
    and host: "h \<in> hosts_of demo_env demo_reconciler demo_node dn dc"
    and get: "GetDevice (env_mn demo_env) ?ids (demo_resolver dev) result =
      Ok \<lparr>rd_DeviceRequestAllocationResult = Some result, rd_DeviceNetwork = Some dn,
          rd_DeviceConfiguration = Some dc, rd_ExposedDevice = Some dev, rd_HostDevice = Some h\<rparr>"
    by (elim exE conjE) (rule that; assumption)
  from net have "dn = demo_blue" "dc \<in> {demo_hostdev_config, demo_macvlan_config}"
    by (auto simp: demo_blue_def)
  with host demo_hosts have "h = demo_host"
    by auto
  with get show ?thesis
    by (intro exI [of _ dev] exI [of _ result]) (simp add: demo_env_def result_def)
qed

text \<open>
  An advertised device carries the five attributes by which it can be resolved and no other: its
  device type, the network and its kind, the configuration and the host device; and it is named after
  the three objects it comes from.
\<close>

theorem advertised_device_attributes:
  assumes "distinct (attribute_names (env_mn env))"
    and "advertised env dnr node (deviceConfigurators json k) dns dn dc h dev"
  shows "dev_Name dev = dn_Name dn @ ''-'' @ dc_Name dc @ ''-'' @ hd_Name h \<and>
    (\<forall>name. string_attribute dev name =
       map_of (zip (attribute_names (env_mn env))
         [GetDeviceType dc, dn_Name dn, podNetworkKind dnr, dc_Name dc, hd_Name h]) name)"
proof -
  from assms(2) obtain c d where c: "deviceConfigurators json k (GetDeviceType dc) = Some c"
    and d: "ExposedDevice c (Some h) None = Ok (Some d)" and dev: "dev = with_attributes (env_mn env) dnr dn dc h d"
    by (auto simp: advertised_def exposes_def)
  from run_configurators.registered_exposed [OF c d] have "Attributes d = Some Map.empty"
    by auto
  with assms(1) show ?thesis
    by (auto simp: dev with_attributes_def DeviceName_def string_attribute_def attribute_names_def Let_def)
qed

lemma advertised_device_attributes_witness:
  "\<exists>dev. dev_Name dev = ''blue-hostdev-eth0'' \<and>
     string_attribute dev ''devicenetwork.io/hostDeviceName'' = Some ''eth0''"
proof -
  obtain dev where adv: "advertised demo_env demo_reconciler demo_node
      (deviceConfigurators demo_json pod_kernel) [demo_blue] demo_blue demo_hostdev_config demo_host dev"
    using demo_advertised by blast
  have names: "distinct (attribute_names (env_mn demo_env))"
    by (simp add: demo_env_def demo_attribute_names_distinct)
  from advertised_device_attributes [OF names adv] show ?thesis
    by (auto simp: demo_blue_def demo_hostdev_config_def demo_host_def demo_env_def attribute_names_def
        demo_multinetwork_api_def NetworkInterfaceAttributeDeviceType_def NetworkInterfaceAttributePodNetwork_def
        NetworkInterfaceAttributePodNetworkKind_def NetworkInterfaceAttributeDeviceConfiguration_def
        NetworkInterfaceAttributeHostDeviceName_def NetworkInterfaceAttributePrefix_def)
qed

section \<open>Sharing a host device\<close>

text \<open>The number a quantity stands for, for the plain decimal quantities the program uses.\<close>

definition quantity_value :: "Quantity \<Rightarrow> nat" where
  "quantity_value q = (case q of MustParse s \<Rightarrow> foldl (\<lambda>n c. 10 * n + (of_char c - 48)) 0 s)"

text \<open>What a device draws from the counter set of a host device, and what this set holds.\<close>

definition drawn :: "string \<Rightarrow> KubeDevice \<Rightarrow> nat" where
  "drawn host dev =
     sum_list (map (\<lambda>c. if consumed_CounterSet c = host
       then (case consumed_Counters c mutual_exclusion of None \<Rightarrow> 0 | Some q \<Rightarrow> quantity_value (counter_Value q))
       else 0) (ConsumesCounters dev))"

definition available :: "KubeCounterSet \<Rightarrow> nat" where
  "available cs =
     (case cs_Counters cs mutual_exclusion of None \<Rightarrow> 0 | Some q \<Rightarrow> quantity_value (counter_Value q))"

lemma quantity_values:
  "quantity_value (MustParse ''65536'') = 65536" "quantity_value (MustParse ''1'') = 1"
  by (simp_all add: quantity_value_def of_char_def)

lemma available_counter_set: "available (counter_set host) = 65536"
  by (simp add: available_def counter_set_def quantity_values)

lemma drawn_advertised:
  assumes "advertised env dnr node (deviceConfigurators json k) dns dn dc h dev"
  shows "drawn host dev = (if hd_Name h = host then (if GetDeviceType dc = DeviceTypeMacvlan then 1 else 65536) else 0)"
  using run_configurators.advertised_consumes_own_counter [OF assms]
  by (simp add: drawn_def consumption_def counter_share_def quantity_values)

text \<open>
  C7: the counters keep a host device exclusive. When the devices that are allocated at the same time
  draw no more from the counter set of a host device than was published for it, and one of them hands
  over the host device itself, no other allocated device uses this host device.
\<close>

theorem host_device_is_exclusive:
  assumes "\<forall>(dn, dc, h, dev) \<in> set allocated.
      advertised env dnr node (deviceConfigurators json k) dns dn dc h dev"
    and "(\<Sum>(dn, dc, h, dev) \<leftarrow> allocated. drawn host dev) \<le> available (counter_set host)"
    and "(dn, dc, h, dev) \<in> set allocated" and "hd_Name h = host" and "GetDeviceType dc = DeviceTypeHostDevice"
  shows "filter (\<lambda>(dn, dc, h, dev). hd_Name h = host) allocated = [(dn, dc, h, dev)]"
proof -
  let ?uses = "\<lambda>(dn :: DeviceNetwork, dc :: DeviceConfiguration, h :: HostDevice, dev :: KubeDevice). hd_Name h = host"
  let ?draw = "\<lambda>(dn :: DeviceNetwork, dc :: DeviceConfiguration, h :: HostDevice, dev). drawn host dev"
  from split_list [OF assms(3)] obtain pre post where split: "allocated = pre @ (dn, dc, h, dev) # post"
    by blast
  have one: "?draw (dn, dc, h, dev) = 65536"
    using assms(1,3-5) drawn_advertised [of env dnr node json k dns dn dc h dev host] by auto
  have "(\<Sum>x \<leftarrow> allocated. ?draw x) \<le> 65536"
    using assms(2) by (simp only: available_counter_set)
  with one have zero: "(\<Sum>x \<leftarrow> pre. ?draw x) = 0" "(\<Sum>x \<leftarrow> post. ?draw x) = 0"
    unfolding split by simp_all
  have none: "\<not> ?uses x" if "x \<in> set pre \<union> set post" for x
  proof -
    obtain dn' dc' h' dev' where x: "x = (dn', dc', h', dev')"
      by (cases x)
    from that have "x \<in> set allocated"
      by (auto simp: split)
    from bspec [OF assms(1) this] have "advertised env dnr node (deviceConfigurators json k) dns dn' dc' h' dev'"
      by (simp add: x)
    from drawn_advertised [OF this, of host] have "hd_Name h' = host \<Longrightarrow> ?draw x \<noteq> 0"
      by (simp add: x)
    moreover from that zero have "?draw x = 0"
      by (auto simp: sum_list_eq_0_iff)
    ultimately show ?thesis
      by (auto simp: x)
  qed
  then have "filter ?uses pre = []" "filter ?uses post = []"
    by (auto simp: filter_empty_conv)
  with assms(4) show ?thesis
    unfolding split by simp
qed

lemma host_device_is_exclusive_witness:
  "\<exists>dev. filter (\<lambda>(dn :: DeviceNetwork, dc :: DeviceConfiguration, h, dev :: KubeDevice). hd_Name h = ''eth0'')
       [(demo_blue, demo_hostdev_config, demo_host, dev)] = [(demo_blue, demo_hostdev_config, demo_host, dev)] \<and>
     drawn ''eth0'' dev = 65536"
proof -
  obtain dev where adv: "advertised demo_env demo_reconciler demo_node
      (deviceConfigurators demo_json pod_kernel) [demo_blue] demo_blue demo_hostdev_config demo_host dev"
    using demo_advertised by blast
  have n: "hd_Name demo_host = ''eth0''" and t: "GetDeviceType demo_hostdev_config = DeviceTypeHostDevice"
    by (simp_all add: demo_host_def GetDeviceType_def demo_hostdev_config_def)
  have drawn: "drawn ''eth0'' dev = 65536"
    using drawn_advertised [OF adv, of "''eth0''"] by (simp add: n t)
  let ?allocated = "[(demo_blue, demo_hostdev_config, demo_host, dev)]"
  have all: "\<forall>(dn, dc, h, dev) \<in> set ?allocated. advertised demo_env demo_reconciler demo_node
      (deviceConfigurators demo_json pod_kernel) [demo_blue] dn dc h dev"
    by (simp add: adv)
  have fits: "(\<Sum>(dn, dc, h, dev) \<leftarrow> ?allocated. drawn ''eth0'' dev) \<le> available (counter_set ''eth0'')"
    by (simp add: available_counter_set drawn)
  have "(demo_blue, demo_hostdev_config, demo_host, dev) \<in> set ?allocated"
    by simp
  from host_device_is_exclusive [OF all fits this n t] drawn show ?thesis
    by blast
qed

section \<open>From the prepared claim to the configured pod\<close>

text \<open>The data of the devices that a claim was allocated can be written as JSON without a loss.\<close>

definition data_is_text :: "foreign_json \<Rightarrow> Driver \<Rightarrow> DeviceRequestAllocationResult list \<Rightarrow> bool" where
  "data_is_text F d results \<longleftrightarrow>
     (\<forall>result \<in> set results. \<forall>rd dn dc. deviceResolver d result = Ok (Some rd) \<longrightarrow>
        rd_DeviceNetwork rd = Some dn \<longrightarrow> rd_DeviceConfiguration rd = Some dc \<longrightarrow>
        StatusData_ok (status_data d dn dc (rd_HostDevice rd)) \<and>
        StatusData_text F (status_data d dn dc (rd_HostDevice rd)))"

lemma answered_status_configurator:
  assumes "env_json env = status_json F" and "foreign_json_ok F" and "data_is_text F d results"
    and "result \<in> set results" and "answers env d result kd a" and "keeps_status a st"
  shows "\<exists>rd dc. deviceResolver d result = Ok (Some rd) \<and> rd_DeviceConfiguration rd = Some dc \<and>
    status_configurator (env_json env) (d_deviceConfigurators d) st =
      d_deviceConfigurators d (GetDeviceType dc) \<and>
    d_deviceConfigurators d (GetDeviceType dc) \<noteq> None"
proof -
  from assms(5) obtain rd dn dc raw where
    f: "deviceResolver d result = Ok (Some rd)" "rd_DeviceConfiguration rd = Some dc" "rd_DeviceNetwork rd = Some dn"
      "d_deviceConfigurators d (GetDeviceType dc) \<noteq> None"
      "Marshal (env_json env) (status_data d dn dc (rd_HostDevice rd)) = Inr raw"
      "asa_Data a = Some \<lparr>Raw = Some raw\<rparr>"
    by (auto simp: answers_def)
  from assms(6) f(6) obtain raw' where raw': "ads_Data st = Some \<lparr>Raw = Some raw'\<rparr>" "same_text raw raw'"
    by (auto simp: keeps_status_def)
  from assms(3,4) f(1-3) have "StatusData_ok (status_data d dn dc (rd_HostDevice rd))"
      "StatusData_text F (status_data d dn dc (rd_HostDevice rd))"
    by (auto simp: data_is_text_def)
  from StatusData_reads_back [OF assms(2) this f(5) [unfolded assms(1)] raw'(2)] raw'(1) f(1,2,4) show ?thesis
    by (intro exI [of _ rd] exI [of _ dc]) (simp add: status_configurator_def status_data_def assms(1))
qed

text \<open>
  C4: what the driver prepares the plugin can configure. The claim the API server answers with is stored
  for its pod, if it is not stored already, and its statuses of this driver are one for each prepared device,
  under the same pool, device and share and with the network data the kubelet was told; from the data of
  the status, in whatever JSON text the server has it, the plugin selects the configurator of the very
  configuration that was resolved. Statuses of other drivers may be among them in any number.
\<close>

theorem prepared_claim_can_be_configured:
  assumes "resolver_echoes d" and "d_deviceConfigurators d = deviceConfigurators (status_json F) k"
    and "env_json env = status_json F" and "foreign_json_ok F"
    and "nodePrepareResource env d claim s = (Ok devices, s')" and "Allocation claim = Some results"
    and "own = filter (\<lambda>x. rar_Driver x = driverName d) results" and "data_is_text F d own"
    and "env_ApplyStatus env (applied s) (last (applied s')) = Inr updated"
    and "status_applied (last (applied s')) updated"
    and "statuses = filter (\<lambda>st. ads_Driver st = driverName d) (rc_Devices updated)"
  shows "(\<exists>pod others. ReservedFor updated = pod # others \<and>
      (rc_UID updated \<in> rc_UID ` set (Memory_Get pod (podResourceStore s)) \<or>
       updated \<in> set (Memory_Get pod (podResourceStore s')))) \<and>
    distinct (map status_key statuses) \<and> length devices = length own \<and>
    status_key ` set statuses = (\<lambda>kd. (driverName d, kubelet_key kd)) ` set devices \<and>
    (\<forall>i < length devices. \<forall>st \<in> set statuses. status_key st = (driverName d, kubelet_key (devices ! i)) \<longrightarrow>
       ads_NetworkData st = kd_NetworkData (devices ! i) \<and>
       (\<exists>rd dc. deviceResolver d (own ! i) = Ok (Some rd) \<and> rd_DeviceConfiguration rd = Some dc \<and>
          status_configurator (status_json F) (d_deviceConfigurators d) st =
            d_deviceConfigurators d (GetDeviceType dc) \<and>
          d_deviceConfigurators d (GetDeviceType dc) \<noteq> None))"
proof -
  from nodePrepareResource_prepared [OF assms(2,1,5)] assms(6,7) obtain applies x podUID others where
    f: "length devices = length own" "length applies = length own"
      "\<forall>i < length own. answers env d (own ! i) (devices ! i) (applies ! i)"
      "env_ApplyStatus env (applied s) (apply_request d claim applies) = Inr x"
      "ReservedFor x = podUID # others"
      "applied s' = applied s @ [apply_request d claim applies]"
      "podResourceStore s' = Memory_Add podUID x (podResourceStore s)"
    unfolding prepared_def by auto
  have x: "x = updated" and ap: "status_applied (apply_request d claim applies) updated"
    using f(4,6) assms(9,10) by simp_all
  have request: "ap_Devices (apply_request d claim applies) = applies"
      "ap_FieldManager (apply_request d claim applies) = driverName d"
    by (simp_all add: apply_request_def)
  have key: "(asa_Driver (applies ! i), apply_key (applies ! i)) = (driverName d, kubelet_key (devices ! i))"
    if "i < length devices" for i
  proof -
    have "rar_Driver (own ! i) = driverName d"
      using that f(1) nth_mem [of i own] by (simp add: assms(7))
    with f(1,3) that show ?thesis
      by (simp add: answers_def)
  qed
  have stored: "\<exists>pod others. ReservedFor updated = pod # others \<and>
      (rc_UID updated \<in> rc_UID ` set (Memory_Get pod (podResourceStore s)) \<or>
       updated \<in> set (Memory_Get pod (podResourceStore s')))"
    using f(5,7) by (simp add: x memory.get_add)
  have keys: "set (map (\<lambda>a. (asa_Driver a, apply_key a)) applies) = (\<lambda>kd. (driverName d, kubelet_key kd)) ` set devices"
  proof -
    have "map (\<lambda>a. (asa_Driver a, apply_key a)) applies = map (\<lambda>kd. (driverName d, kubelet_key kd)) devices"
      using key f(1,2) by (intro nth_equalityI) simp_all
    then show ?thesis
      by (simp only: set_map)
  qed
  have "status_key ` set statuses = set (map (\<lambda>a. (asa_Driver a, apply_key a)) applies)"
  proof (intro equalityI subsetI)
    fix y
    assume "y \<in> status_key ` set statuses"
    with ap show "y \<in> set (map (\<lambda>a. (asa_Driver a, apply_key a)) applies)"
      by (auto simp: status_applied_def request assms(11))
  next
    fix y
    assume y: "y \<in> set (map (\<lambda>a. (asa_Driver a, apply_key a)) applies)"
    with ap obtain st where "st \<in> set (rc_Devices updated)" "status_key st = y"
      by (auto simp: status_applied_def request keeps_status_def)
    moreover from y keys have "fst y = driverName d"
      by auto
    ultimately show "y \<in> status_key ` set statuses"
      by (force simp: assms(11) status_key_def)
  qed
  with keys have same_keys: "status_key ` set statuses = (\<lambda>kd. (driverName d, kubelet_key kd)) ` set devices"
    by simp
  have each: "ads_NetworkData st = kd_NetworkData (devices ! i) \<and>
       (\<exists>rd dc. deviceResolver d (own ! i) = Ok (Some rd) \<and> rd_DeviceConfiguration rd = Some dc \<and>
          status_configurator (status_json F) (d_deviceConfigurators d) st =
            d_deviceConfigurators d (GetDeviceType dc) \<and>
          d_deviceConfigurators d (GetDeviceType dc) \<noteq> None)"
    if "i < length devices" "st \<in> set statuses" "status_key st = (driverName d, kubelet_key (devices ! i))" for i st
  proof -
    from that(1) f(1,3) have ans: "answers env d (own ! i) (devices ! i) (applies ! i)" and own: "own ! i \<in> set own"
      by simp_all
    from that f(1,2) key [OF that(1)] have "keeps_status (applies ! i) st"
      by (intro applied_status_kept [OF ap]) (auto simp: request assms(11))
    with answered_status_configurator [OF assms(3,4,8) own ans] ans show ?thesis
      by (simp add: assms(3) keeps_status_def answers_def)
  qed
  have "distinct (map status_key statuses)"
    using ap by (simp add: status_applied_def assms(11) distinct_map_filter)
  with stored f(1) same_keys each show ?thesis
    by blast
qed

lemma prepared_claim_can_be_configured_witness:
  "\<exists>kd s' a st. nodePrepareResource demo_driver_env demo_driver demo_claim empty_driver_state = (Ok [kd], s') \<and>
     rc_Devices (demo_answer [a]) = [demo_gpu_status, st] \<and>
     demo_answer [a] \<in> set (Memory_Get ''pod-1'' (podResourceStore s')) \<and>
     ads_NetworkData st = kd_NetworkData kd \<and>
     status_configurator demo_status_json (deviceConfigurators demo_status_json pod_kernel) st =
       Some (HostDevice_Configurator demo_status_json pod_kernel run_HostDevice)"
proof -
  have d: "driverName demo_driver = ''devicenetwork.io''" "d_podNetworkKind demo_driver = ''devicenetwork-io-devicenetwork''"
      "d_deviceConfigurators demo_driver = deviceConfigurators demo_status_json pod_kernel"
      "deviceResolver demo_driver demo_result = Ok (Some
        \<lparr>rd_DeviceRequestAllocationResult = Some demo_result, rd_DeviceNetwork = Some demo_dn,
         rd_DeviceConfiguration = Some demo_hostdev_config, rd_ExposedDevice = Some empty_KubeDevice,
         rd_HostDevice = Some demo_host\<rparr>)"
    by (simp_all add: demo_driver_def)
  obtain kd a s' where
    prep: "nodePrepareResource demo_driver_env demo_driver demo_claim empty_driver_state = (Ok [kd], s')" and
    ap: "env_ApplyStatus demo_driver_env (applied empty_driver_state) (last (applied s')) = Inr (demo_answer [a])"
      "status_applied (last (applied s')) (demo_answer [a])" and
    get: "Memory_Get ''pod-1'' (podResourceStore s') = [demo_answer [a]]" and
    a: "asa_Driver a = ''devicenetwork.io''" "asa_Data a = Some \<lparr>Raw = Some demo_raw\<rparr>"
    by (rule demo_prepares [OF d refl])
  have json: "env_json demo_driver_env = demo_status_json"
    by (simp add: demo_driver_env_def)
  have claim: "Allocation demo_claim = Some [demo_result, demo_result\<lparr>rar_Driver := ''gpu.example.com''\<rparr>]"
      "[demo_result] = filter (\<lambda>x. rar_Driver x = driverName demo_driver)
        [demo_result, demo_result\<lparr>rar_Driver := ''gpu.example.com''\<rparr>]"
      "[kept_status a] = filter (\<lambda>st. ads_Driver st = driverName demo_driver) (rc_Devices (demo_answer [a]))"
    using a by (simp_all add: demo_claim_def demo_result_def demo_driver_def kept_status_def demo_gpu_status_def)
  have data: "status_data demo_driver demo_dn demo_hostdev_config (Some demo_host) = demo_status_data demo_hostdev_config"
    by (simp add: status_data_def d demo_dn_def demo_status_data_def)
  have is_text: "data_is_text demo_foreign demo_driver [demo_result]"
    using demo_status_text by (simp add: data_is_text_def d(4) data)
  note result = prepared_claim_can_be_configured [OF demo_driver_echoes d(3) json demo_foreign_ok prep claim(1,2) is_text ap claim(3)]
  from result have keys: "status_key ` set [kept_status a] = (\<lambda>kd. (driverName demo_driver, kubelet_key kd)) ` set [kd]"
    by blast
  with result have "ads_NetworkData (kept_status a) = kd_NetworkData kd \<and>
      (\<exists>rd dc. deviceResolver demo_driver demo_result = Ok (Some rd) \<and> rd_DeviceConfiguration rd = Some dc \<and>
         status_configurator demo_status_json (d_deviceConfigurators demo_driver) (kept_status a) =
           d_deviceConfigurators demo_driver (GetDeviceType dc))"
    by fastforce
  then have "ads_NetworkData (kept_status a) = kd_NetworkData kd \<and>
      status_configurator demo_status_json (deviceConfigurators demo_status_json pod_kernel) (kept_status a) =
        Some (HostDevice_Configurator demo_status_json pod_kernel run_HostDevice)"
    by (auto simp: d(3,4) demo_hostdev_type)
  with prep get show ?thesis
    by (intro exI [of _ kd] exI [of _ s'] exI [of _ a] exI [of _ "kept_status a"]) simp
qed

end
